(* ===== verification/Prelude.thy ===== *)
theory Prelude
  imports Main "HOL-Library.Word" "HOL-Library.AList"
begin

unbundle bit_operations_syntax

text \<open>
  The vocabulary every component shares: machine integers as fixed-width words, \<open>Result\<close> as a sum
  whose left summand is the error, the \<open>?\<close> operator as a bind, byte readers (the code's
  \<open>Read\<close> over a cursor) as functions from the unread input, and hash maps as association lists
  that hold each key once.  The collections \<open>res_simps\<close> and \<open>hm_simps\<close> carry the automation
  the components use.
\<close>

named_theorems res_simps
named_theorems hm_simps

type_synonym u8 = "8 word"
type_synonym u16 = "16 word"
type_synonym u32 = "32 word"
type_synonym i32 = "32 word"
type_synonym u64 = "64 word"
type_synonym bytes = "u8 list"
type_synonym ('e, 'a) result = "'e + 'a"

text \<open>Durations and instants: nanoseconds as natural numbers, so that Rust's
  \<open>saturating_sub\<close> and \<open>saturating_duration_since\<close> are the truncated subtraction of nat.\<close>

type_synonym duration = nat
type_synonym instant = nat

definition nanosecond :: duration where "nanosecond = 1"
definition millisecond :: duration where "millisecond = 1000000"
definition second :: duration where "second = 1000000000"


subsection \<open>Results\<close>

fun res_bind :: "('e, 'a) result \<Rightarrow> ('a \<Rightarrow> ('e, 'b) result) \<Rightarrow> ('e, 'b) result" where
  "res_bind (Inl e) f = Inl e"
| "res_bind (Inr a) f = f a"

fun map_err :: "('e \<Rightarrow> 'f) \<Rightarrow> ('e, 'a) result \<Rightarrow> ('f, 'a) result" where
  "map_err f (Inl e) = Inl (f e)"
| "map_err f (Inr a) = Inr a"

fun ok_or :: "'e \<Rightarrow> 'a option \<Rightarrow> ('e, 'a) result" where
  "ok_or e None = Inl e"
| "ok_or e (Some a) = Inr a"

fun res_ok :: "('e, 'a) result \<Rightarrow> 'a option" where
  "res_ok (Inl e) = None"
| "res_ok (Inr a) = Some a"

fun is_ok :: "('e, 'a) result \<Rightarrow> bool" where
  "is_ok (Inl e) = False"
| "is_ok (Inr a) = True"

fun opt_bind :: "'a option \<Rightarrow> ('a \<Rightarrow> 'b option) \<Rightarrow> 'b option" where
  "opt_bind None f = None"
| "opt_bind (Some a) f = f a"

text \<open>\<open>collect::<Result<Vec<_>>>\<close>: the first error, or every value in order.\<close>

fun res_collect :: "('a \<Rightarrow> ('e, 'b) result) \<Rightarrow> 'a list \<Rightarrow> ('e, 'b list) result" where
  "res_collect f [] = Inr []"
| "res_collect f (x # xs) =
     res_bind (f x) (\<lambda>y. res_bind (res_collect f xs) (\<lambda>ys. Inr (y # ys)))"

subsection \<open>Readers\<close>

text \<open>A reader takes the unread bytes and returns its value with what is left.\<close>

type_synonym ('e, 'a) reader = "bytes \<Rightarrow> ('e, 'a \<times> bytes) result"

definition rd_bind :: "('e, 'a) reader \<Rightarrow> ('a \<Rightarrow> ('e, 'b) reader) \<Rightarrow> ('e, 'b) reader" where
  "rd_bind r f inp = res_bind (r inp) (\<lambda>(a, rest). f a rest)"

definition rd_ok :: "'a \<Rightarrow> ('e, 'a) reader" where
  "rd_ok a inp = Inr (a, inp)"

definition rd_err :: "'e \<Rightarrow> ('e, 'a) reader" where
  "rd_err e inp = Inl e"

definition rd_res :: "('e, 'a) result \<Rightarrow> ('e, 'a) reader" where
  "rd_res r inp = res_bind r (\<lambda>a. Inr (a, inp))"

text \<open>A reader is streaming when more input after what it needed changes nothing but the rest.\<close>

definition rd_stream :: "('e, 'a) reader \<Rightarrow> bool" where
  "rd_stream r \<longleftrightarrow> (\<forall>inp a rest more. r inp = Inr (a, rest) \<longrightarrow> r (inp @ more) = Inr (a, rest @ more))"

subsection \<open>Hash maps\<close>

text \<open>\<open>HashMap<K, V>\<close>: the entries in some order, each key once.  The order stands for the
  unspecified iteration order of the standard library's map; the theorems hold for every order.\<close>

type_synonym ('k, 'v) hash_map = "('k \<times> 'v) list"

definition hm_wf :: "('k, 'v) hash_map \<Rightarrow> bool" where
  "hm_wf m = distinct (map fst m)"

definition hm_get :: "('k, 'v) hash_map \<Rightarrow> 'k \<Rightarrow> 'v option" where
  "hm_get m k = map_of m k"

definition hm_insert :: "'k \<Rightarrow> 'v \<Rightarrow> ('k, 'v) hash_map \<Rightarrow> ('k, 'v) hash_map" where
  "hm_insert k v m = AList.update k v m"

definition hm_remove :: "'k \<Rightarrow> ('k, 'v) hash_map \<Rightarrow> ('k, 'v) hash_map" where
  "hm_remove k m = AList.delete k m"

definition hm_retain :: "('k \<Rightarrow> 'v \<Rightarrow> bool) \<Rightarrow> ('k, 'v) hash_map \<Rightarrow> ('k, 'v) hash_map" where
  "hm_retain P m = filter (\<lambda>(k, v). P k v) m"

definition hm_contains :: "('k, 'v) hash_map \<Rightarrow> 'k \<Rightarrow> bool" where
  "hm_contains m k = (k \<in> set (map fst m))"

definition hm_len :: "('k, 'v) hash_map \<Rightarrow> nat" where
  "hm_len m = length m"


section \<open>Lemmas\<close>

lemma unat_bound: "unat (w :: 'a::len word) < 2 ^ LENGTH('a)"
  by (rule unsigned_less)

lemma res_bind_eq_Inr [res_simps]:
  "res_bind r f = Inr b \<longleftrightarrow> (\<exists>a. r = Inr a \<and> f a = Inr b)"
  by (cases r) auto

lemma res_bind_eq_Inl [res_simps]:
  "res_bind r f = Inl e \<longleftrightarrow> r = Inl e \<or> (\<exists>a. r = Inr a \<and> f a = Inl e)"
  by (cases r) auto

lemma res_bind_assoc:
  "res_bind (res_bind r f) g = res_bind r (\<lambda>a. res_bind (f a) g)"
  by (cases r) auto

lemma map_err_eq_Inr [simp]: "map_err f r = Inr a \<longleftrightarrow> r = Inr a"
  by (cases r) auto

lemma ok_or_eq_Inr [simp]: "ok_or e x = Inr a \<longleftrightarrow> x = Some a"
  by (cases x) auto

lemma ok_or_eq_Inl [simp]: "ok_or e x = Inl e' \<longleftrightarrow> x = None \<and> e' = e"
  by (cases x) auto

lemma res_ok_eq_Some [simp]: "res_ok r = Some a \<longleftrightarrow> r = Inr a"
  by (cases r) auto

lemma is_ok_iff: "is_ok r \<longleftrightarrow> (\<exists>a. r = Inr a)"
  by (cases r) auto

lemma opt_bind_eq_Some [simp]: "opt_bind x f = Some b \<longleftrightarrow> (\<exists>a. x = Some a \<and> f a = Some b)"
  by (cases x) auto

lemma foldl_min_start:
  fixes w :: nat
  shows "foldl (\<lambda>w p. min w (f p)) w ps \<le> w"
proof (induction ps arbitrary: w)
  case (Cons p ps)
  from Cons.IH [of "min w (f p)"] show ?case
    by simp
qed simp

lemma foldl_min_member:
  fixes w :: nat
  assumes "p \<in> set ps"
  shows "foldl (\<lambda>w p. min w (f p)) w ps \<le> f p"
  using assms
proof (induction ps arbitrary: w)
  case (Cons q ps)
  then show ?case
    using foldl_min_start [of f "min w (f q)" ps] by (cases "p = q") auto
qed simp

lemma foldl_min_pos:
  fixes w :: nat
  assumes "0 < w" "\<forall>p \<in> set ps. 0 < f p"
  shows "0 < foldl (\<lambda>w p. min w (f p)) w ps"
  using assms by (induction ps arbitrary: w) auto

lemma res_collect_ok:
  "(\<And>x. x \<in> set xs \<Longrightarrow> f x = Inr (g x)) \<Longrightarrow> res_collect f xs = Inr (map g xs)"
  by (induction xs) auto

lemma rd_bind_Inr [simp]: "r inp = Inr (a, rest) \<Longrightarrow> rd_bind r f inp = f a rest"
  by (simp add: rd_bind_def)

lemma rd_bind_Inl [simp]: "r inp = Inl e \<Longrightarrow> rd_bind r f inp = Inl e"
  by (simp add: rd_bind_def)

lemma rd_bind_eq_Inr:
  "rd_bind r f inp = Inr z \<longleftrightarrow> (\<exists>a rest. r inp = Inr (a, rest) \<and> f a rest = Inr z)"
  by (auto simp: rd_bind_def res_simps split: prod.splits)

lemma rd_ok_app [simp]: "rd_ok a inp = Inr (a, inp)"
  by (simp add: rd_ok_def)

lemma rd_err_app [simp]: "rd_err e inp = Inl e"
  by (simp add: rd_err_def)

lemma rd_res_Inr [simp]: "rd_res (Inr a) inp = Inr (a, inp)"
  by (simp add: rd_res_def)

lemma rd_res_Inl [simp]: "rd_res (Inl e) inp = Inl e"
  by (simp add: rd_res_def)

lemma rd_res_eq_Inr [simp]: "rd_res r inp = Inr (a, rest) \<longleftrightarrow> r = Inr a \<and> rest = inp"
  by (cases r) auto

lemma rd_stream_bind:
  assumes "rd_stream r" "\<And>a. rd_stream (f a)"
  shows "rd_stream (rd_bind r f)"
  unfolding rd_stream_def
proof (intro allI impI)
  fix inp b rest more
  assume "rd_bind r f inp = Inr (b, rest)"
  then obtain a inp' where "r inp = Inr (a, inp')" "f a inp' = Inr (b, rest)"
    by (auto simp: rd_bind_eq_Inr)
  with assms have "r (inp @ more) = Inr (a, inp' @ more)" "f a (inp' @ more) = Inr (b, rest @ more)"
    unfolding rd_stream_def by blast+
  then show "rd_bind r f (inp @ more) = Inr (b, rest @ more)"
    by simp
qed

lemma rd_stream_basic: "rd_stream (rd_ok a)" "rd_stream (rd_err e)" "rd_stream (rd_res x)"
  by (auto simp: rd_stream_def)

lemmas rd_stream_intros = rd_stream_bind rd_stream_basic

subsection \<open>Hash map laws\<close>

lemma hm_wf_Nil [simp, intro]: "hm_wf []"
  by (simp add: hm_wf_def)

lemma hm_wf_insert [simp, intro]: "hm_wf m \<Longrightarrow> hm_wf (hm_insert k v m)"
  by (simp add: hm_wf_def hm_insert_def distinct_update)

lemma hm_wf_remove [simp, intro]: "hm_wf m \<Longrightarrow> hm_wf (hm_remove k m)"
  by (simp add: hm_wf_def hm_remove_def distinct_delete)

lemma hm_wf_retain [simp, intro]: "hm_wf m \<Longrightarrow> hm_wf (hm_retain P m)"
  by (auto simp: hm_wf_def hm_retain_def distinct_map_filter)

lemma hm_get_Nil [simp]: "hm_get [] k = None"
  by (simp add: hm_get_def)

lemma hm_get_insert [hm_simps]:
  "hm_get (hm_insert k v m) k' = (if k' = k then Some v else hm_get m k')"
  by (simp add: hm_get_def hm_insert_def update_conv')

lemma hm_get_remove [hm_simps]:
  "hm_get (hm_remove k m) k' = (if k' = k then None else hm_get m k')"
  by (simp add: hm_get_def hm_remove_def delete_conv')

lemma hm_get_retain [hm_simps]:
  "hm_wf m \<Longrightarrow> hm_get (hm_retain P m) k =
     (case hm_get m k of None \<Rightarrow> None | Some v \<Rightarrow> if P k v then Some v else None)"
proof (induction m)
  case (Cons x m)
  then have "hm_get m (fst x) = None"
    by (simp add: hm_get_def hm_wf_def map_of_eq_None_iff)
  with Cons show ?case
    by (cases x) (auto simp: hm_get_def hm_retain_def hm_wf_def split: option.splits)
qed (simp add: hm_retain_def)

lemma hm_contains_get: "hm_contains m k \<longleftrightarrow> hm_get m k \<noteq> None"
  by (force simp: hm_contains_def hm_get_def map_of_eq_None_iff)

lemma hm_get_mem: "hm_wf m \<Longrightarrow> (k, v) \<in> set m \<longleftrightarrow> hm_get m k = Some v"
  by (simp add: hm_wf_def hm_get_def)

lemma hm_insert_new: "hm_get m k = None \<Longrightarrow> hm_insert k v m = m @ [(k, v)]"
  unfolding hm_get_def hm_insert_def by (induction m) (auto split: if_splits)

lemma hm_remove_retain: "hm_remove c m = hm_retain (\<lambda>k _. k \<noteq> c) m"
  unfolding hm_remove_def hm_retain_def by (simp add: AList.delete_eq case_prod_unfold eq_commute)

lemma hm_retain_retain: "hm_retain P (hm_retain Q m) = hm_retain (\<lambda>k v. Q k v \<and> P k v) m"
  by (induction m) (auto simp: hm_retain_def)

lemma hm_empty: "hm_wf m \<Longrightarrow> (\<And>k. hm_get m k = None) \<Longrightarrow> m = []"
  by (metis hm_get_mem list.set_intros(1) neq_Nil_conv option.distinct(1) surj_pair)

lemma hm_len_Nil [simp]: "hm_len [] = 0"
  by (simp add: hm_len_def)

lemma hm_len_card: "hm_wf m \<Longrightarrow> hm_len m = card {k. hm_get m k \<noteq> None}"
proof -
  assume "hm_wf m"
  then have "length m = card (fst ` set m)"
    by (metis distinct_card hm_wf_def length_map set_map)
  moreover have "fst ` set m = {k. hm_get m k \<noteq> None}"
    by (auto simp: hm_get_def map_of_eq_None_iff)
  ultimately show ?thesis
    by (simp add: hm_len_def)
qed

lemma hm_len_insert_new: "hm_get m k = None \<Longrightarrow> hm_len (hm_insert k v m) = Suc (hm_len m)"
  unfolding hm_get_def hm_len_def hm_insert_def by (induction m) (auto split: if_splits)

lemma hm_len_insert_old: "hm_get m k \<noteq> None \<Longrightarrow> hm_len (hm_insert k v m) = hm_len m"
  unfolding hm_get_def hm_len_def hm_insert_def by (induction m) (auto split: if_splits)

lemma hm_len_remove_le: "hm_len (hm_remove k m) \<le> hm_len m"
  by (simp add: hm_len_def hm_remove_def length_delete_le)

lemma hm_len_remove_present: "hm_wf m \<Longrightarrow> hm_get m k \<noteq> None \<Longrightarrow> Suc (hm_len (hm_remove k m)) = hm_len m"
proof (induction m)
  case (Cons x m)
  show ?case
  proof (cases "fst x = k")
    case True
    with Cons.prems have "k \<notin> fst ` set m"
      by (auto simp: hm_wf_def)
    with True show ?thesis
      by (simp add: hm_len_def hm_remove_def)
  next
    case False
    with Cons show ?thesis
      by (cases x) (auto simp: hm_len_def hm_remove_def hm_wf_def hm_get_def)
  qed
qed simp

lemma hm_len_retain_le: "hm_len (hm_retain P m) \<le> hm_len m"
  by (simp add: hm_len_def hm_retain_def)

subsection \<open>The map interface\<close>

text \<open>What the components rely on of a table with a size: the code's capacity checks read the
  size and then insert.\<close>

locale sized_table =
  fixes wf :: "'m \<Rightarrow> bool"
    and get :: "'m \<Rightarrow> 'k \<Rightarrow> 'v option"
    and ins :: "'k \<Rightarrow> 'v \<Rightarrow> 'm \<Rightarrow> 'm"
    and rem :: "'k \<Rightarrow> 'm \<Rightarrow> 'm"
    and len :: "'m \<Rightarrow> nat"
  assumes wf_ins: "wf m \<Longrightarrow> wf (ins k v m)"
    and wf_rem: "wf m \<Longrightarrow> wf (rem k m)"
    and get_ins: "get (ins k v m) k' = (if k' = k then Some v else get m k')"
    and get_rem: "get (rem k m) k' = (if k' = k then None else get m k')"
    and len_get: "wf m \<Longrightarrow> len m = card {k. get m k \<noteq> None}"
    and fin_get: "finite {k. get m k \<noteq> None}"
begin

lemma len_ins_le: "wf m \<Longrightarrow> len (ins k v m) \<le> Suc (len m)"
proof -
  assume "wf m"
  moreover have "{k'. get (ins k v m) k' \<noteq> None} = insert k {k. get m k \<noteq> None}"
    by (auto simp: get_ins)
  ultimately show ?thesis
    using fin_get [of m] by (simp add: len_get wf_ins card_insert_if)
qed

lemma len_ins_held: "wf m \<Longrightarrow> get m k \<noteq> None \<Longrightarrow> len (ins k v m) = len m"
proof -
  assume "wf m" "get m k \<noteq> None"
  moreover from this have "{k'. get (ins k v m) k' \<noteq> None} = {k. get m k \<noteq> None}"
    by (auto simp: get_ins)
  ultimately show ?thesis
    by (simp add: len_get wf_ins)
qed

lemma bounded_ins:
  assumes "wf m" "len m \<le> cap" "len m < cap \<or> get m k \<noteq> None"
  shows "len (ins k v m) \<le> cap"
  using assms len_ins_le [of m k v] len_ins_held [of m k v] by (cases "get m k = None") auto

lemma bounded_rem:
  assumes "wf m" "len m \<le> cap"
  shows "len (rem k m) \<le> cap"
proof -
  have "{k'. get (rem k m) k' \<noteq> None} \<subseteq> {k. get m k \<noteq> None}"
    by (auto simp: get_rem split: if_splits)
  then have "card {k'. get (rem k m) k' \<noteq> None} \<le> card {k. get m k \<noteq> None}"
    by (rule card_mono [OF fin_get])
  with assms show ?thesis
    by (simp add: len_get wf_rem)
qed

end

interpretation hm: sized_table hm_wf hm_get hm_insert hm_remove hm_len
proof unfold_locales
  fix m :: "('a, 'b) hash_map"
  have "{k. hm_get m k \<noteq> None} = fst ` set m"
    by (auto simp: hm_get_def map_of_eq_None_iff)
  then show "finite {k. hm_get m k \<noteq> None}"
    by simp
qed (auto simp: hm_simps hm_len_card)

end
