(* ===== verification/Rust_Text.thy ===== *)
theory Rust_Text
  imports Prelude
begin

text \<open>
  The part of the standard library's \<open>str\<close> and \<open>String\<close> the program uses.  A Rust string is a list
  of characters of eight bits each, its UTF-8 bytes; \<open>is_str\<close> says that they are well formed,
  as every \<open>String\<close> value of the program is.  Splitting, trimming, decimal printing and parsing
  are defined on that representation.
\<close>

named_theorems str_simps

definition byte_of_char :: "char \<Rightarrow> u8" where
  "byte_of_char c = of_nat (of_char c)"

definition char_of_byte :: "u8 \<Rightarrow> char" where
  "char_of_byte b = char_of (unat b)"

definition as_bytes :: "string \<Rightarrow> bytes" where
  "as_bytes s = map byte_of_char s"

definition str_of :: "bytes \<Rightarrow> string" where
  "str_of bs = map char_of_byte bs"

subsection \<open>UTF-8\<close>

definition utf8_cont :: "u8 \<Rightarrow> bool" where
  "utf8_cont b \<longleftrightarrow> 0x80 \<le> b \<and> b \<le> 0xBF"

definition utf8_lead2 :: "u8 \<Rightarrow> u8 \<Rightarrow> bool" where
  "utf8_lead2 a b \<longleftrightarrow> 0xC2 \<le> a \<and> a \<le> 0xDF \<and> utf8_cont b"

definition utf8_lead3 :: "u8 \<Rightarrow> u8 \<Rightarrow> bool" where
  "utf8_lead3 a b \<longleftrightarrow>
     (a = 0xE0 \<and> 0xA0 \<le> b \<and> b \<le> 0xBF) \<or>
     (0xE1 \<le> a \<and> a \<le> 0xEC \<and> utf8_cont b) \<or>
     (a = 0xED \<and> 0x80 \<le> b \<and> b \<le> 0x9F) \<or>
     (0xEE \<le> a \<and> a \<le> 0xEF \<and> utf8_cont b)"

definition utf8_lead4 :: "u8 \<Rightarrow> u8 \<Rightarrow> bool" where
  "utf8_lead4 a b \<longleftrightarrow>
     (a = 0xF0 \<and> 0x90 \<le> b \<and> b \<le> 0xBF) \<or>
     (0xF1 \<le> a \<and> a \<le> 0xF3 \<and> utf8_cont b) \<or>
     (a = 0xF4 \<and> 0x80 \<le> b \<and> b \<le> 0x8F)"

fun utf8_valid :: "bytes \<Rightarrow> bool" where
  "utf8_valid [] = True"
| "utf8_valid (a # xs) =
    (if a < 0x80 then utf8_valid xs
     else case xs of [] \<Rightarrow> False | b # ys \<Rightarrow>
       if utf8_lead2 a b then utf8_valid ys
       else case ys of [] \<Rightarrow> False | c # zs \<Rightarrow>
         if utf8_lead3 a b \<and> utf8_cont c then utf8_valid zs
         else case zs of [] \<Rightarrow> False | d # ws \<Rightarrow>
           utf8_lead4 a b \<and> utf8_cont c \<and> utf8_cont d \<and> utf8_valid ws)"

declare utf8_valid.simps(2) [simp del]

definition is_str :: "string \<Rightarrow> bool" where
  "is_str s = utf8_valid (as_bytes s)"

text \<open>\<open>String::from_utf8\<close>.\<close>

definition from_utf8 :: "bytes \<Rightarrow> string option" where
  "from_utf8 bs = (if utf8_valid bs then Some (str_of bs) else None)"

text \<open>\<open>String::from_utf8_lossy\<close>: each maximal part that begins no valid encoding becomes U+FFFD.\<close>

definition REPLACEMENT :: bytes where "REPLACEMENT = [0xEF, 0xBF, 0xBD]"

fun utf8_lossy :: "bytes \<Rightarrow> bytes" where
  "utf8_lossy [] = []"
| "utf8_lossy (a # xs) =
    (if a < 0x80 then a # utf8_lossy xs
     else case xs of
       [] \<Rightarrow> REPLACEMENT
     | b # ys \<Rightarrow>
         if utf8_lead2 a b then a # b # utf8_lossy ys
         else if utf8_lead3 a b then
           (case ys of
              [] \<Rightarrow> REPLACEMENT
            | c # zs \<Rightarrow> if utf8_cont c then a # b # c # utf8_lossy zs else REPLACEMENT @ utf8_lossy (c # zs))
         else if utf8_lead4 a b then
           (case ys of
              [] \<Rightarrow> REPLACEMENT
            | c # zs \<Rightarrow>
                if utf8_cont c then
                  (case zs of
                     [] \<Rightarrow> REPLACEMENT
                   | d # ws \<Rightarrow> if utf8_cont d then a # b # c # d # utf8_lossy ws else REPLACEMENT @ utf8_lossy (d # ws))
                else REPLACEMENT @ utf8_lossy (c # zs))
         else REPLACEMENT @ utf8_lossy (b # ys))"

declare utf8_lossy.simps(2) [simp del]

definition from_utf8_lossy :: "bytes \<Rightarrow> string" where
  "from_utf8_lossy bs = str_of (utf8_lossy bs)"

definition is_ascii :: "string \<Rightarrow> bool" where
  "is_ascii s = list_all (\<lambda>c. of_char c < (128 :: nat)) s"

subsection \<open>Decimal integers\<close>

definition digit_char :: "nat \<Rightarrow> char" where
  "digit_char d = char_of (48 + d)"

fun dec :: "nat \<Rightarrow> string" where
  "dec n = (if n < 10 then [digit_char n] else dec (n div 10) @ [digit_char (n mod 10)])"

declare dec.simps [simp del]

definition is_digit :: "char \<Rightarrow> bool" where
  "is_digit c \<longleftrightarrow> 48 \<le> (of_char c :: nat) \<and> (of_char c :: nat) \<le> 57"

definition digit_val :: "char \<Rightarrow> nat" where
  "digit_val c = of_char c - 48"

definition digits_value :: "string \<Rightarrow> nat" where
  "digits_value s = foldl (\<lambda>a c. 10 * a + digit_val c) 0 s"

definition parse_digits :: "nat \<Rightarrow> string \<Rightarrow> nat option" where
  "parse_digits bound s =
     (if s \<noteq> [] \<and> list_all is_digit s \<and> digits_value s \<le> bound then Some (digits_value s) else None)"

text \<open>\<open>str::parse\<close> at an unsigned type whose maximum is \<open>bound\<close>: an optional plus sign, then
  digits.\<close>

definition parse_uint :: "nat \<Rightarrow> string \<Rightarrow> nat option" where
  "parse_uint bound s =
     (case s of [] \<Rightarrow> None | c # r \<Rightarrow> if c = CHR ''+'' then parse_digits bound r else parse_digits bound s)"

definition parse_u64 :: "string \<Rightarrow> u64 option" where
  "parse_u64 s = map_option of_nat (parse_uint (2 ^ 64 - 1) s)"

definition parse_u32 :: "string \<Rightarrow> u32 option" where
  "parse_u32 s = map_option of_nat (parse_uint (2 ^ 32 - 1) s)"

definition parse_u16 :: "string \<Rightarrow> u16 option" where
  "parse_u16 s = map_option of_nat (parse_uint (2 ^ 16 - 1) s)"

definition parse_i32 :: "string \<Rightarrow> i32 option" where
  "parse_i32 s = (case s of [] \<Rightarrow> None | c # r \<Rightarrow>
     if c = CHR ''-'' then map_option (\<lambda>n. - of_nat n) (parse_digits (2 ^ 31) r)
     else map_option of_nat (parse_uint (2 ^ 31 - 1) s))"

definition u64_to_string :: "u64 \<Rightarrow> string" where
  "u64_to_string w = dec (unat w)"

definition u32_to_string :: "u32 \<Rightarrow> string" where
  "u32_to_string w = dec (unat w)"

text \<open>\<open>Display\<close> of a signed 32-bit integer.\<close>

definition i32_to_string :: "i32 \<Rightarrow> string" where
  "i32_to_string w = (if sint w < 0 then ''-'' @ dec (nat (- sint w)) else dec (nat (sint w)))"

subsection \<open>Splitting\<close>

fun split_on :: "char \<Rightarrow> string \<Rightarrow> string list" where
  "split_on c [] = [[]]"
| "split_on c (x # xs) =
     (if x = c then [] # split_on c xs
      else case split_on c xs of [] \<Rightarrow> [[x]] | p # ps \<Rightarrow> (x # p) # ps)"

text \<open>Splitting at every character of a set, such as \<open>['\r', '\n']\<close>.\<close>

fun split_where :: "(char \<Rightarrow> bool) \<Rightarrow> string \<Rightarrow> string list" where
  "split_where P [] = [[]]"
| "split_where P (x # xs) =
     (if P x then [] # split_where P xs
      else case split_where P xs of [] \<Rightarrow> [[x]] | p # ps \<Rightarrow> (x # p) # ps)"

definition is_crlf :: "char \<Rightarrow> bool" where
  "is_crlf c \<longleftrightarrow> c = CHR 0x0D \<or> c = CHR 0x0A"

definition crlf :: string where
  "crlf = [CHR 0x0D, CHR 0x0A]"

definition split_once :: "char \<Rightarrow> string \<Rightarrow> (string \<times> string) option" where
  "split_once c s =
     (if c \<in> set s then Some (takeWhile (\<lambda>x. x \<noteq> c) s, tl (dropWhile (\<lambda>x. x \<noteq> c) s)) else None)"

fun splitn :: "nat \<Rightarrow> char \<Rightarrow> string \<Rightarrow> string list" where
  "splitn 0 c s = []"
| "splitn (Suc 0) c s = [s]"
| "splitn (Suc (Suc n)) c s =
     (case split_once c s of None \<Rightarrow> [s] | Some (a, b) \<Rightarrow> a # splitn (Suc n) c b)"

definition strip_prefix :: "string \<Rightarrow> string \<Rightarrow> string option" where
  "strip_prefix p s = (if take (length p) s = p then Some (drop (length p) s) else None)"

definition starts_with :: "string \<Rightarrow> string \<Rightarrow> bool" where
  "starts_with s p \<longleftrightarrow> take (length p) s = p"

definition strip_suffix :: "string \<Rightarrow> string \<Rightarrow> string option" where
  "strip_suffix p s = map_option rev (strip_prefix (rev p) (rev s))"

fun join_with :: "string \<Rightarrow> string list \<Rightarrow> string" where
  "join_with sep [] = []"
| "join_with sep [x] = x"
| "join_with sep (x # y # ys) = x @ sep @ join_with sep (y # ys)"

subsection \<open>Whitespace and case\<close>

text \<open>The UTF-8 encodings of the characters with the Unicode property White_Space.\<close>

definition whitespace :: "string list" where
  "whitespace = map (map char_of)
     ([[9], [10], [11], [12], [13], [32], [0xC2, 0x85], [0xC2, 0xA0], [0xE1, 0x9A, 0x80],
       [0xE2, 0x80, 0x80], [0xE2, 0x80, 0x81], [0xE2, 0x80, 0x82], [0xE2, 0x80, 0x83],
       [0xE2, 0x80, 0x84], [0xE2, 0x80, 0x85], [0xE2, 0x80, 0x86], [0xE2, 0x80, 0x87],
       [0xE2, 0x80, 0x88], [0xE2, 0x80, 0x89], [0xE2, 0x80, 0x8A], [0xE2, 0x80, 0xA8],
       [0xE2, 0x80, 0xA9], [0xE2, 0x80, 0xAF], [0xE2, 0x81, 0x9F], [0xE3, 0x80, 0x80]] :: nat list list)"

function strip_any :: "string list \<Rightarrow> string \<Rightarrow> string" where
  "strip_any encs s =
     (case find (\<lambda>e. e \<noteq> [] \<and> starts_with s e) encs of
        None \<Rightarrow> s
      | Some e \<Rightarrow> strip_any encs (drop (length e) s))"
  by pat_completeness auto
termination
proof (relation "measure (\<lambda>(encs, s). length s)")
  fix encs :: "string list" and s e
  assume "find (\<lambda>e. e \<noteq> [] \<and> starts_with s e) encs = Some e"
  then have "e \<noteq> []" "take (length e) s = e"
    by (auto simp: find_Some_iff starts_with_def)
  then have "0 < length e" "s \<noteq> []"
    by auto
  then show "((encs, drop (length e) s), (encs, s)) \<in> measure (\<lambda>(encs, s). length s)"
    by simp
qed simp

declare strip_any.simps [simp del]

definition trim_start :: "string \<Rightarrow> string" where
  "trim_start s = strip_any whitespace s"

definition trim_end :: "string \<Rightarrow> string" where
  "trim_end s = rev (strip_any (map rev whitespace) (rev s))"

definition trim :: "string \<Rightarrow> string" where
  "trim s = trim_end (trim_start s)"

definition ascii_lower :: "char \<Rightarrow> char" where
  "ascii_lower c = (let n = of_char c :: nat in if 65 \<le> n \<and> n \<le> 90 then char_of (n + 32) else c)"

definition to_ascii_lowercase :: "string \<Rightarrow> string" where
  "to_ascii_lowercase s = map ascii_lower s"

definition eq_ignore_ascii_case :: "string \<Rightarrow> string \<Rightarrow> bool" where
  "eq_ignore_ascii_case a b \<longleftrightarrow> to_ascii_lowercase a = to_ascii_lowercase b"


section \<open>Lemmas\<close>

lemma char_of_byte_of_char [simp]: "char_of_byte (byte_of_char c) = c"
proof -
  have "of_char c < (256 :: nat)"
    by simp
  then show ?thesis
    by (simp add: char_of_byte_def byte_of_char_def unat_of_nat take_bit_eq_mod)
qed

lemma byte_of_char_of_byte [simp]: "byte_of_char (char_of_byte b) = b"
proof -
  have "unat b < 256"
    using unat_bound [of b] by simp
  then show ?thesis
    by (simp add: char_of_byte_def byte_of_char_def)
qed

lemma str_of_as_bytes [simp]: "str_of (as_bytes s) = s"
  by (simp add: str_of_def as_bytes_def comp_def)

lemma as_bytes_str_of [simp]: "as_bytes (str_of bs) = bs"
  by (simp add: str_of_def as_bytes_def comp_def)

lemma length_as_bytes [simp]: "length (as_bytes s) = length s"
  by (simp add: as_bytes_def)

lemma length_str_of [simp]: "length (str_of s) = length s"
  by (simp add: str_of_def)

lemma as_bytes_append [simp]: "as_bytes (a @ b) = as_bytes a @ as_bytes b"
  by (simp add: as_bytes_def)

lemma as_bytes_inj [simp]: "as_bytes a = as_bytes b \<longleftrightarrow> a = b"
  by (metis str_of_as_bytes)

lemma from_utf8_as_bytes [simp]: "is_str s \<Longrightarrow> from_utf8 (as_bytes s) = Some s"
  by (simp add: from_utf8_def is_str_def)

lemma from_utf8_Some: "from_utf8 bs = Some s \<longleftrightarrow> is_str s \<and> as_bytes s = bs"
  by (auto simp: from_utf8_def is_str_def)

lemma utf8_step1: "x < 0x80 \<Longrightarrow> utf8_valid (x # xs) = utf8_valid xs"
  by (simp add: utf8_valid.simps(2))

lemma utf8_step2:
  "\<not> x < 0x80 \<Longrightarrow> utf8_lead2 x y \<Longrightarrow> utf8_valid (x # y # ys) = utf8_valid ys"
  by (subst utf8_valid.simps(2)) simp

lemma utf8_step3:
  "\<not> x < 0x80 \<Longrightarrow> \<not> utf8_lead2 x y \<Longrightarrow> utf8_lead3 x y \<and> utf8_cont z \<Longrightarrow>
   utf8_valid (x # y # z # zs) = utf8_valid zs"
  by (subst utf8_valid.simps(2)) simp

lemma utf8_step4:
  "\<not> x < 0x80 \<Longrightarrow> \<not> utf8_lead2 x y \<Longrightarrow> \<not> (utf8_lead3 x y \<and> utf8_cont z) \<Longrightarrow>
   utf8_valid (x # y # z # w # ws) =
     (utf8_lead4 x y \<and> utf8_cont z \<and> utf8_cont w \<and> utf8_valid ws)"
  by (subst utf8_valid.simps(2)) auto

lemma utf8_valid_append: "utf8_valid a \<Longrightarrow> utf8_valid (a @ b) = utf8_valid b"
proof (induction a rule: utf8_valid.induct)
  case (2 x xs)
  note IH = 2(1-4) and valid = 2(5)
  show ?case
  proof (cases "x < 0x80")
    case True
    with IH(1) valid show ?thesis
      by (simp add: utf8_step1)
  next
    case wide: False
    with valid obtain y ys where xs: "xs = y # ys"
      by (cases xs) (simp_all add: utf8_valid.simps(2))
    show ?thesis
    proof (cases "utf8_lead2 x y")
      case True
      with IH(2) wide valid xs show ?thesis
        by (simp add: utf8_step2)
    next
      case long: False
      with valid wide xs obtain z zs where ys: "ys = z # zs"
        by (cases ys) (simp_all add: utf8_valid.simps(2) [of x])
      show ?thesis
      proof (cases "utf8_lead3 x y \<and> utf8_cont z")
        case True
        with IH(3) wide long valid xs ys show ?thesis
          by (simp add: utf8_step3)
      next
        case longer: False
        with valid wide xs long ys obtain w ws where zs: "zs = w # ws"
          by (cases zs) (simp_all add: utf8_valid.simps(2) [of x])
        from IH(4) wide long longer valid xs ys zs show ?thesis
          by (simp add: utf8_step4)
      qed
    qed
  qed
qed simp

lemma is_str_append: "is_str a \<Longrightarrow> is_str b \<Longrightarrow> is_str (a @ b)"
  by (simp add: is_str_def utf8_valid_append)

lemma utf8_valid_ascii: "list_all (\<lambda>b. b < 0x80) bs \<Longrightarrow> utf8_valid bs"
  by (induction bs) (auto simp: utf8_valid.simps(2))

lemma byte_of_char_lt: "of_char c < (128 :: nat) \<Longrightarrow> byte_of_char c < 0x80"
  by (simp add: byte_of_char_def word_less_nat_alt unat_of_nat take_bit_eq_mod)

lemma is_ascii_is_str [intro]: "is_ascii s \<Longrightarrow> is_str s"
  unfolding is_str_def
  by (rule utf8_valid_ascii) (auto simp: is_ascii_def as_bytes_def list_all_iff byte_of_char_lt)

lemma is_ascii_append [simp]: "is_ascii (a @ b) \<longleftrightarrow> is_ascii a \<and> is_ascii b"
  by (simp add: is_ascii_def)

lemma is_ascii_Cons [simp]: "is_ascii (c # b) \<longleftrightarrow> of_char c < (128 :: nat) \<and> is_ascii b"
  by (simp add: is_ascii_def)

lemma is_ascii_Nil [simp]: "is_ascii []"
  by (simp add: is_ascii_def)

subsection \<open>Decimal printing and parsing\<close>

lemma of_char_digit [simp]: "d < 10 \<Longrightarrow> (of_char (digit_char d) :: nat) = 48 + d"
  by (simp add: digit_char_def)

lemma is_digit_digit_char [simp]: "d < 10 \<Longrightarrow> is_digit (digit_char d)"
  by (simp add: is_digit_def)

lemma digit_val_digit_char [simp]: "d < 10 \<Longrightarrow> digit_val (digit_char d) = d"
  by (simp add: digit_val_def)

lemma dec_digits: "list_all is_digit (dec n)"
  by (induction n rule: dec.induct) (subst dec.simps, simp)

lemma dec_not_Nil [simp]: "dec n \<noteq> []"
  by (subst dec.simps) simp

lemma digits_value_dec [simp]: "digits_value (dec n) = n"
proof (induction n rule: dec.induct)
  case (1 n)
  show ?case
  proof (cases "n < 10")
    case True
    then show ?thesis
      by (simp add: dec.simps [of n] digits_value_def)
  next
    case False
    with 1 have "foldl (\<lambda>a c. 10 * a + digit_val c) 0 (dec (n div 10)) = n div 10"
      by (simp add: digits_value_def)
    with False show ?thesis
      by (simp add: dec.simps [of n] digits_value_def)
  qed
qed

lemma parse_digits_dec [simp]: "n \<le> bound \<Longrightarrow> parse_digits bound (dec n) = Some n"
  by (simp add: parse_digits_def dec_digits)

lemma is_digit_not: "\<not> is_digit CHR ''+''" "\<not> is_digit CHR ''-''" "\<not> is_digit CHR '' ''"
  "\<not> is_digit CHR ''.''" "\<not> is_digit CHR '';''"
  by (simp_all add: is_digit_def)

lemma dec_hd: "\<exists>c r. dec n = c # r \<and> is_digit c"
  using dec_digits [of n] dec_not_Nil [of n] by (cases "dec n") auto

lemma parse_uint_dec [simp]: "n \<le> bound \<Longrightarrow> parse_uint bound (dec n) = Some n"
  using dec_hd [of n] parse_digits_dec [of n bound]
  by (auto simp: parse_uint_def is_digit_not simp del: parse_digits_dec)

lemma parse_uint_le: "parse_uint bound s = Some n \<Longrightarrow> n \<le> bound"
  by (auto simp: parse_uint_def parse_digits_def split: list.splits if_splits)

lemma parse_u64_to_string [simp]: "parse_u64 (u64_to_string w) = Some w"
proof -
  have "unat w \<le> 2 ^ 64 - 1"
    using unat_bound [of w] by simp
  then show ?thesis
    by (simp only: parse_u64_def u64_to_string_def parse_uint_dec option.map of_nat_unat ucast_id)
qed

lemma parse_u32_to_string [simp]: "parse_u32 (u32_to_string w) = Some w"
proof -
  have "unat w \<le> 2 ^ 32 - 1"
    using unat_bound [of w] by simp
  then show ?thesis
    by (simp only: parse_u32_def u32_to_string_def parse_uint_dec option.map of_nat_unat ucast_id)
qed

lemma is_digit_ascii: "is_digit c \<Longrightarrow> of_char c < (128 :: nat)"
  by (simp add: is_digit_def)

lemma dec_ascii [simp]: "is_ascii (dec n)"
  using dec_digits [of n] by (auto simp: is_ascii_def list_all_iff is_digit_ascii)

lemma dec_no_sep: "\<not> is_digit c \<Longrightarrow> c \<notin> set (dec n)"
  using dec_digits [of n] by (auto simp: list_all_iff)

lemma u64_to_string_no_space [simp]: "CHR '' '' \<notin> set (u64_to_string w)"
  by (simp add: u64_to_string_def dec_no_sep is_digit_not)

lemma u64_to_string_ascii [simp]: "is_ascii (u64_to_string w)"
  by (simp add: u64_to_string_def)

lemma u32_to_string_ascii [simp]: "is_ascii (u32_to_string w)"
  by (simp add: u32_to_string_def)

subsection \<open>Splitting\<close>

lemma split_on_not_Nil [simp]: "split_on c s \<noteq> []"
  by (induction s) (auto split: list.splits)

lemma split_on_append: "c \<notin> set a \<Longrightarrow> split_on c (a @ c # b) = a # split_on c b"
  by (induction a) auto

lemma split_on_single: "c \<notin> set a \<Longrightarrow> split_on c a = [a]"
  by (induction a) auto

lemma split_on_no_sep: "p \<in> set (split_on c s) \<Longrightarrow> c \<notin> set p"
proof (induction s arbitrary: p)
  case (Cons x xs)
  then show ?case
    by (cases "split_on c xs") (auto split: if_splits)
qed simp

lemma split_where_not_Nil [simp]: "split_where P s \<noteq> []"
  by (induction s) (auto split: list.splits)

lemma split_where_append: "list_all (\<lambda>x. \<not> P x) a \<Longrightarrow> P c \<Longrightarrow> split_where P (a @ c # b) = a # split_where P b"
  by (induction a) auto

lemma split_where_single: "list_all (\<lambda>x. \<not> P x) a \<Longrightarrow> split_where P a = [a]"
  by (induction a) auto

lemma split_where_no_sep: "p \<in> set (split_where P s) \<Longrightarrow> list_all (\<lambda>x. \<not> P x) p"
proof (induction s arbitrary: p)
  case (Cons x xs)
  then show ?case
    by (cases "split_where P xs") (auto split: if_splits)
qed simp

lemma split_once_append [simp]: "c \<notin> set a \<Longrightarrow> split_once c (a @ c # b) = Some (a, b)"
  by (auto simp: split_once_def takeWhile_append dropWhile_append split: if_splits)

lemma split_once_Some:
  assumes "split_once c s = Some (a, b)"
  shows "s = a @ c # b \<and> c \<notin> set a"
proof -
  from assms have "c \<in> set s"
    by (simp add: split_once_def split: if_splits)
  then obtain u v where "s = u @ c # v" "c \<notin> set u"
    using split_list_first by metis
  with assms show ?thesis
    by simp
qed

lemma splitn_step [simp]:
  "c \<notin> set a \<Longrightarrow> splitn (Suc (Suc n)) c (a @ c # b) = a # splitn (Suc n) c b"
  by simp

lemma split_join: "join_with [c] (split_on c s) = s"
proof (induction s)
  case (Cons x xs)
  then show ?case
    by (cases "split_on c xs"; cases "tl (split_on c xs)") auto
qed simp

lemma strip_prefix_append [simp]: "strip_prefix p (p @ s) = Some s"
  by (simp add: strip_prefix_def)

lemma strip_prefix_Some: "strip_prefix p s = Some r \<longleftrightarrow> s = p @ r"
  by (auto simp: strip_prefix_def) (metis append_take_drop_id)

lemma starts_with_iff: "starts_with s p \<longleftrightarrow> (\<exists>r. s = p @ r)"
  by (metis append_eq_conv_conj append_take_drop_id starts_with_def)


lemma split_where_sep: "P c \<Longrightarrow> split_where P (a @ c # b) = split_where P a @ split_where P b"
proof (induction a)
  case (Cons x xs)
  then show ?case
    by (cases "split_where P xs") auto
qed simp

text \<open>Text of printing ASCII characters has nothing to trim.\<close>

definition is_graphic :: "char \<Rightarrow> bool" where
  "is_graphic c \<longleftrightarrow> 33 \<le> (of_char c :: nat) \<and> of_char c < (127 :: nat)"

lemma whitespace_not_graphic: "list_all (list_all (\<lambda>c. \<not> is_graphic c)) whitespace"
  by (simp add: whitespace_def is_graphic_def)

lemma strip_any_head:
  assumes "s = [] \<or> is_graphic (hd s)" "list_all (list_all (\<lambda>c. \<not> is_graphic c)) encs"
  shows "strip_any encs s = s"
proof -
  have "\<not> (e \<noteq> [] \<and> starts_with s e)" if "e \<in> set encs" for e
  proof
    assume e: "e \<noteq> [] \<and> starts_with s e"
    then obtain c r where c: "e = c # r"
      by (cases e) auto
    with e have "s \<noteq> []" "hd s = c"
      by (auto simp: starts_with_iff)
    with that assms c show False
      by (auto simp: list_all_iff)
  qed
  then have "find (\<lambda>e. e \<noteq> [] \<and> starts_with s e) encs = None"
    by (simp add: find_None_iff)
  then show ?thesis
    by (simp add: strip_any.simps)
qed

lemma trim_edges:
  assumes "s = [] \<or> is_graphic (hd s) \<and> is_graphic (last s)"
  shows "trim s = s"
proof -
  have "list_all (list_all (\<lambda>c. \<not> is_graphic c)) (map rev whitespace)"
    using whitespace_not_graphic by (simp add: list_all_iff)
  then have "strip_any (map rev whitespace) (rev s) = rev s"
    using assms by (intro strip_any_head) (auto simp: hd_rev)
  moreover have "strip_any whitespace s = s"
    using assms whitespace_not_graphic by (intro strip_any_head) auto
  ultimately show ?thesis
    by (simp add: trim_def trim_start_def trim_end_def)
qed

lemma trim_graphic: "list_all is_graphic s \<Longrightarrow> trim s = s"
  by (rule trim_edges) (auto simp: list_all_iff)

end
