(* ===== verification/Errors.thy ===== *)
theory Errors
  imports Rust_Text
begin

text \<open>
  \<open>nethernet/src/error.rs\<close>: the error type of the protocol layer and the numeric codes of
  CONNECTERROR signals.  An error keeps its variant and its text; where the source interpolates the
  \<open>Display\<close> text of a foreign error, the text stops at the literal part before it.  The only I/O error a
  reader over a byte slice raises is the end of the input.
\<close>

datatype io_error = UnexpectedEof

datatype protocol_error =
    Io io_error
  | MessageParse string
  | MessageSizeExceeded nat
  | Crypto string
  | Other string

datatype signal_error_code =
    NoError
  | DestinationNotLoggedIn
  | NegotiationTimeout
  | WrongTransportVersion
  | FailedToCreatePeerConnection
  | Ice
  | ConnectRequest
  | ConnectResponse
  | CandidateAdd
  | InactivityTimeout
  | FailedToCreateOffer
  | FailedToCreateAnswer
  | FailedToSetLocalDescription
  | FailedToSetRemoteDescription
  | NegotiationTimeoutWaitingForResponse
  | NegotiationTimeoutWaitingForAccept
  | IncomingConnectionIgnored
  | SignalingParsingFailure
  | SignalingUnknownError
  | SignalingUnicastMessageDeliveryFailed
  | SignalingBroadcastDeliveryFailed
  | SignalingMessageDeliveryFailed
  | SignalingTurnAuthFailed
  | SignalingFallbackToBestEffortDelivery
  | NoSignalingChannel
  | NotLoggedIn
  | SignalingFailedToSend

fun code_to_u32 :: "signal_error_code \<Rightarrow> u32" where
  "code_to_u32 NoError = 0"
| "code_to_u32 DestinationNotLoggedIn = 1"
| "code_to_u32 NegotiationTimeout = 2"
| "code_to_u32 WrongTransportVersion = 3"
| "code_to_u32 FailedToCreatePeerConnection = 4"
| "code_to_u32 Ice = 5"
| "code_to_u32 ConnectRequest = 6"
| "code_to_u32 ConnectResponse = 7"
| "code_to_u32 CandidateAdd = 8"
| "code_to_u32 InactivityTimeout = 9"
| "code_to_u32 FailedToCreateOffer = 10"
| "code_to_u32 FailedToCreateAnswer = 11"
| "code_to_u32 FailedToSetLocalDescription = 12"
| "code_to_u32 FailedToSetRemoteDescription = 13"
| "code_to_u32 NegotiationTimeoutWaitingForResponse = 14"
| "code_to_u32 NegotiationTimeoutWaitingForAccept = 15"
| "code_to_u32 IncomingConnectionIgnored = 16"
| "code_to_u32 SignalingParsingFailure = 17"
| "code_to_u32 SignalingUnknownError = 18"
| "code_to_u32 SignalingUnicastMessageDeliveryFailed = 19"
| "code_to_u32 SignalingBroadcastDeliveryFailed = 20"
| "code_to_u32 SignalingMessageDeliveryFailed = 21"
| "code_to_u32 SignalingTurnAuthFailed = 22"
| "code_to_u32 SignalingFallbackToBestEffortDelivery = 23"
| "code_to_u32 NoSignalingChannel = 24"
| "code_to_u32 NotLoggedIn = 25"
| "code_to_u32 SignalingFailedToSend = 26"

definition code_from_u32 :: "u32 \<Rightarrow> signal_error_code" where
  "code_from_u32 code =
    (if code = 0 then NoError
     else if code = 1 then DestinationNotLoggedIn
     else if code = 2 then NegotiationTimeout
     else if code = 3 then WrongTransportVersion
     else if code = 4 then FailedToCreatePeerConnection
     else if code = 5 then Ice
     else if code = 6 then ConnectRequest
     else if code = 7 then ConnectResponse
     else if code = 8 then CandidateAdd
     else if code = 9 then InactivityTimeout
     else if code = 10 then FailedToCreateOffer
     else if code = 11 then FailedToCreateAnswer
     else if code = 12 then FailedToSetLocalDescription
     else if code = 13 then FailedToSetRemoteDescription
     else if code = 14 then NegotiationTimeoutWaitingForResponse
     else if code = 15 then NegotiationTimeoutWaitingForAccept
     else if code = 16 then IncomingConnectionIgnored
     else if code = 17 then SignalingParsingFailure
     else if code = 18 then SignalingUnknownError
     else if code = 19 then SignalingUnicastMessageDeliveryFailed
     else if code = 20 then SignalingBroadcastDeliveryFailed
     else if code = 21 then SignalingMessageDeliveryFailed
     else if code = 22 then SignalingTurnAuthFailed
     else if code = 23 then SignalingFallbackToBestEffortDelivery
     else if code = 24 then NoSignalingChannel
     else if code = 25 then NotLoggedIn
     else if code = 26 then SignalingFailedToSend
     else SignalingUnknownError)"

lemma code_from_to [simp]: "code_from_u32 (code_to_u32 c) = c"
  by (cases c) (simp_all add: code_from_u32_def)

lemma code_to_u32_le: "code_to_u32 c \<le> 26"
  by (cases c) simp_all

lemma code_from_u32_unknown: "\<not> n < 27 \<Longrightarrow> code_from_u32 n = SignalingUnknownError"
  by (auto simp: code_from_u32_def)

lemma code_to_from_cases:
  "code_to_u32 (code_from_u32 n) = n \<or> code_from_u32 n = SignalingUnknownError"
  by (auto simp: code_from_u32_def)

end
