(* ===== verification/Codec.thy ===== *)
theory Codec
  imports Errors
begin

text \<open>
  \<open>nethernet/src/protocol/codec.rs\<close> and the size constants of \<open>protocol/constants.rs\<close>: little-endian
  integers, LEB128 and zigzag varints, and the three length-prefixed byte fields.  A writer that
  cannot fail is the bytes it appends, one that can fail is a result of them; a reader returns the value and the
  unread input.  The locale \<open>wire_codec\<close> is the contract of the trait \<open>NetherCodec\<close> (what a writer
  appends, the reader takes back, leaving what follows it untouched); every format of this theory
  and of the packets interprets it.
\<close>

lemma unat_drop7: "unat (drop_bit 7 (v :: 'a::len word)) = unat v div 128"
  by (simp only: unat_drop_bit_eq) (simp add: drop_bit_eq_div)

definition MAX_BYTES :: nat where "MAX_BYTES = 65535"

type_synonym 'a codec_reader = "(protocol_error, 'a) reader"

subsection \<open>Integers\<close>

text \<open>\<open>to_le_bytes\<close> and \<open>from_le_bytes\<close>, which byteorder's \<open>LittleEndian\<close> readers and writers use.\<close>

fun le_bytes :: "nat \<Rightarrow> 'a::len word \<Rightarrow> bytes" where
  "le_bytes 0 w = []"
| "le_bytes (Suc n) w = ucast w # le_bytes n (drop_bit 8 w)"

fun from_le :: "bytes \<Rightarrow> 'a::len word" where
  "from_le [] = 0"
| "from_le (b # bs) = ucast b OR push_bit 8 (from_le bs)"

definition read_exact :: "nat \<Rightarrow> bytes codec_reader" where
  "read_exact n inp = (if length inp < n then Inl (Io UnexpectedEof) else Inr (take n inp, drop n inp))"

fun read_u8 :: "u8 codec_reader" where
  "read_u8 [] = Inl (Io UnexpectedEof)"
| "read_u8 (b # inp) = Inr (b, inp)"

definition read_u16 :: "u16 codec_reader" where
  "read_u16 = rd_bind (read_exact 2) (\<lambda>bs. rd_ok (from_le bs))"

definition read_u32 :: "u32 codec_reader" where
  "read_u32 = rd_bind (read_exact 4) (\<lambda>bs. rd_ok (from_le bs))"

definition read_u64 :: "u64 codec_reader" where
  "read_u64 = rd_bind (read_exact 8) (\<lambda>bs. rd_ok (from_le bs))"

definition write_u16 :: "u16 \<Rightarrow> bytes" where "write_u16 w = le_bytes 2 w"
definition write_u32 :: "u32 \<Rightarrow> bytes" where "write_u32 w = le_bytes 4 w"
definition write_u64 :: "u64 \<Rightarrow> bytes" where "write_u64 w = le_bytes 8 w"

subsection \<open>Length-prefixed fields\<close>

definition read_len_bytes :: "nat \<Rightarrow> bytes codec_reader" where
  "read_len_bytes len inp =
     (if len > MAX_BYTES then Inl (MessageSizeExceeded len)
      else let buf = take len inp in
        if length buf < len then Inl (Io UnexpectedEof) else Inr (buf, drop len inp))"

definition read_bytes_u8 :: "bytes codec_reader" where
  "read_bytes_u8 = rd_bind read_u8 (\<lambda>len. read_len_bytes (unat len))"

definition write_bytes_u8 :: "bytes \<Rightarrow> (protocol_error, bytes) result" where
  "write_bytes_u8 data =
     (if length data > 255
      then Inl (Other (''data length '' @ dec (length data) @
        '' exceeds the 255-byte maximum for a u8-prefixed field''))
      else Inr (of_nat (length data) # data))"

definition read_bytes_u32 :: "bytes codec_reader" where
  "read_bytes_u32 = rd_bind read_u32 (\<lambda>len. read_len_bytes (unat len))"

definition write_bytes_u32 :: "bytes \<Rightarrow> (protocol_error, bytes) result" where
  "write_bytes_u32 data =
     (if length data > MAX_BYTES
      then Inl (Other (''data length '' @ dec (length data) @ '' exceeds maximum allowed '' @ dec MAX_BYTES))
      else Inr (write_u32 (of_nat (length data)) @ data))"

subsection \<open>Varints\<close>

fun read_varuint32_loop :: "nat list \<Rightarrow> u32 \<Rightarrow> u32 codec_reader" where
  "read_varuint32_loop [] acc inp = Inl (Other ''varuint32 did not terminate after 5 bytes'')"
| "read_varuint32_loop (shift # shifts) acc inp =
     rd_bind read_u8 (\<lambda>byte.
       let acc' = acc OR push_bit shift (ucast (byte AND 0x7f)) in
       if byte AND 0x80 = 0 then rd_ok acc' else read_varuint32_loop shifts acc') inp"

definition read_varuint32 :: "u32 codec_reader" where
  "read_varuint32 = read_varuint32_loop [0, 7, 14, 21, 28] 0"

function write_varuint32 :: "u32 \<Rightarrow> bytes" where
  "write_varuint32 v =
     (if v \<ge> 0x80 then (ucast v OR 0x80) # write_varuint32 (drop_bit 7 v) else [ucast v])"
  by pat_completeness auto
termination
  by (relation "measure unat") (auto simp: unat_drop7 word_le_nat_alt)

declare write_varuint32.simps [simp del]

definition read_varint32 :: "i32 codec_reader" where
  "read_varint32 = rd_bind read_varuint32 (\<lambda>raw. rd_ok (drop_bit 1 raw XOR - (raw AND 1)))"

definition write_varint32 :: "i32 \<Rightarrow> bytes" where
  "write_varint32 v = write_varuint32 (push_bit 1 v XOR signed_drop_bit 31 v)"

definition read_bytes_varuint :: "bytes codec_reader" where
  "read_bytes_varuint = rd_bind read_varuint32 (\<lambda>len. read_len_bytes (unat len))"

definition write_bytes_varuint :: "bytes \<Rightarrow> bytes" where
  "write_bytes_varuint data = write_varuint32 (of_nat (length data)) @ data"


section \<open>The codec contract\<close>

locale wire_codec =
  fixes valid :: "'a \<Rightarrow> bool"
    and ser :: "'a \<Rightarrow> bytes"
    and de :: "('e, 'a) reader"
  assumes read_back: "valid x \<Longrightarrow> de (ser x @ rest) = Inr (x, rest)"
begin

lemma read_alone: "valid x \<Longrightarrow> de (ser x) = Inr (x, [])"
  using read_back [of x "[]"] by simp

lemma read_then: "valid x \<Longrightarrow> rd_bind de f (ser x @ rest) = f x rest"
  by (simp add: read_back)

text \<open>No encoding is a proper prefix of another, so concatenated fields are read back one by one.\<close>

lemma prefix_free: "valid x \<Longrightarrow> valid y \<Longrightarrow> ser x @ r = ser y @ s \<Longrightarrow> x = y \<and> r = s"
  by (metis Inr_inject prod.inject read_back)

end

text \<open>Two fields in a row.\<close>

locale wire_codec_pair =
  fst_codec: wire_codec valid1 ser1 de1 + snd_codec: wire_codec valid2 ser2 de2
  for valid1 :: "'a \<Rightarrow> bool" and ser1 :: "'a \<Rightarrow> bytes" and de1 :: "('e, 'a) reader"
    and valid2 :: "'b \<Rightarrow> bool" and ser2 :: "'b \<Rightarrow> bytes" and de2 :: "('e, 'b) reader"
begin

lemma read_both:
  "valid1 x \<Longrightarrow> valid2 y \<Longrightarrow>
   rd_bind de1 (\<lambda>a. rd_bind de2 (\<lambda>b. rd_ok (a, b))) (ser1 x @ ser2 y @ rest) = Inr ((x, y), rest)"
  by (simp add: fst_codec.read_then snd_codec.read_then)

end


section \<open>Lemmas\<close>

subsection \<open>Little-endian integers\<close>

lemma length_le_bytes [simp]: "length (le_bytes n w) = n"
  by (induction n arbitrary: w) auto

lemma le_bytes_numeral:
  "le_bytes (numeral k) w = ucast w # le_bytes (pred_numeral k) (drop_bit 8 w)"
  by (simp add: numeral_eq_Suc)

lemma from_le_le_bytes: "from_le (le_bytes n w) = take_bit (8 * n) w"
proof (induction n arbitrary: w)
  case (Suc n)
  show ?case
  proof (rule bit_word_eqI)
    fix k
    assume "k < LENGTH('a)"
    then show "bit (from_le (le_bytes (Suc n) w) :: 'a word) k = bit (take_bit (8 * Suc n) w) k"
      by (auto simp: Suc.IH bit_or_iff bit_ucast_iff bit_push_bit_iff bit_take_bit_iff bit_drop_bit_eq)
  qed
qed simp

lemma from_le_bits: "take_bit (8 * length bs) (from_le bs :: 'a::len word) = from_le bs"
proof (induction bs)
  case (Cons b bs)
  show ?case
  proof (rule bit_word_eqI)
    fix i
    have "bit (from_le bs :: 'a word) (i - 8) \<Longrightarrow> i - 8 < 8 * length bs"
      using Cons by (metis bit_take_bit_iff)
    then have "bit (from_le bs :: 'a word) (i - 8) \<Longrightarrow> i < 8 + 8 * length bs"
      by simp
    moreover have "bit b i \<Longrightarrow> i < 8"
      using bit_imp_le_length [of b i] by simp
    ultimately show "bit (take_bit (8 * length (b # bs)) (from_le (b # bs)) :: 'a word) i = bit (from_le (b # bs) :: 'a word) i"
      by (auto simp: bit_take_bit_iff bit_or_iff bit_ucast_iff bit_push_bit_iff)
  qed
qed simp

lemma le_bytes_from_le:
  "length bs = n \<Longrightarrow> LENGTH('a::len) = 8 * n \<Longrightarrow> le_bytes n (from_le bs :: 'a word) = bs"
proof -
  have "LENGTH('a) \<ge> 8 * length bs \<Longrightarrow> le_bytes (length bs) (from_le bs :: 'a word) = bs"
  proof (induction bs)
    case (Cons b bs)
    have fits: "from_le bs = (take_bit (8 * length bs) (from_le bs) :: 'a word)"
      by (rule from_le_bits [symmetric])
    have low: "ucast (ucast b OR push_bit 8 (from_le bs) :: 'a word) = b"
      by (rule bit_word_eqI) (use Cons.prems in \<open>auto simp: bit_ucast_iff bit_or_iff bit_push_bit_iff\<close>)
    have high: "drop_bit 8 (ucast b OR push_bit 8 (from_le bs) :: 'a word) = from_le bs"
    proof (rule bit_word_eqI)
      fix i
      assume i: "i < LENGTH('a)"
      have "bit (from_le bs :: 'a word) i \<Longrightarrow> 8 + i < LENGTH('a)"
        using Cons.prems by (subst (asm) fits) (auto simp: bit_take_bit_iff)
      moreover have "\<not> bit b (8 + i)"
        using bit_imp_le_length [of b "8 + i"] by auto
      ultimately show "bit (drop_bit 8 (ucast b OR push_bit 8 (from_le bs) :: 'a word)) i = bit (from_le bs :: 'a word) i"
        by (auto simp: bit_drop_bit_eq bit_or_iff bit_ucast_iff bit_push_bit_iff)
    qed
    show ?case
      using Cons low high by simp
  qed simp
  then show "length bs = n \<Longrightarrow> LENGTH('a) = 8 * n \<Longrightarrow> ?thesis"
    by simp
qed

lemma read_exact_append: "length bs = n \<Longrightarrow> read_exact n (bs @ rest) = Inr (bs, rest)"
  by (simp add: read_exact_def)

lemma le_codec:
  "LENGTH('a::len) \<le> 8 * n \<Longrightarrow>
   rd_bind (read_exact n) (\<lambda>bs. rd_ok (from_le bs :: 'a word)) (le_bytes n w @ rest) = Inr (w, rest)"
  by (simp add: read_exact_append from_le_le_bytes take_bit_word_eq_self)

interpretation u8_codec: wire_codec "\<lambda>_. True" "\<lambda>b. [b]" read_u8
  by unfold_locales simp

interpretation u16_codec: wire_codec "\<lambda>_. True" write_u16 read_u16
  by unfold_locales (simp add: write_u16_def read_u16_def le_codec)

interpretation u32_codec: wire_codec "\<lambda>_. True" write_u32 read_u32
  by unfold_locales (simp add: write_u32_def read_u32_def le_codec)

interpretation u64_codec: wire_codec "\<lambda>_. True" write_u64 read_u64
  by unfold_locales (simp add: write_u64_def read_u64_def le_codec)

lemma length_write_int [simp]:
  "length (write_u16 a) = 2" "length (write_u32 b) = 4" "length (write_u64 c) = 8"
  by (simp_all add: write_u16_def write_u32_def write_u64_def)

subsection \<open>Varints\<close>

lemma mask7: "(0x7f :: u8) = mask 7"
  by (simp add: mask_eq_exp_minus_1)

lemma bit_0x80: "bit (0x80 :: u8) i \<longleftrightarrow> i = 7"
proof -
  have "(0x80 :: u8) = push_bit 7 1"
    by (simp add: push_bit_eq_mult)
  then show ?thesis
    by (simp only: bit_push_bit_iff bit_1_iff) auto
qed

lemma group_continues: "((ucast v OR 0x80) AND 0x80 :: u8) \<noteq> 0"
proof
  assume "((ucast v OR 0x80) AND 0x80 :: u8) = 0"
  then have "\<not> bit ((ucast v OR 0x80) AND 0x80 :: u8) 7"
    by simp
  then show False
    by (simp add: bit_and_iff bit_or_iff bit_0x80)
qed

lemma take_bit_group: "v < 0x80 \<Longrightarrow> take_bit 7 v = (v :: u32)"
proof (rule unsigned_word_eqI [where ?'a = nat])
  assume "v < 0x80"
  then show "unat (take_bit 7 v) = unat v"
    by (simp add: unsigned_take_bit_eq take_bit_nat_eq_self_iff word_less_nat_alt)
qed

lemma group_bit:
  "bit (ucast ((ucast (v :: u32) OR 0x80) AND 0x7f :: u8) :: u32) i \<longleftrightarrow> i < 7 \<and> bit v i"
  by (simp only: bit_ucast_iff bit_and_iff bit_or_iff bit_0x80 mask7 bit_mask_iff) auto

lemma group_ends: "v < 0x80 \<Longrightarrow> (ucast (v :: u32) AND 0x80 :: u8) = 0"
proof (rule bit_word_eqI)
  fix i
  assume "v < 0x80"
  then have "take_bit 7 v = v"
    by (rule take_bit_group)
  then have "\<not> bit v 7"
    by (metis bit_take_bit_iff order_less_irrefl)
  then show "bit (ucast v AND 0x80 :: u8) i = bit (0 :: u8) i"
    by (simp only: bit_and_iff bit_ucast_iff bit_0x80) auto
qed

lemma group_low: "v < 0x80 \<Longrightarrow> ucast (ucast (v :: u32) AND 0x7f :: u8) = v"
proof (rule bit_word_eqI)
  fix i
  assume "v < 0x80"
  then have "take_bit 7 v = v"
    by (rule take_bit_group)
  then have "bit v i \<longrightarrow> i < 7"
    by (metis bit_take_bit_iff)
  then show "bit (ucast (ucast v AND 0x7f :: u8) :: u32) i = bit v i"
    by (simp only: mask7 bit_and_iff bit_ucast_iff bit_mask_iff) auto
qed

lemma group_join:
  "push_bit s (ucast ((ucast v OR 0x80) AND 0x7f :: u8)) OR push_bit (s + 7) (drop_bit 7 v) =
   push_bit s (v :: u32)"
proof (rule bit_word_eqI)
  fix i
  assume i: "i < LENGTH(32)"
  have "\<not> i - s < 7 \<Longrightarrow> 7 + (i - (s + 7)) = i - s" "\<not> i - s < 7 \<Longrightarrow> s + 7 \<le> i"
    by auto
  with i show "bit (push_bit s (ucast ((ucast v OR 0x80) AND 0x7f :: u8)) OR
      push_bit (s + 7) (drop_bit 7 v)) i = bit (push_bit s v) i"
    by (cases "i - s < 7") (simp_all only: bit_or_iff bit_push_bit_iff group_bit bit_drop_bit_eq comp_apply, auto)
qed

lemma shifts_step:
  "j < 4 \<Longrightarrow> drop j [0, 7, 14, 21, 28 :: nat] = 7 * j # drop (Suc j) [0, 7, 14, 21, 28]"
  by (auto simp: numeral_eq_Suc less_Suc_eq)

lemma shifts_last: "drop 4 [0, 7, 14, 21, 28 :: nat] = [28]"
  by simp

lemma varuint_loop:
  "j \<le> 4 \<Longrightarrow> unat v < 2 ^ (32 - 7 * j) \<Longrightarrow>
   read_varuint32_loop (drop j [0, 7, 14, 21, 28]) acc (write_varuint32 v @ rest) =
     Inr (acc OR push_bit (7 * j) v, rest)"
proof (induction v arbitrary: j acc rule: write_varuint32.induct)
  case (1 v)
  show ?case
  proof (cases "v \<ge> 0x80")
    case True
    have "j \<noteq> 4"
      using 1(3) True by (auto simp: word_le_nat_alt)
    with 1(2) have j: "j < 4"
      by simp
    have "32 - 7 * j = (25 - 7 * j) + 7"
      using j by auto
    then have "(2 :: nat) ^ (32 - 7 * j) = 2 ^ (25 - 7 * j) * 128"
      by (simp only: power_add) simp
    with 1(3) have "unat (drop_bit 7 v) < 2 ^ (32 - 7 * Suc j)"
      by (simp add: unat_drop7 less_mult_imp_div_less)
    with 1(1) [OF True, of "Suc j"] j True show ?thesis
      by (simp add: write_varuint32.simps [of v] shifts_step group_continues or.assoc
          group_join [of "7 * j", unfolded add.commute [of "7 * j" 7]] Let_def)
  next
    case False
    have "\<exists>tl. drop j [0, 7, 14, 21, 28 :: nat] = 7 * j # tl"
      using 1(2) by (cases "j = 4") (auto simp: shifts_step)
    with False show ?thesis
      by (auto simp: write_varuint32.simps [of v] group_ends group_low not_le Let_def)
  qed
qed

interpretation varuint_codec: wire_codec "\<lambda>_. True" write_varuint32 read_varuint32
proof unfold_locales
  fix v rest
  show "read_varuint32 (write_varuint32 v @ rest) = Inr (v, rest)"
    using varuint_loop [of 0 v 0 rest] unat_bound [of v]
    by (simp add: read_varuint32_def del: read_varuint32_loop.simps)
qed

lemma zigzag_inverse:
  fixes v :: i32
  defines "raw \<equiv> push_bit 1 v XOR signed_drop_bit 31 v"
  shows "drop_bit 1 raw XOR - (raw AND 1) = v"
proof -
  have sign: "signed_drop_bit 31 v = (if bit v 31 then - 1 else 0)"
    by (rule bit_word_eqI) (auto simp: bit_signed_drop_bit_iff not_less_eq_eq)
  show ?thesis
  proof (rule bit_word_eqI)
    fix i
    assume i: "i < LENGTH(32)"
    have "raw AND 1 = (if bit v 31 then 1 else 0)"
      by (rule bit_word_eqI; simp only: raw_def sign bit_and_iff bit_xor_iff bit_push_bit_iff bit_1_iff;
          cases "bit v 31"; auto simp: bit_1_iff)
    moreover from i have "bit v (Suc i) \<Longrightarrow> Suc i < 32"
      using bit_imp_le_length [of v "Suc i"] by simp
    ultimately show "bit (drop_bit 1 raw XOR - (raw AND 1)) i = bit v i"
      using i by (cases "bit v 31"; cases "i = 31";
        simp only: raw_def sign bit_xor_iff bit_drop_bit_eq bit_push_bit_iff comp_apply if_True if_False; auto)
  qed
qed

interpretation varint_codec: wire_codec "\<lambda>_. True" write_varint32 read_varint32
  by unfold_locales
    (simp only: write_varint32_def read_varint32_def varuint_codec.read_then zigzag_inverse rd_ok_app)

lemma write_varuint32_length: "length (write_varuint32 v) \<le> 5"
proof -
  have step: "unat v < 2 ^ (7 * Suc n) \<Longrightarrow> length (write_varuint32 v) \<le> Suc n" for v n
  proof (induction n arbitrary: v)
    case 0
    then show ?case
      by (subst write_varuint32.simps) (simp add: word_le_nat_alt)
  next
    case (Suc n)
    have "unat (drop_bit 7 v) < 2 ^ (7 * Suc n)"
      using Suc.prems by (simp add: unat_drop7 power_add less_mult_imp_div_less)
    with Suc.IH show ?case
      by (subst write_varuint32.simps) simp
  qed
  have "unat v < 2 ^ (7 * Suc 4)"
    using unat_bound [of v] by simp
  from step [OF this] show ?thesis
    by simp
qed

subsection \<open>Length-prefixed fields\<close>

lemma read_len_bytes_append:
  "length data \<le> MAX_BYTES \<Longrightarrow> read_len_bytes (length data) (data @ rest) = Inr (data, rest)"
  by (simp add: read_len_bytes_def)

lemma unat_of_len: "n \<le> MAX_BYTES \<Longrightarrow> unat (of_nat n :: u32) = n"
  by (simp add: MAX_BYTES_def unat_of_nat take_bit_nat_eq_self_iff)

interpretation bytes_varuint_codec:
  wire_codec "\<lambda>data. length data \<le> MAX_BYTES" write_bytes_varuint read_bytes_varuint
  by unfold_locales
    (simp add: write_bytes_varuint_def read_bytes_varuint_def varuint_codec.read_then unat_of_len
      read_len_bytes_append)

lemma read_bytes_u32_written:
  "write_bytes_u32 data = Inr out \<Longrightarrow> read_bytes_u32 (out @ rest) = Inr (data, rest)"
  by (auto simp: write_bytes_u32_def read_bytes_u32_def u32_codec.read_then unat_of_len
      read_len_bytes_append split: if_splits)

lemma read_bytes_u8_written:
  "write_bytes_u8 data = Inr out \<Longrightarrow> read_bytes_u8 (out @ rest) = Inr (data, rest)"
  by (auto simp: write_bytes_u8_def read_bytes_u8_def unat_of_nat take_bit_nat_eq_self_iff read_len_bytes_append
      MAX_BYTES_def split: if_splits)

lemma read_u8_suffix: "read_u8 inp = Inr (a, rest) \<Longrightarrow> \<exists>prefix. inp = prefix @ rest"
  by (cases inp) auto

lemma read_u32_suffix: "read_u32 inp = Inr (a, rest) \<Longrightarrow> \<exists>prefix. inp = prefix @ rest"
  by (auto simp: read_u32_def rd_bind_eq_Inr read_exact_def split: if_splits)
    (metis append_take_drop_id)

lemma read_varuint32_loop_suffix:
  "read_varuint32_loop shifts acc inp = Inr (a, rest) \<Longrightarrow> \<exists>prefix. inp = prefix @ rest"
proof (induction shifts arbitrary: acc inp)
  case (Cons shift shifts)
  then obtain b inp' where "inp = b # inp'"
    by (cases inp) (auto simp: rd_bind_eq_Inr)
  with Cons show ?case
    by (fastforce simp: rd_bind_eq_Inr Let_def split: if_splits)
qed simp

lemma read_varuint32_suffix: "read_varuint32 inp = Inr (a, rest) \<Longrightarrow> \<exists>prefix. inp = prefix @ rest"
  unfolding read_varuint32_def by (rule read_varuint32_loop_suffix)

text \<open>Whatever the input, a field that is read is within the size limit.\<close>

lemma read_len_bytes_bound:
  "read_len_bytes n inp = Inr (data, rest) \<Longrightarrow> length data = n \<and> n \<le> MAX_BYTES \<and> inp = data @ rest"
  by (auto simp: read_len_bytes_def Let_def split: if_splits)

lemma read_len_bytes_stream: "rd_stream (read_len_bytes n)"
  by (auto simp: rd_stream_def read_len_bytes_def Let_def split: if_splits)

lemma read_exact_stream: "rd_stream (read_exact n)"
  by (auto simp: rd_stream_def read_exact_def split: if_splits)

lemma read_u8_stream: "rd_stream read_u8"
  unfolding rd_stream_def
proof (intro allI impI)
  fix inp a rest more
  assume "read_u8 inp = Inr (a, rest)"
  then show "read_u8 (inp @ more) = Inr (a, rest @ more)"
    by (cases inp) auto
qed

lemma read_varuint32_loop_stream: "rd_stream (read_varuint32_loop shifts acc)"
proof (induction shifts arbitrary: acc)
  case (Cons shift shifts)
  have "rd_stream (rd_bind read_u8 (\<lambda>byte.
       let acc' = acc OR push_bit shift (ucast (byte AND 0x7f)) in
       if byte AND 0x80 = 0 then rd_ok acc' else read_varuint32_loop shifts acc'))"
    by (rule rd_stream_bind [OF read_u8_stream]) (simp add: Let_def Cons rd_stream_basic)
  then show ?case
    by (simp add: rd_stream_def)
qed (simp add: rd_stream_def)

lemma read_varuint32_stream: "rd_stream read_varuint32"
  unfolding read_varuint32_def by (rule read_varuint32_loop_stream)

lemma codec_streams:
  "rd_stream read_u8" "rd_stream read_u16" "rd_stream read_u32" "rd_stream read_u64"
  "rd_stream read_varuint32" "rd_stream read_varint32"
  "rd_stream read_bytes_u8" "rd_stream read_bytes_u32" "rd_stream read_bytes_varuint"
  unfolding read_u16_def read_u32_def read_u64_def read_varint32_def read_bytes_u8_def read_bytes_u32_def
    read_bytes_varuint_def
  by (intro rd_stream_intros read_u8_stream read_exact_stream read_varuint32_stream read_len_bytes_stream)+

lemma prefixed_bound:
  assumes "\<And>inp a rest. rd inp = Inr (a, rest) \<Longrightarrow> \<exists>prefix. inp = prefix @ rest"
    and "rd_bind rd (\<lambda>len. read_len_bytes (unat len)) inp = Inr (field, unread)"
  shows "length field \<le> 65535 \<and> (\<exists>prefix. inp = prefix @ field @ unread)"
proof -
  from assms(2) obtain len rest where len: "rd inp = Inr (len, rest)"
    and "read_len_bytes (unat len) rest = Inr (field, unread)"
    by (auto simp: rd_bind_eq_Inr)
  with read_len_bytes_bound assms(1) [OF len] show ?thesis
    by (fastforce simp: MAX_BYTES_def)
qed

lemma read_bytes_u8_bound:
  "read_bytes_u8 inp = Inr (field, unread) \<Longrightarrow>
   length field \<le> 65535 \<and> (\<exists>prefix. inp = prefix @ field @ unread)"
  unfolding read_bytes_u8_def by (erule prefixed_bound [rotated]) (rule read_u8_suffix)

lemma read_bytes_u32_bound:
  "read_bytes_u32 inp = Inr (field, unread) \<Longrightarrow>
   length field \<le> 65535 \<and> (\<exists>prefix. inp = prefix @ field @ unread)"
  unfolding read_bytes_u32_def by (erule prefixed_bound [rotated]) (rule read_u32_suffix)

lemma read_bytes_varuint_bound:
  "read_bytes_varuint inp = Inr (field, unread) \<Longrightarrow>
   length field \<le> 65535 \<and> (\<exists>prefix. inp = prefix @ field @ unread)"
  unfolding read_bytes_varuint_def by (erule prefixed_bound [rotated]) (rule read_varuint32_suffix)

lemmas prefixed_bounds = read_bytes_u8_bound read_bytes_u32_bound read_bytes_varuint_bound


section \<open>Properties\<close>

text \<open>Varints round trip at full width: every 32-bit value is written in at most five bytes and
  read back exactly, unsigned as LEB128 and signed as its zigzag image, leaving the bytes after it
  unread.\<close>

lemma varint_round_trip:
  "read_varuint32 (write_varuint32 v @ rest) = Inr (v, rest) \<and> length (write_varuint32 v) \<le> 5 \<and>
   read_varint32 (write_varint32 i @ rest) = Inr (i, rest) \<and> length (write_varint32 i) \<le> 5"
  using varuint_codec.read_back varint_codec.read_back write_varuint32_length
  by (auto simp only: write_varint32_def)

text \<open>A length-prefixed field that is written is read back exactly (for the varint prefix, whose
  writer has no limit, when it fits the reader's), and whatever the input, no reader returns more than
  65535 bytes or bytes that were not in the input.\<close>

lemma length_prefixed_fields:
  "(write_bytes_u8 data = Inr out8 \<longrightarrow> read_bytes_u8 (out8 @ rest) = Inr (data, rest)) \<and>
   (write_bytes_u32 data = Inr out32 \<longrightarrow> read_bytes_u32 (out32 @ rest) = Inr (data, rest)) \<and>
   (length data \<le> MAX_BYTES \<longrightarrow> read_bytes_varuint (write_bytes_varuint data @ rest) = Inr (data, rest)) \<and>
   (\<forall>reader \<in> {read_bytes_u8, read_bytes_u32, read_bytes_varuint}. \<forall>inp field unread.
      reader inp = Inr (field, unread) \<longrightarrow> length field \<le> 65535 \<and> (\<exists>prefix. inp = prefix @ field @ unread))"
proof (intro conjI)
  have "length field \<le> 65535 \<and> (\<exists>prefix. inp = prefix @ field @ unread)"
    if "reader \<in> {read_bytes_u8, read_bytes_u32, read_bytes_varuint}" "reader inp = Inr (field, unread)"
    for reader :: "bytes codec_reader" and inp field unread
    using that prefixed_bounds by blast
  then show "\<forall>reader \<in> {read_bytes_u8, read_bytes_u32, read_bytes_varuint}. \<forall>inp field unread.
      reader inp = Inr (field, unread) \<longrightarrow> length field \<le> 65535 \<and> (\<exists>prefix. inp = prefix @ field @ unread)"
    by blast
qed (use read_bytes_u8_written read_bytes_u32_written bytes_varuint_codec.read_back in auto)

lemma length_prefixed_fields_witness:
  "read_bytes_u8 ([2, 5, 6] @ [9]) = Inr ([5, 6], [9]) \<and>
   read_bytes_u32 ([2, 0, 0, 0, 5, 6] @ [9]) = Inr ([5, 6], [9]) \<and>
   read_bytes_varuint (write_bytes_varuint [5, 6] @ [9]) = Inr ([5, 6], [9])"
proof -
  have "write_bytes_u8 [5, 6] = Inr [2, 5, 6]"
    by (simp add: write_bytes_u8_def)
  moreover have "write_bytes_u32 [5, 6] = Inr [2, 0, 0, 0, 5, 6]"
    by (simp add: write_bytes_u32_def write_u32_def MAX_BYTES_def le_bytes_numeral)
  moreover have "length [5, 6 :: u8] \<le> MAX_BYTES"
    by (simp add: MAX_BYTES_def)
  ultimately show ?thesis
    using length_prefixed_fields [of "[5, 6]" "[2, 5, 6]" "[9]" "[2, 0, 0, 0, 5, 6]"] by blast
qed

end
