(* ===== verification/Message_Framing.thy ===== *)
theory Message_Framing
  imports Errors
begin

text \<open>
  \<open>nethernet/src/protocol/message.rs\<close>: a reliable message is cut into at most 255 segments, each one
  byte of remaining count before its payload, and put together again by a buffer that holds one
  message at a time.  The receive steps are the two arms of \<open>session/mod.rs\<close>
  (\<open>drain_dcep_and_data\<close>) that feed a payload of a data channel to the framing.  Proved here: what the
  splitter sends is what the receiver delivers, over whole streams of messages; the buffer stays
  within its bound on any input; and every refused segment leaves an empty buffer.
\<close>

definition MAX_MESSAGE_SIZE :: nat where "MAX_MESSAGE_SIZE = 10000"

definition MAX_REASSEMBLED_SIZE :: nat where "MAX_REASSEMBLED_SIZE = 256 * MAX_MESSAGE_SIZE"

record message_segment =
  remaining_segments :: u8
  seg_data :: bytes

definition segment_new :: "u8 \<Rightarrow> bytes \<Rightarrow> message_segment" where
  "segment_new n d = \<lparr>remaining_segments = n, seg_data = d\<rparr>"

definition segment_encode :: "message_segment \<Rightarrow> bytes" where
  "segment_encode s = remaining_segments s # seg_data s"

definition segment_decode :: "bytes \<Rightarrow> (protocol_error, message_segment) result" where
  "segment_decode data =
     (if length data < 2
      then Inl (MessageParse (''Message too short, expected at least 2 bytes, got '' @ dec (length data)))
      else Inr (segment_new (hd data) (tl data)))"

record message =
  expected_segments :: u8
  msg_data :: bytes

definition message_new :: message where
  "message_new = \<lparr>expected_segments = 0, msg_data = []\<rparr>"

definition checked_add_u8 :: "u8 \<Rightarrow> u8 \<Rightarrow> u8 option" where
  "checked_add_u8 x y = (if 255 < unat x + unat y then None else Some (x + y))"

text \<open>The three parts of \<open>add_segment\<close>: the count a first segment announces, the check of a
  count against the expected one, and the append with its size limit.\<close>

definition announce_segments :: "message \<Rightarrow> u8 \<Rightarrow> (protocol_error, u8) result" where
  "announce_segments m remaining =
     (if expected_segments m = 0 \<and> remaining > 0
      then ok_or (MessageParse ''segment count out of range'') (checked_add_u8 remaining 1)
      else Inr (expected_segments m))"

definition append_segment ::
  "message \<Rightarrow> message_segment \<Rightarrow> message \<times> (protocol_error, bytes option) result" where
  "append_segment m segment =
     (let size = length (msg_data m) + length (seg_data segment) in
      if size > MAX_REASSEMBLED_SIZE
      then (message_new, Inl (MessageSizeExceeded size))
      else let joined = msg_data m @ seg_data segment in
        if remaining_segments segment = 0
        then (\<lparr>expected_segments = 0, msg_data = []\<rparr>, Inr (Some joined))
        else (m\<lparr>msg_data := joined\<rparr>, Inr None))"

definition add_segment ::
  "message \<Rightarrow> message_segment \<Rightarrow> message \<times> (protocol_error, bytes option) result" where
  "add_segment m segment =
     (case announce_segments m (remaining_segments segment) of
        Inl e \<Rightarrow> (m, Inl e)
      | Inr expected \<Rightarrow>
          if expected > 0 then
            (let expected_remaining = expected - 1 in
             if expected_remaining \<noteq> remaining_segments segment
             then (message_new,
               Inl (MessageParse (''Invalid segment sequence: expected '' @ dec (unat expected_remaining) @
                 '', got '' @ dec (unat (remaining_segments segment)))))
             else append_segment (m\<lparr>expected_segments := expected - 1\<rparr>) segment)
          else append_segment (m\<lparr>expected_segments := expected\<rparr>) segment)"

definition div_ceil :: "nat \<Rightarrow> nat \<Rightarrow> nat" where
  "div_ceil a b = a div b + (if a mod b = 0 then 0 else 1)"

function split_loop :: "u8 \<Rightarrow> bytes \<Rightarrow> message_segment list" where
  "split_loop left remaining =
     (if length remaining > MAX_MESSAGE_SIZE
      then segment_new (left - 1) (take MAX_MESSAGE_SIZE remaining) #
             split_loop (left - 1) (drop MAX_MESSAGE_SIZE remaining)
      else if remaining \<noteq> [] then [segment_new (left - 1) remaining] else [])"
  by pat_completeness auto
termination
  by (relation "measure (length \<circ> snd)") (auto simp: MAX_MESSAGE_SIZE_def)

declare split_loop.simps [simp del]

definition split_into_segments :: "bytes \<Rightarrow> (protocol_error, message_segment list) result" where
  "split_into_segments data =
     (let len = length data in
      if len \<le> MAX_MESSAGE_SIZE then Inr [segment_new 0 data]
      else let segment_count = div_ceil len MAX_MESSAGE_SIZE in
        if segment_count > 255 then Inl (MessageSizeExceeded len)
        else Inr (split_loop (of_nat segment_count) data))"

definition encode_unreliable :: "bytes \<Rightarrow> (protocol_error, bytes) result" where
  "encode_unreliable data =
     (if length data > MAX_MESSAGE_SIZE - 1 then Inl (MessageSizeExceeded (length data))
      else Inr (segment_encode (segment_new 0 data)))"

subsection \<open>The receiving side of a data channel\<close>

text \<open>One non-DCEP payload of the reliable channel: the message it completes, if any.  A
  payload that does not decode, and an error of the reassembly, are dropped.\<close>

definition receive_reliable :: "message \<Rightarrow> bytes \<Rightarrow> message \<times> bytes option" where
  "receive_reliable m payload =
     (case segment_decode payload of
        Inl _ \<Rightarrow> (m, None)
      | Inr segment \<Rightarrow>
          (case add_segment m segment of
             (m', Inr (Some msg)) \<Rightarrow> (m', Some msg)
           | (m', Inr None) \<Rightarrow> (m', None)
           | (m', Inl _) \<Rightarrow> (m', None)))"

definition receive_unreliable :: "bytes \<Rightarrow> bytes option" where
  "receive_unreliable payload =
     (case segment_decode payload of
        Inl _ \<Rightarrow> None
      | Inr segment \<Rightarrow> if remaining_segments segment = 0 then Some (seg_data segment) else None)"

fun receive_stream :: "message \<Rightarrow> bytes list \<Rightarrow> message \<times> bytes list" where
  "receive_stream m [] = (m, [])"
| "receive_stream m (p # ps) =
     (case receive_reliable m p of (m', out) \<Rightarrow>
        case receive_stream m' ps of (m'', outs) \<Rightarrow>
          (m'', (case out of None \<Rightarrow> outs | Some msg \<Rightarrow> msg # outs)))"

text \<open>The payloads \<open>Session::send\<close> writes for one reliable message.\<close>

definition send_reliable :: "bytes \<Rightarrow> (protocol_error, bytes list) result" where
  "send_reliable data = res_bind (split_into_segments data) (\<lambda>segs. Inr (map segment_encode segs))"

text \<open>The invariant of the reassembly buffer: no bytes are held between messages, and never more
  than the limit.\<close>

definition message_inv :: "message \<Rightarrow> bool" where
  "message_inv m \<longleftrightarrow>
     (expected_segments m = 0 \<longrightarrow> msg_data m = []) \<and> length (msg_data m) \<le> MAX_REASSEMBLED_SIZE"


section \<open>Lemmas\<close>

lemma message_new_simps [simp]: "expected_segments message_new = 0" "msg_data message_new = []"
  by (simp_all add: message_new_def)

lemma segment_new_simps [simp]:
  "remaining_segments (segment_new n d) = n" "seg_data (segment_new n d) = d"
  by (simp_all add: segment_new_def)

lemma segment_decode_encode: "seg_data s \<noteq> [] \<Longrightarrow> segment_decode (segment_encode s) = Inr s"
  by (cases s; cases "seg_data s") (auto simp: segment_decode_def segment_encode_def segment_new_def)

lemma message_inv_new [simp, intro]: "message_inv message_new"
  by (simp add: message_inv_def)

lemma unat_minus_one_u8: "w \<noteq> 0 \<Longrightarrow> unat (w - 1 :: u8) = unat w - 1"
  by (simp add: unat_minus_one)

lemma unat_one_u8: "unat (w :: u8) = 1 \<Longrightarrow> w = 1"
  by (rule unsigned_word_eqI [where ?'a = nat]) simp

lemma checked_add_pos: "checked_add_u8 r 1 = Some e \<Longrightarrow> e \<noteq> 0"
  by (auto simp: checked_add_u8_def add_eq_0_iff2 unsigned_minus_1_eq_mask mask_eq_exp_minus_1
      split: if_splits)

lemma announce_first:
  "expected_segments m = 0 \<Longrightarrow> left \<noteq> 0 \<Longrightarrow> left - 1 \<noteq> 0 \<Longrightarrow> announce_segments m (left - 1) = Inr left"
  using unat_bound [of left]
  by (auto simp: announce_segments_def checked_add_u8_def unat_minus_one_u8 word_gt_0 unat_eq_zero)

text \<open>A segment that carries the next count, first of its message or not, is appended.\<close>

lemma add_segment_step:
  assumes "left \<noteq> 0" "remaining_segments segment = left - 1"
    and "expected_segments m = left \<or> expected_segments m = 0"
  shows "add_segment m segment = append_segment (m\<lparr>expected_segments := left - 1\<rparr>) segment"
proof (cases "expected_segments m = 0 \<and> left - 1 \<noteq> 0")
  case True
  with assms show ?thesis
    by (simp add: add_segment_def announce_first word_gt_0)
next
  case False
  with assms have "announce_segments m (left - 1) = Inr (expected_segments m)"
    by (auto simp: announce_segments_def)
  with assms False show ?thesis
    by (auto simp: add_segment_def word_gt_0)
qed

lemma append_segment_inv:
  assumes "length (msg_data m) \<le> MAX_REASSEMBLED_SIZE"
    and "remaining_segments segment \<noteq> 0 \<longrightarrow> expected_segments m \<noteq> 0"
  shows "message_inv (fst (append_segment m segment))"
  using assms by (auto simp: append_segment_def message_inv_def Let_def)

lemma add_segment_inv:
  assumes "message_inv m"
  shows "message_inv (fst (add_segment m segment))"
proof (cases "announce_segments m (remaining_segments segment)")
  case (Inl e)
  with assms show ?thesis
    by (simp add: add_segment_def)
next
  case (Inr expected)
  then have "expected = 0 \<longrightarrow> remaining_segments segment = 0"
    using checked_add_pos by (auto simp: announce_segments_def word_gt_0 split: if_splits)
  with Inr have "fst (add_segment m segment) = message_new \<or>
      add_segment m segment = append_segment (m\<lparr>expected_segments := remaining_segments segment\<rparr>) segment"
    by (auto simp: add_segment_def Let_def word_gt_0)
  moreover have "length (msg_data m) \<le> MAX_REASSEMBLED_SIZE"
    using assms by (simp add: message_inv_def)
  ultimately show ?thesis
    using append_segment_inv [of "m\<lparr>expected_segments := remaining_segments segment\<rparr>" segment] by auto
qed

lemma append_segment_error:
  "append_segment m segment = (m', Inl e) \<Longrightarrow> m' = message_new"
  by (auto simp: append_segment_def Let_def split: if_splits)

lemma add_segment_error_resets:
  assumes "message_inv m" "add_segment m segment = (m', Inl e)"
  shows "m' = message_new"
proof (cases "announce_segments m (remaining_segments segment)")
  case (Inl e')
  then have "expected_segments m = 0"
    by (auto simp: announce_segments_def split: if_splits)
  with assms Inl show ?thesis
    by (auto simp: add_segment_def message_inv_def message_new_def)
next
  case (Inr expected)
  with assms(2) show ?thesis
    by (auto simp: add_segment_def Let_def append_segment_error split: if_splits)
qed

lemma add_segment_message:
  assumes "message_inv m" "add_segment m segment = (m', Inr (Some msg))"
  shows "m' = message_new \<and> length msg \<le> MAX_REASSEMBLED_SIZE"
  using assms(2)
  by (auto simp: add_segment_def append_segment_def message_new_def Let_def split: sum.splits if_splits)

lemma receive_reliable_inv: "message_inv m \<Longrightarrow> message_inv (fst (receive_reliable m p))"
  using add_segment_inv [of m "case segment_decode p of Inr segment \<Rightarrow> segment"]
  by (auto simp: receive_reliable_def split: sum.splits prod.splits option.splits)

lemma receive_reliable_bound:
  "message_inv m \<Longrightarrow> receive_reliable m p = (m', Some msg) \<Longrightarrow> length msg \<le> MAX_REASSEMBLED_SIZE"
  by (auto simp: receive_reliable_def split: sum.splits prod.splits option.splits
      dest: add_segment_message)

subsection \<open>Splitting and joining\<close>

lemma div_ceil_step: "length rest > MAX_MESSAGE_SIZE \<Longrightarrow>
   div_ceil (length rest) MAX_MESSAGE_SIZE = Suc (div_ceil (length rest - MAX_MESSAGE_SIZE) MAX_MESSAGE_SIZE)"
  by (simp add: div_ceil_def MAX_MESSAGE_SIZE_def le_div_geq le_mod_geq)

lemma div_ceil_small: "0 < n \<Longrightarrow> n \<le> MAX_MESSAGE_SIZE \<Longrightarrow> div_ceil n MAX_MESSAGE_SIZE = 1"
  by (cases "n = MAX_MESSAGE_SIZE") (simp_all add: div_ceil_def MAX_MESSAGE_SIZE_def)

lemma div_ceil_bound: "div_ceil n MAX_MESSAGE_SIZE \<le> 255 \<longleftrightarrow> n \<le> 255 * MAX_MESSAGE_SIZE"
proof -
  define q r where "q = n div 10000" and "r = n mod 10000"
  then have "n = 10000 * q + r" "r < 10000"
    by simp_all
  then show ?thesis
    unfolding div_ceil_def MAX_MESSAGE_SIZE_def q_def [symmetric] r_def [symmetric] by auto
qed

lemma receive_stream_append:
  "receive_stream m (ps @ qs) =
     (case receive_stream m ps of (m', outs) \<Rightarrow>
        case receive_stream m' qs of (m'', outs') \<Rightarrow> (m'', outs @ outs'))"
  by (induction ps arbitrary: m) (auto split: prod.splits option.splits)

lemma receive_step:
  assumes "left \<noteq> 0" "expected_segments m = left \<or> expected_segments m = 0" "chunk \<noteq> []"
    and "length (msg_data m) + length chunk \<le> MAX_REASSEMBLED_SIZE"
  shows "receive_reliable m (segment_encode (segment_new (left - 1) chunk)) =
     (if left - 1 = 0 then (message_new, Some (msg_data m @ chunk))
      else (\<lparr>expected_segments = left - 1, msg_data = msg_data m @ chunk\<rparr>, None))"
proof -
  have "add_segment m (segment_new (left - 1) chunk) =
      append_segment (m\<lparr>expected_segments := left - 1\<rparr>) (segment_new (left - 1) chunk)"
    by (rule add_segment_step) (use assms in simp_all)
  with assms(3,4) show ?thesis
    by (simp add: receive_reliable_def segment_decode_encode append_segment_def message_new_def Let_def)
qed

lemma receive_split_loop:
  assumes "unat left = div_ceil (length rest) MAX_MESSAGE_SIZE" "rest \<noteq> []"
    and "expected_segments m = left \<or> expected_segments m = 0"
    and "length (msg_data m) + length rest \<le> MAX_REASSEMBLED_SIZE"
  shows "receive_stream m (map segment_encode (split_loop left rest)) = (message_new, [msg_data m @ rest])"
  using assms
proof (induction left rest arbitrary: m rule: split_loop.induct)
  case (1 left rest)
  show ?case
  proof (cases "length rest > MAX_MESSAGE_SIZE")
    case False
    with 1(2,3) have "left - 1 = 0" "left \<noteq> 0"
      using unat_one_u8 [of left] by (auto simp: div_ceil_small)
    with False 1(3-5) receive_step [of left m rest] show ?thesis
      by (subst split_loop.simps) simp
  next
    case True
    let ?chunk = "take MAX_MESSAGE_SIZE rest" and ?rest = "drop MAX_MESSAGE_SIZE rest"
    have count: "unat left = Suc (div_ceil (length ?rest) MAX_MESSAGE_SIZE)" "?rest \<noteq> []"
      using 1(2) True by (simp_all add: div_ceil_step)
    then have left: "left \<noteq> 0" "unat (left - 1) = div_ceil (length ?rest) MAX_MESSAGE_SIZE"
      using unat_minus_one_u8 [of left] by (cases "left = 0"; simp)+
    moreover have "div_ceil (length ?rest) MAX_MESSAGE_SIZE \<noteq> 0"
      using True by (auto simp: div_ceil_def MAX_MESSAGE_SIZE_def)
    ultimately have "left - 1 \<noteq> 0"
      by auto
    moreover have "length (msg_data m) + length ?chunk \<le> MAX_REASSEMBLED_SIZE" "?chunk \<noteq> []"
      using 1(5) True by (auto simp: MAX_MESSAGE_SIZE_def)
    moreover have "length (msg_data m @ ?chunk) + length ?rest \<le> MAX_REASSEMBLED_SIZE"
      using 1(5) True by simp
    ultimately show ?thesis
      using True left count(2) 1(4)
        receive_step [of left m ?chunk]
        1(1) [OF True left(2) count(2), of "\<lparr>expected_segments = left - 1, msg_data = msg_data m @ ?chunk\<rparr>"]
      by (subst split_loop.simps) simp
  qed
qed

text \<open>One message: every non-empty message that can be sent arrives.\<close>

lemma receive_sent:
  assumes "send_reliable data = Inr payloads" "data \<noteq> []"
  shows "receive_stream message_new payloads = (message_new, [data])"
proof (cases "length data \<le> MAX_MESSAGE_SIZE")
  case True
  with assms receive_step [of 1 message_new data] show ?thesis
    by (auto simp: send_reliable_def split_into_segments_def MAX_REASSEMBLED_SIZE_def)
next
  case False
  let ?count = "div_ceil (length data) MAX_MESSAGE_SIZE"
  from False assms(1) have count: "?count \<le> 255"
    and payloads: "payloads = map segment_encode (split_loop (of_nat ?count) data)"
    by (auto simp: send_reliable_def split_into_segments_def Let_def split: if_splits)
  from count have "unat (of_nat ?count :: u8) = ?count"
    by (simp add: unat_of_nat take_bit_nat_eq_self_iff)
  moreover from count have "length data \<le> MAX_REASSEMBLED_SIZE"
    by (simp add: div_ceil_bound MAX_REASSEMBLED_SIZE_def)
  ultimately show ?thesis
    unfolding payloads using assms(2) receive_split_loop [of "of_nat ?count" data message_new] by simp
qed

lemma receive_sent_stream:
  assumes "list_all2 (\<lambda>data payloads. send_reliable data = Inr payloads \<and> data \<noteq> []) msgs sent"
  shows "receive_stream message_new (concat sent) = (message_new, msgs)"
  using assms
  by (induction rule: list_all2_induct) (auto simp: receive_stream_append dest!: receive_sent)

lemma send_reliable_limit:
  "(\<exists>payloads. send_reliable data = Inr payloads) \<longleftrightarrow> length data \<le> 255 * MAX_MESSAGE_SIZE"
proof (cases "length data \<le> MAX_MESSAGE_SIZE")
  case False
  then show ?thesis
    by (auto simp: send_reliable_def split_into_segments_def Let_def not_less div_ceil_bound [symmetric]
        simp del: div_ceil_bound)
qed (simp add: send_reliable_def split_into_segments_def)

lemma receive_stream_inv:
  assumes "message_inv m" "receive_stream m ps = (m', outs)"
  shows "message_inv m' \<and> (\<forall>msg \<in> set outs. length msg \<le> MAX_REASSEMBLED_SIZE)"
  using assms
proof (induction ps arbitrary: m m' outs)
  case (Cons p ps)
  obtain m1 out where step: "receive_reliable m p = (m1, out)"
    by fastforce
  obtain m2 outs' where rest: "receive_stream m1 ps = (m2, outs')"
    by fastforce
  have "message_inv m1"
    using receive_reliable_inv [OF Cons.prems(1), of p] step by simp
  note IH = Cons.IH [OF this rest]
  from Cons.prems step rest IH receive_reliable_bound [OF Cons.prems(1), of p m1] show ?case
    by (auto split: option.splits)
qed simp

lemma split_loop_shape:
  "unat left = div_ceil (length rest) MAX_MESSAGE_SIZE \<Longrightarrow>
   length (split_loop left rest) = unat left \<and>
   list_all (\<lambda>s. length (seg_data s) \<le> MAX_MESSAGE_SIZE) (split_loop left rest) \<and>
   map (unat \<circ> remaining_segments) (split_loop left rest) = rev [0..<unat left]"
proof (induction left rest rule: split_loop.induct)
  case (1 left rest)
  consider (more) "length rest > MAX_MESSAGE_SIZE" | (last) "length rest \<le> MAX_MESSAGE_SIZE" "rest \<noteq> []"
    | (none) "rest = []"
    by fastforce
  then show ?case
  proof cases
    case more
    then have count: "unat left = Suc (div_ceil (length (drop MAX_MESSAGE_SIZE rest)) MAX_MESSAGE_SIZE)"
      using 1(2) by (simp add: div_ceil_step)
    then have "unat (left - 1) = div_ceil (length (drop MAX_MESSAGE_SIZE rest)) MAX_MESSAGE_SIZE"
      using unat_minus_one_u8 [of left] by (cases "left = 0"; simp)
    with 1(1) [OF more this] count more show ?thesis
      by (subst (1 2 3) split_loop.simps) (simp add: comp_def)
  next
    case last
    with 1(2) have "unat left = 1"
      by (simp add: div_ceil_small)
    with last unat_one_u8 [of left] show ?thesis
      by (subst (1 2 3) split_loop.simps) simp
  next
    case none
    with 1(2) show ?thesis
      by (subst (1 2 3) split_loop.simps) (simp add: div_ceil_def)
  qed
qed

lemma split_into_segments_shape:
  assumes "split_into_segments data = Inr segs"
  shows "length segs \<le> 255 \<and> list_all (\<lambda>s. length (seg_data s) \<le> MAX_MESSAGE_SIZE) segs \<and>
    map (unat \<circ> remaining_segments) segs = rev [0..<length segs]"
proof (cases "length data \<le> MAX_MESSAGE_SIZE")
  case True
  with assms show ?thesis
    by (auto simp: split_into_segments_def)
next
  case False
  let ?count = "div_ceil (length data) MAX_MESSAGE_SIZE"
  from False assms have count: "?count \<le> 255" and segs: "segs = split_loop (of_nat ?count) data"
    by (auto simp: split_into_segments_def Let_def split: if_splits)
  then have "unat (of_nat ?count :: u8) = ?count"
    by (simp add: unat_of_nat take_bit_nat_eq_self_iff)
  with split_loop_shape [of "of_nat ?count" data] count segs show ?thesis
    by simp
qed


section \<open>Properties\<close>

text \<open>Framing is lossless over whole streams.  When a sequence of non-empty messages is sent on
  the reliable channel and the payloads of all of them arrive in order, the receiver delivers exactly
  those messages, in order, and its buffer is empty again at the end.\<close>

lemma framing_delivers_stream:
  assumes "list_all2 (\<lambda>data payloads. send_reliable data = Inr payloads \<and> data \<noteq> []) msgs sent"
  shows "receive_stream message_new (concat sent) = (message_new, msgs)"
  using assms by (rule receive_sent_stream)

lemma framing_delivers_stream_witness:
  "\<exists>payloads. send_reliable (replicate 20001 7) = Inr payloads \<and>
     receive_stream message_new (concat [payloads, [[0, 1, 2]]]) =
       (message_new, [replicate 20001 7, [1, 2]])"
proof -
  have "\<exists>payloads. send_reliable (replicate 20001 7) = Inr payloads"
    by (simp add: send_reliable_limit MAX_MESSAGE_SIZE_def)
  then obtain payloads where sent: "send_reliable (replicate 20001 7) = Inr payloads"
    by blast
  moreover have "send_reliable [1, 2] = Inr [[0, 1, 2]]"
    by (simp add: send_reliable_def split_into_segments_def segment_encode_def MAX_MESSAGE_SIZE_def)
  moreover have "replicate 20001 (7 :: u8) \<noteq> []"
    by simp
  ultimately show ?thesis
    using framing_delivers_stream [of "[replicate 20001 7, [1, 2]]" "[payloads, [[0, 1, 2]]]"]
    by simp
qed

text \<open>C29: The reassembly buffer is bounded on every input.  Whatever payloads arrive, well formed
  or not, the buffer never holds more than 256 segments' worth of bytes, holds none between messages, and
  no delivered message is larger than that.\<close>

theorem reassembly_bounded:
  "message_inv (fst (receive_stream message_new payloads)) \<and>
   list_all (\<lambda>msg. length msg \<le> 2560000) (snd (receive_stream message_new payloads))"
  using receive_stream_inv [OF message_inv_new, of payloads]
  by (cases "receive_stream message_new payloads")
    (simp add: list_all_iff MAX_REASSEMBLED_SIZE_def MAX_MESSAGE_SIZE_def)



text \<open>What the sender does with any message: up to 255 segments of 10000 bytes are sent, as that many
  payloads of at most 10001 bytes whose counts run down to zero without the counter wrapping, and a
  longer message is refused with its size.\<close>

lemma send_reliable_shape:
  "case split_into_segments data of
     Inl e \<Rightarrow> length data > 2550000 \<and> e = MessageSizeExceeded (length data)
   | Inr segs \<Rightarrow> length data \<le> 2550000 \<and> length segs \<le> 255 \<and>
       list_all (\<lambda>s. length (segment_encode s) \<le> 10001) segs \<and>
       map (unat \<circ> remaining_segments) segs = rev [0..<length segs]"
proof (cases "split_into_segments data")
  case (Inl e)
  with send_reliable_limit [of data] show ?thesis
    by (auto simp: send_reliable_def split_into_segments_def MAX_MESSAGE_SIZE_def Let_def split: if_splits)
next
  case (Inr segs)
  then have "length data \<le> 255 * MAX_MESSAGE_SIZE"
    by (simp add: send_reliable_limit [symmetric] send_reliable_def)
  with split_into_segments_shape [OF Inr] Inr show ?thesis
    by (simp add: segment_encode_def MAX_MESSAGE_SIZE_def)
qed

text \<open>The unreliable channel: a payload is accepted exactly when it holds at most 9999 bytes,
  one less than a segment may carry, and every non-empty one that is accepted is delivered as sent.\<close>

lemma unreliable_round_trip:
  "case encode_unreliable data of
     Inl e \<Rightarrow> length data \<ge> 10000 \<and> e = MessageSizeExceeded (length data)
   | Inr payload \<Rightarrow> length data \<le> 9999 \<and>
       receive_unreliable payload = (if data = [] then None else Some data)"
  by (auto simp: encode_unreliable_def receive_unreliable_def segment_decode_def segment_encode_def
      MAX_MESSAGE_SIZE_def split: sum.splits)

text \<open>An empty message is accepted by the sender on either channel, as a payload that holds
  only the count, and is never delivered: the receiver refuses a segment without a body.\<close>

lemma empty_message_lost:
  "send_reliable [] = Inr [[0]] \<and> encode_unreliable [] = Inr [0] \<and>
   receive_reliable m [0] = (m, None) \<and> receive_unreliable [0] = None"
  by (simp add: send_reliable_def split_into_segments_def encode_unreliable_def segment_encode_def
      receive_reliable_def receive_unreliable_def segment_decode_def)

end
