(* ===== verification/Signal.thy ===== *)
theory Signal
  imports Errors
begin

text \<open>
  \<open>nethernet/src/protocol/signal.rs\<close>: the signals peers exchange to set up a connection, in their
  text form \<open>TYPE connection_id data\<close>.  Proved here: the text form of every signal reads back as the
  same signal, whatever its payload holds, and nothing else than a text of that form is accepted.
\<close>

datatype signal_type = Offer | Answer | Candidate | Error

fun signal_type_as_str :: "signal_type \<Rightarrow> string" where
  "signal_type_as_str Offer = ''CONNECTREQUEST''"
| "signal_type_as_str Answer = ''CONNECTRESPONSE''"
| "signal_type_as_str Candidate = ''CANDIDATEADD''"
| "signal_type_as_str Error = ''CONNECTERROR''"

definition signal_type_from_str :: "string \<Rightarrow> (protocol_error, signal_type) result" where
  "signal_type_from_str s =
     (if s = ''CONNECTREQUEST'' then Inr Offer
      else if s = ''CONNECTRESPONSE'' then Inr Answer
      else if s = ''CANDIDATEADD'' then Inr Candidate
      else if s = ''CONNECTERROR'' then Inr Error
      else Inl (Other (''Unknown signal type: '' @ s)))"

record signal =
  sig_type :: signal_type
  connection_id :: u64
  sig_data :: string
  network_id :: string

definition signal_new :: "signal_type \<Rightarrow> u64 \<Rightarrow> string \<Rightarrow> string \<Rightarrow> signal" where
  "signal_new t cid d nid = \<lparr>sig_type = t, connection_id = cid, sig_data = d, network_id = nid\<rparr>"

definition signal_offer :: "u64 \<Rightarrow> string \<Rightarrow> string \<Rightarrow> signal" where
  "signal_offer cid sdp nid = signal_new Offer cid sdp nid"

definition signal_answer :: "u64 \<Rightarrow> string \<Rightarrow> string \<Rightarrow> signal" where
  "signal_answer cid sdp nid = signal_new Answer cid sdp nid"

definition signal_candidate :: "u64 \<Rightarrow> string \<Rightarrow> string \<Rightarrow> signal" where
  "signal_candidate cid c nid = signal_new Candidate cid c nid"

definition signal_error :: "u64 \<Rightarrow> signal_error_code \<Rightarrow> string \<Rightarrow> signal" where
  "signal_error cid code nid = signal_new Error cid (u32_to_string (code_to_u32 code)) nid"

definition signal_from_string :: "string \<Rightarrow> string \<Rightarrow> (protocol_error, signal) result" where
  "signal_from_string s nid =
     (let parts = splitn 3 CHR '' '' s in
      if length parts \<noteq> 3
      then Inl (Other (''Invalid signal format: expected 3 parts, got '' @ dec (length parts)))
      else res_bind (signal_type_from_str (parts ! 0)) (\<lambda>t.
        res_bind (ok_or (Other ''Failed to parse connection ID: '') (parse_u64 (parts ! 1))) (\<lambda>cid.
          Inr \<lparr>sig_type = t, connection_id = cid, sig_data = parts ! 2, network_id = nid\<rparr>)))"

definition signal_to_string :: "signal \<Rightarrow> string" where
  "signal_to_string s =
     signal_type_as_str (sig_type s) @ '' '' @ u64_to_string (connection_id s) @ '' '' @ sig_data s"


section \<open>Lemmas\<close>

lemma signal_type_round_trip [simp]: "signal_type_from_str (signal_type_as_str t) = Inr t"
  by (cases t) (simp_all add: signal_type_from_str_def)

lemma signal_type_from_str_Inr:
  "signal_type_from_str s = Inr t \<longleftrightarrow> s = signal_type_as_str t"
  by (cases t) (auto simp: signal_type_from_str_def)

lemma signal_type_no_space [simp]: "CHR '' '' \<notin> set (signal_type_as_str t)"
  by (cases t) simp_all

lemma signal_type_ascii [simp]: "is_ascii (signal_type_as_str t)"
  by (cases t) simp_all

lemma splitn3_signal:
  assumes "CHR '' '' \<notin> set a" "CHR '' '' \<notin> set b"
  shows "splitn 3 CHR '' '' (a @ '' '' @ b @ '' '' @ c) = [a, b, c]"
  using assms by (simp add: numeral_3_eq_3)

lemma splitn3_parts:
  assumes "splitn 3 c s = [x, y, z]"
  shows "s = x @ c # y @ c # z"
  using assms
  by (auto simp: numeral_3_eq_3 split: option.splits dest!: split_once_Some)

lemma signal_round_trip:
  "signal_from_string (signal_to_string s) nid = Inr (s\<lparr>network_id := nid\<rparr>)"
  by (cases s) (simp add: signal_to_string_def signal_from_string_def splitn3_signal
      del: append_Cons append.append_Cons)

lemma signal_to_string_is_str: "is_str (sig_data s) \<Longrightarrow> is_str (signal_to_string s)"
  unfolding signal_to_string_def
  by (rule is_str_append, rule is_ascii_is_str, simp)+ (simp_all add: is_str_append is_ascii_is_str)

lemma length_3_list: "length xs = 3 \<Longrightarrow> xs = [xs ! 0, xs ! 1, xs ! 2]"
  by (auto simp: numeral_3_eq_3 length_Suc_conv)

lemma signal_from_string_error: "signal_from_string s nid = Inl e \<Longrightarrow> \<exists>msg. e = Other msg"
  by (auto simp: signal_from_string_def signal_type_from_str_def res_simps Let_def split: if_splits)

lemma signal_from_string_parts:
  assumes "signal_from_string s nid = Inr sig"
  shows "network_id sig = nid" "\<exists>d. parse_u64 d = Some (connection_id sig) \<and>
     s = signal_type_as_str (sig_type sig) @ '' '' @ d @ '' '' @ sig_data sig"
proof -
  let ?parts = "splitn 3 CHR '' '' s"
  from assms have len: "length ?parts = 3"
    by (auto simp: signal_from_string_def Let_def split: if_splits)
  with assms show "network_id sig = nid"
    by (auto simp: signal_from_string_def res_simps Let_def)
  from len have "s = ?parts ! 0 @ CHR '' '' # ?parts ! 1 @ CHR '' '' # ?parts ! 2"
    using splitn3_parts [of "CHR '' ''" s] length_3_list by blast
  with assms len show "\<exists>d. parse_u64 d = Some (connection_id sig) \<and>
     s = signal_type_as_str (sig_type sig) @ '' '' @ d @ '' '' @ sig_data sig"
    by (auto simp: signal_from_string_def res_simps Let_def signal_type_from_str_Inr)
qed


section \<open>Properties\<close>

text \<open>C40: The text form of a signal reads back as the same signal with the network id the receiver
  supplies, for every type, every 64-bit connection id and every payload (spaces included), and a
  text that is accepted has exactly that form: its type's wire name, a space, a number that parses
  to the connection id, a space, and the payload.\<close>

theorem signal_text_round_trip:
  "signal_from_string (signal_to_string s) nid = Inr (s\<lparr>network_id := nid\<rparr>) \<and>
   (case signal_from_string line nid of
      Inl e \<Rightarrow> \<exists>msg. e = Other msg
    | Inr sig \<Rightarrow> network_id sig = nid \<and>
        (\<exists>d. parse_u64 d = Some (connection_id sig) \<and>
           line = signal_type_as_str (sig_type sig) @ '' '' @ d @ '' '' @ sig_data sig))"
proof (intro conjI)
  show "case signal_from_string line nid of
      Inl e \<Rightarrow> \<exists>msg. e = Other msg
    | Inr sig \<Rightarrow> network_id sig = nid \<and>
        (\<exists>d. parse_u64 d = Some (connection_id sig) \<and>
           line = signal_type_as_str (sig_type sig) @ '' '' @ d @ '' '' @ sig_data sig)"
    using signal_from_string_parts [of line nid] signal_from_string_error [of line nid]
    by (auto split: sum.splits)
qed (rule signal_round_trip)

text \<open>A CONNECTERROR signal carries its code through the text form: reading the signal back and
  its payload as a number gives the same code, and a number outside the known codes reads as
  \<open>SignalingUnknownError\<close>.\<close>

lemma signal_error_code_round_trip:
  "(\<exists>sig. signal_from_string (signal_to_string (signal_error cid code nid)) peer = Inr sig \<and>
      sig_type sig = Error \<and> connection_id sig = cid \<and>
      map_option code_from_u32 (parse_u32 (sig_data sig)) = Some code) \<and>
   (n < 27 \<or> code_from_u32 n = SignalingUnknownError)"
proof
  show "\<exists>sig. signal_from_string (signal_to_string (signal_error cid code nid)) peer = Inr sig \<and>
      sig_type sig = Error \<and> connection_id sig = cid \<and>
      map_option code_from_u32 (parse_u32 (sig_data sig)) = Some code"
    by (rule exI, rule conjI, rule signal_round_trip) (simp add: signal_error_def signal_new_def)
qed (use code_from_u32_unknown in blast)

end
