(* ===== verification/Discovery.thy ===== *)
theory Discovery
  imports Codec
begin

text \<open>
  \<open>nethernet/src/protocol/packet/discovery\<close>: the encrypted, authenticated datagrams of LAN discovery
  (\<open>crypto.rs\<close>, \<open>request.rs\<close>, \<open>response.rs\<close>, \<open>message.rs\<close>, \<open>packet.rs\<close>).  AES-256, SHA-256, HMAC and the hex
  codec are external crates; they are the fields of \<open>discovery_prims\<close>, an argument of every
  definition that uses them, and \<open>prims_ok\<close> states the documented laws the code relies on.  Proved here: the
  padding and the block encryption are undone by decryption, every packet that is encoded is
  decoded to itself and its sender, nothing without a valid tag is accepted, and the size of every datagram.
\<close>

record discovery_prims =
  sha256 :: "bytes \<Rightarrow> bytes"
  aes256_encrypt_block :: "bytes \<Rightarrow> bytes \<Rightarrow> bytes"
  aes256_decrypt_block :: "bytes \<Rightarrow> bytes \<Rightarrow> bytes"
  hmac_sha256 :: "bytes \<Rightarrow> bytes \<Rightarrow> bytes"
  hmac_sha256_verify :: "bytes \<Rightarrow> bytes \<Rightarrow> bytes \<Rightarrow> bool"
  hex_encode :: "bytes \<Rightarrow> bytes"
  hex_decode :: "bytes \<Rightarrow> bytes option"

text \<open>The laws: a digest is 32 bytes; under a 32-byte key a block of 16 bytes is encrypted to 16 bytes and
  decrypted to itself; a tag verifies exactly when it is the computed one; and the hex text of a string is the
  texts of its bytes in order, two characters each, which decodes to the string.\<close>

definition prims_ok :: "discovery_prims \<Rightarrow> bool" where
  "prims_ok P \<longleftrightarrow>
     (\<forall>d. length (sha256 P d) = 32) \<and>
     (\<forall>k b. length k = 32 \<longrightarrow> length b = 16 \<longrightarrow>
        length (aes256_encrypt_block P k b) = 16 \<and>
        aes256_decrypt_block P k (aes256_encrypt_block P k b) = b) \<and>
     (\<forall>k d. length (hmac_sha256 P k d) = 32) \<and>
     (\<forall>k d t. hmac_sha256_verify P k d t \<longleftrightarrow> t = hmac_sha256 P k d) \<and>
     (\<forall>a. length (hex_encode P a) = 2 * length a) \<and>
     (\<forall>a b. hex_encode P (a @ b) = hex_encode P a @ hex_encode P b) \<and>
     (\<forall>a. hex_decode P (hex_encode P a) = Some a)"

subsection \<open>crypto.rs\<close>

definition BLOCK_SIZE :: nat where "BLOCK_SIZE = 16"

definition ENCRYPTION_KEY :: "discovery_prims \<Rightarrow> bytes" where
  "ENCRYPTION_KEY P = sha256 P (le_bytes 8 (0xdeadbeef :: u64))"

text \<open>\<open>slice::chunks\<close>: pieces of \<open>n\<close> elements, the last one possibly shorter.\<close>

function chunks :: "nat \<Rightarrow> 'a list \<Rightarrow> 'a list list" where
  "chunks n xs = (if n = 0 \<or> xs = [] then [] else take n xs # chunks n (drop n xs))"
  by pat_completeness auto
termination
  by (relation "measure (length \<circ> snd)") auto

declare chunks.simps [simp del]

definition encrypt_blocks :: "discovery_prims \<Rightarrow> bytes \<Rightarrow> bytes" where
  "encrypt_blocks P buf = concat (map (aes256_encrypt_block P (ENCRYPTION_KEY P)) (chunks BLOCK_SIZE buf))"

definition decrypt_blocks :: "discovery_prims \<Rightarrow> bytes \<Rightarrow> bytes" where
  "decrypt_blocks P buf = concat (map (aes256_decrypt_block P (ENCRYPTION_KEY P)) (chunks BLOCK_SIZE buf))"

definition encrypt :: "discovery_prims \<Rightarrow> bytes \<Rightarrow> bytes" where
  "encrypt P buf =
     (let data_len = length buf;
          padding_len = BLOCK_SIZE - (data_len mod BLOCK_SIZE)
      in encrypt_blocks P (buf @ replicate padding_len (of_nat padding_len)))"

definition decrypt :: "discovery_prims \<Rightarrow> bytes \<Rightarrow> (protocol_error, bytes) result" where
  "decrypt P buf =
     (if buf = [] \<or> length buf mod BLOCK_SIZE \<noteq> 0
      then Inl (Other ''Invalid encrypted data length'')
      else let plain = decrypt_blocks P buf; data_len = length plain in
        if plain \<noteq> [] \<and> last plain > 0 \<and> unat (last plain) \<le> min BLOCK_SIZE data_len
        then let padding_len = last plain;
                 padding_start = data_len - unat padding_len;
                 mismatched = foldl (\<lambda>m byte. m OR (byte XOR padding_len)) 0 (drop padding_start plain)
             in if mismatched = 0 then Inr (take padding_start plain) else Inl (Other ''Invalid padding'')
        else Inl (Other ''Invalid padding''))"

definition compute_checksum :: "discovery_prims \<Rightarrow> bytes \<Rightarrow> bytes" where
  "compute_checksum P data = hmac_sha256 P (ENCRYPTION_KEY P) data"

definition verify_checksum :: "discovery_prims \<Rightarrow> bytes \<Rightarrow> bytes \<Rightarrow> bool" where
  "verify_checksum P data expected = hmac_sha256_verify P (ENCRYPTION_KEY P) data expected"

subsection \<open>Packets\<close>

definition ID_REQUEST_PACKET :: u16 where "ID_REQUEST_PACKET = 0"
definition ID_RESPONSE_PACKET :: u16 where "ID_RESPONSE_PACKET = 1"
definition ID_MESSAGE_PACKET :: u16 where "ID_MESSAGE_PACKET = 2"

record response_packet =
  application_data :: bytes

record message_packet =
  recipient_id :: u64
  pkt_data :: string

datatype packets = Request | Response response_packet | Message message_packet

fun packets_id :: "packets \<Rightarrow> u16" where
  "packets_id Request = ID_REQUEST_PACKET"
| "packets_id (Response _) = ID_RESPONSE_PACKET"
| "packets_id (Message _) = ID_MESSAGE_PACKET"

definition response_serialize :: "discovery_prims \<Rightarrow> response_packet \<Rightarrow> bytes" where
  "response_serialize P r =
     (let hex_len = length (application_data r) * 2 in
      write_u32 (of_nat hex_len) @ concat (map (hex_encode P) (chunks 512 (application_data r))))"

definition response_deserialize :: "discovery_prims \<Rightarrow> response_packet codec_reader" where
  "response_deserialize P =
     rd_bind read_bytes_u32 (\<lambda>hex_data.
       rd_bind (rd_res (ok_or (Other ''hex decode error: '') (hex_decode P hex_data))) (\<lambda>data.
         rd_ok \<lparr>application_data = data\<rparr>))"

definition message_packet_serialize :: "message_packet \<Rightarrow> (protocol_error, bytes) result" where
  "message_packet_serialize m =
     res_bind (write_bytes_u32 (as_bytes (pkt_data m))) (\<lambda>field.
       Inr (write_u64 (recipient_id m) @ field))"

definition message_packet_deserialize :: "message_packet codec_reader" where
  "message_packet_deserialize =
     rd_bind read_u64 (\<lambda>rid.
       rd_bind read_bytes_u32 (\<lambda>data_bytes.
         rd_bind (rd_res (ok_or (Other ''invalid UTF-8: '') (from_utf8 data_bytes))) (\<lambda>data.
           rd_ok \<lparr>recipient_id = rid, pkt_data = data\<rparr>)))"

fun packets_serialize :: "discovery_prims \<Rightarrow> packets \<Rightarrow> (protocol_error, bytes) result" where
  "packets_serialize P Request = Inr []"
| "packets_serialize P (Response r) = Inr (response_serialize P r)"
| "packets_serialize P (Message m) = message_packet_serialize m"

record header =
  packet_id :: u16
  sender_id :: u64

definition header_serialize :: "header \<Rightarrow> bytes" where
  "header_serialize h = write_u16 (packet_id h) @ write_u64 (sender_id h) @ replicate 8 0"

definition header_deserialize :: "header codec_reader" where
  "header_deserialize =
     rd_bind read_u16 (\<lambda>pid.
       rd_bind read_u64 (\<lambda>sid.
         rd_bind (read_exact 8) (\<lambda>_.
           rd_ok \<lparr>packet_id = pid, sender_id = sid\<rparr>)))"

text \<open>The size estimates of the four formats.\<close>

definition request_size_hint :: nat where "request_size_hint = 0"

definition response_size_hint :: "response_packet \<Rightarrow> nat" where
  "response_size_hint r = 4 + length (application_data r) * 2"

definition message_packet_size_hint :: "message_packet \<Rightarrow> nat" where
  "message_packet_size_hint m = 8 + 4 + length (pkt_data m)"

definition header_size_hint :: "header \<Rightarrow> nat" where
  "header_size_hint h = 2 + 8 + 8"

definition packet_encode :: "discovery_prims \<Rightarrow> packets \<Rightarrow> u64 \<Rightarrow> (protocol_error, bytes) result" where
  "packet_encode P packet sid =
     (let head = header_serialize \<lparr>packet_id = packets_id packet, sender_id = sid\<rparr> in
      res_bind (packets_serialize P packet) (\<lambda>body.
        let data_len = length (head @ body) in
        if data_len > 65535 then Inl (MessageSizeExceeded data_len)
        else let payload = write_u16 (of_nat data_len) @ head @ body
             in Inr (compute_checksum P payload @ encrypt P payload)))"

definition packet_body :: "discovery_prims \<Rightarrow> u16 \<Rightarrow> packets codec_reader" where
  "packet_body P pid =
     (if pid = ID_REQUEST_PACKET then rd_ok Request
      else if pid = ID_RESPONSE_PACKET then rd_bind (response_deserialize P) (\<lambda>r. rd_ok (Response r))
      else if pid = ID_MESSAGE_PACKET then rd_bind message_packet_deserialize (\<lambda>m. rd_ok (Message m))
      else rd_err (Other (''unknown packet ID: '' @ dec (unat pid))))"

definition packet_decode :: "discovery_prims \<Rightarrow> bytes \<Rightarrow> (protocol_error, packets \<times> u64) result" where
  "packet_decode P data =
     (if length data < 32 then Inl (Other ''packet too short'')
      else let checksum = take 32 data in
        res_bind (decrypt P (drop 32 data)) (\<lambda>payload.
          if \<not> verify_checksum P payload checksum then Inl (Other ''checksum mismatch'')
          else res_bind
            (rd_bind read_u16 (\<lambda>length_field.
               rd_bind header_deserialize (\<lambda>head.
                 rd_bind (packet_body P (packet_id head)) (\<lambda>packet.
                   rd_ok (packet, sender_id head)))) payload)
            (\<lambda>((packet, sid), rest).
               if rest \<noteq> []
               then Inl (Other (''trailing data in packet: '' @ dec (length rest) @
                 '' remaining bytes out of '' @ dec (length payload) @ '' total payload bytes''))
               else Inr (packet, sid))))"

text \<open>The packets the program can hold: a signal's text is a \<open>String\<close>.\<close>

fun packet_wf :: "packets \<Rightarrow> bool" where
  "packet_wf Request = True"
| "packet_wf (Response r) = True"
| "packet_wf (Message m) = is_str (pkt_data m)"


subsection \<open>A concrete instance of the external functions\<close>

text \<open>Base 16 as the hex crate writes it, a fixed digest, a block cipher that reverses the block, and a tag that is
  the length of the data: enough to satisfy the laws, used where a theorem is applied to a concrete input.\<close>

definition hex_digit :: "nat \<Rightarrow> u8" where
  "hex_digit n = of_nat (if n < 10 then 48 + n else 87 + n)"

definition hex_value :: "u8 \<Rightarrow> nat option" where
  "hex_value c = (let n = unat c in
     if 48 \<le> n \<and> n \<le> 57 then Some (n - 48)
     else if 97 \<le> n \<and> n \<le> 102 then Some (n - 87)
     else if 65 \<le> n \<and> n \<le> 70 then Some (n - 55) else None)"

fun base16_encode :: "bytes \<Rightarrow> bytes" where
  "base16_encode [] = []"
| "base16_encode (b # bs) = hex_digit (unat b div 16) # hex_digit (unat b mod 16) # base16_encode bs"

fun base16_decode :: "bytes \<Rightarrow> bytes option" where
  "base16_decode [] = Some []"
| "base16_decode [x] = None"
| "base16_decode (x # y # r) =
     opt_bind (hex_value x) (\<lambda>h. opt_bind (hex_value y) (\<lambda>l.
       map_option (\<lambda>bs. of_nat (16 * h + l) # bs) (base16_decode r)))"

definition sample_prims :: discovery_prims where
  "sample_prims = \<lparr>
     sha256 = (\<lambda>d. replicate 32 7),
     aes256_encrypt_block = (\<lambda>k b. rev b),
     aes256_decrypt_block = (\<lambda>k b. rev b),
     hmac_sha256 = (\<lambda>k d. replicate 32 (of_nat (length d))),
     hmac_sha256_verify = (\<lambda>k d t. t = replicate 32 (of_nat (length d))),
     hex_encode = base16_encode,
     hex_decode = base16_decode\<rparr>"


section \<open>Lemmas\<close>

lemma chunks_Nil [simp]: "chunks n [] = []"
  by (subst chunks.simps) simp

lemma concat_chunks: "0 < n \<Longrightarrow> concat (chunks n xs) = xs"
proof (induction n xs rule: chunks.induct)
  case (1 n xs)
  then show ?case
    by (subst chunks.simps) (cases "xs = []"; simp)
qed

lemma chunks_concat:
  assumes "0 < n" "list_all (\<lambda>b. length b = n) bs"
  shows "chunks n (concat bs) = bs"
  using assms(2)
proof (induction bs)
  case (Cons b bs)
  with assms(1) show ?case
    by (subst chunks.simps) auto
qed simp

lemma chunks_lengths:
  "0 < n \<Longrightarrow> length xs mod n = 0 \<Longrightarrow> list_all (\<lambda>b. length b = n) (chunks n xs)"
proof (induction n xs rule: chunks.induct)
  case (1 n xs)
  show ?case
  proof (cases "xs = []")
    case False
    with 1 have "n \<le> length xs"
      by (metis length_0_conv mod_less not_le)
    moreover from this 1 have "length (drop n xs) mod n = 0"
      by (simp add: le_mod_geq)
    ultimately show ?thesis
      using 1 False by (subst chunks.simps) simp
  qed simp
qed

lemma length_concat_blocks: "list_all (\<lambda>b. length b = n) bs \<Longrightarrow> length (concat bs) = n * length bs"
  by (induction bs) auto

lemma key_length: "prims_ok P \<Longrightarrow> length (ENCRYPTION_KEY P) = 32"
  by (simp add: ENCRYPTION_KEY_def prims_ok_def)

lemma aes_laws:
  assumes "prims_ok P" "length b = 16"
  shows "length (aes256_encrypt_block P (ENCRYPTION_KEY P) b) = 16"
    and "aes256_decrypt_block P (ENCRYPTION_KEY P) (aes256_encrypt_block P (ENCRYPTION_KEY P) b) = b"
  using assms key_length [OF assms(1)] by (auto simp: prims_ok_def)

text \<open>The blocks of an encrypted buffer are the encryptions of its blocks.\<close>

lemma encrypt_blocks_chunks:
  assumes "prims_ok P" "length buf mod BLOCK_SIZE = 0"
  shows "chunks BLOCK_SIZE (encrypt_blocks P buf) =
      map (aes256_encrypt_block P (ENCRYPTION_KEY P)) (chunks BLOCK_SIZE buf)"
    and "length (encrypt_blocks P buf) = length buf"
proof -
  have blocks: "list_all (\<lambda>b. length b = BLOCK_SIZE) (chunks BLOCK_SIZE buf)"
    using chunks_lengths [of BLOCK_SIZE buf] assms(2) by (simp add: BLOCK_SIZE_def)
  then have mapped: "list_all (\<lambda>b. length b = BLOCK_SIZE)
      (map (aes256_encrypt_block P (ENCRYPTION_KEY P)) (chunks BLOCK_SIZE buf))"
    using aes_laws(1) [OF assms(1)] by (auto simp: list_all_iff BLOCK_SIZE_def)
  then show "chunks BLOCK_SIZE (encrypt_blocks P buf) =
      map (aes256_encrypt_block P (ENCRYPTION_KEY P)) (chunks BLOCK_SIZE buf)"
    unfolding encrypt_blocks_def by (intro chunks_concat) (simp_all add: BLOCK_SIZE_def)
  have "length buf = BLOCK_SIZE * length (chunks BLOCK_SIZE buf)"
    using length_concat_blocks [OF blocks] concat_chunks [of BLOCK_SIZE buf] by (simp add: BLOCK_SIZE_def)
  with length_concat_blocks [OF mapped] show "length (encrypt_blocks P buf) = length buf"
    by (simp add: encrypt_blocks_def)
qed

lemma decrypt_encrypt_blocks:
  assumes "prims_ok P" "length buf mod BLOCK_SIZE = 0"
  shows "decrypt_blocks P (encrypt_blocks P buf) = buf"
proof -
  have blocks: "list_all (\<lambda>b. length b = 16) (chunks BLOCK_SIZE buf)"
    using chunks_lengths [of BLOCK_SIZE buf] assms(2) by (simp add: BLOCK_SIZE_def)
  have "map (\<lambda>b. aes256_decrypt_block P (ENCRYPTION_KEY P) (aes256_encrypt_block P (ENCRYPTION_KEY P) b))
      (chunks BLOCK_SIZE buf) = chunks BLOCK_SIZE buf"
    by (intro map_idI aes_laws(2) [OF assms(1)]) (use blocks in \<open>simp add: list_all_iff\<close>)
  moreover have "concat (chunks BLOCK_SIZE buf) = buf"
    by (rule concat_chunks) (simp add: BLOCK_SIZE_def)
  ultimately show ?thesis
    by (simp only: decrypt_blocks_def encrypt_blocks_chunks [OF assms] map_map comp_def)
qed

lemma or_eq_zero: "(a OR b = 0) \<longleftrightarrow> a = 0 \<and> (b :: u8) = 0"
  by (rule or_eq_0_iff)

lemma xor_eq_zero: "(a XOR b = 0) \<longleftrightarrow> a = (b :: u8)"
  by (auto simp: bit_eq_iff bit_xor_iff)

text \<open>The constant-time comparison accepts exactly when every padding byte is the padding length.\<close>

lemma mismatch_zero:
  "foldl (\<lambda>m byte. m OR (byte XOR p)) acc xs = (0 :: u8) \<longleftrightarrow> acc = 0 \<and> (\<forall>x \<in> set xs. x = p)"
  by (induction xs arbitrary: acc) (auto simp: or_eq_zero xor_eq_zero)

lemma padding_len_bounds:
  "1 \<le> BLOCK_SIZE - n mod BLOCK_SIZE" "BLOCK_SIZE - n mod BLOCK_SIZE \<le> 16"
  by (simp_all add: BLOCK_SIZE_def)

lemma pad_to_block: "n + (16 - n mod 16) = 16 * (n div 16 + 1)" for n :: nat
  by presburger

lemma padded_length:
  "(length buf + (BLOCK_SIZE - length buf mod BLOCK_SIZE)) mod BLOCK_SIZE = 0"
  by (simp add: BLOCK_SIZE_def pad_to_block)

lemma decrypt_encrypt:
  assumes "prims_ok P"
  shows "decrypt P (encrypt P buf) = Inr buf"
proof -
  define n where "n = BLOCK_SIZE - length buf mod BLOCK_SIZE"
  define padded where "padded = buf @ replicate n (of_nat n :: u8)"
  have n: "1 \<le> n" "n \<le> 16"
    using padding_len_bounds [of "length buf"] by (simp_all add: n_def)
  then have unat_n: "unat (of_nat n :: u8) = n"
    by (simp add: unat_of_nat take_bit_nat_eq_self_iff)
  have aligned: "length padded mod BLOCK_SIZE = 0"
    using padded_length [of buf] by (simp add: padded_def n_def)
  have enc: "encrypt P buf = encrypt_blocks P padded"
    by (simp add: encrypt_def padded_def n_def Let_def)
  have plain: "decrypt_blocks P (encrypt P buf) = padded"
    using decrypt_encrypt_blocks [OF assms aligned] enc by simp
  have len: "length (encrypt P buf) = length padded" "length padded = length buf + n"
    using encrypt_blocks_chunks(2) [OF assms aligned] enc by (simp_all add: padded_def)
  have last: "padded \<noteq> []" "last padded = of_nat n"
    using n by (simp_all add: padded_def)
  have pos: "(of_nat n :: u8) > 0"
    using n unat_n by (metis not_one_le_zero unsigned_0 word_gt_0)
  have start: "take (length padded - n) padded = buf"
      "drop (length padded - n) padded = replicate n (of_nat n)"
    by (simp_all add: padded_def)
  have "encrypt P buf \<noteq> []" "length (encrypt P buf) mod BLOCK_SIZE = 0"
    using len aligned n by auto
  then show ?thesis
    using n last pos start len
    by (simp add: decrypt_def plain Let_def unat_n mismatch_zero BLOCK_SIZE_def)
qed

lemma length_encrypt:
  assumes "prims_ok P"
  shows "length (encrypt P buf) = 16 * (length buf div 16 + 1)"
proof -
  let ?n = "BLOCK_SIZE - length buf mod BLOCK_SIZE"
  have "length (encrypt P buf) = length (buf @ replicate ?n (of_nat ?n :: u8))"
    unfolding encrypt_def Let_def using padded_length [of buf]
    by (intro encrypt_blocks_chunks(2) [OF assms]) simp
  then show ?thesis
    by (simp add: BLOCK_SIZE_def pad_to_block)
qed

subsection \<open>Packets\<close>

interpretation header_codec: wire_codec "\<lambda>_. True" header_serialize header_deserialize
  by unfold_locales
    (simp add: header_serialize_def header_deserialize_def u16_codec.read_then u64_codec.read_then
      read_exact_append)

lemma length_header_serialize [simp]: "length (header_serialize h) = 18"
  by (simp add: header_serialize_def)

lemma hex_laws:
  assumes "prims_ok P"
  shows "length (hex_encode P a) = 2 * length a"
    and "hex_encode P (a @ b) = hex_encode P a @ hex_encode P b"
    and "hex_decode P (hex_encode P a) = Some a"
  using assms by (auto simp: prims_ok_def)

lemma hex_encode_Nil: "prims_ok P \<Longrightarrow> hex_encode P [] = []"
  using hex_laws(1) [of P "[]"] by simp

lemma hex_concat: "prims_ok P \<Longrightarrow> concat (map (hex_encode P) bs) = hex_encode P (concat bs)"
  by (induction bs) (simp_all add: hex_encode_Nil hex_laws(2))

text \<open>Encoding in pieces of 512 bytes gives the hex text of the whole.\<close>

lemma response_serialize_hex:
  "prims_ok P \<Longrightarrow> response_serialize P r =
     write_u32 (of_nat (2 * length (application_data r))) @ hex_encode P (application_data r)"
  by (simp add: response_serialize_def hex_concat concat_chunks mult.commute Let_def)

lemma response_read_back:
  assumes "prims_ok P" "2 * length (application_data r) \<le> MAX_BYTES"
  shows "response_deserialize P (response_serialize P r @ rest) = Inr (r, rest)"
proof -
  let ?hex = "hex_encode P (application_data r)"
  have "write_bytes_u32 ?hex = Inr (response_serialize P r)"
    using assms by (simp add: write_bytes_u32_def response_serialize_hex hex_laws(1))
  then have "read_bytes_u32 (response_serialize P r @ rest) = Inr (?hex, rest)"
    by (rule read_bytes_u32_written)
  then show ?thesis
    using assms(1) by (simp add: response_deserialize_def hex_laws(3))
qed

lemma message_packet_read_back:
  assumes "message_packet_serialize m = Inr out" "is_str (pkt_data m)"
  shows "message_packet_deserialize (out @ rest) = Inr (m, rest)"
proof -
  from assms(1) obtain field where "write_bytes_u32 (as_bytes (pkt_data m)) = Inr field"
    and "out = write_u64 (recipient_id m) @ field"
    by (auto simp: message_packet_serialize_def res_simps)
  then show ?thesis
    using assms(2) read_bytes_u32_written [of "as_bytes (pkt_data m)" field rest]
    by (simp add: message_packet_deserialize_def u64_codec.read_then)
qed

lemma packet_body_read_back:
  assumes "prims_ok P" "packet_wf p" "packets_serialize P p = Inr body" "length body \<le> 65535"
  shows "packet_body P (packets_id p) body = Inr (p, [])"
proof (cases p)
  case Request
  with assms show ?thesis
    by (simp add: packet_body_def)
next
  case (Response r)
  with assms have "2 * length (application_data r) \<le> MAX_BYTES"
    by (auto simp: response_serialize_hex hex_laws(1) MAX_BYTES_def)
  with assms Response response_read_back [of P r "[]"] show ?thesis
    by (simp add: packet_body_def ID_REQUEST_PACKET_def ID_RESPONSE_PACKET_def)
next
  case (Message m)
  with assms message_packet_read_back [of m body "[]"] show ?thesis
    by (simp add: packet_body_def ID_REQUEST_PACKET_def ID_RESPONSE_PACKET_def ID_MESSAGE_PACKET_def)
qed

lemma read_u16_iff: "read_u16 inp = Inr (w, rest) \<Longrightarrow> inp = write_u16 w @ rest"
  by (auto simp: read_u16_def write_u16_def rd_bind_eq_Inr read_exact_def le_bytes_from_le split: if_splits)

lemma read_u64_iff: "read_u64 inp = Inr (w, rest) \<Longrightarrow> inp = write_u64 w @ rest"
  by (auto simp: read_u64_def write_u64_def rd_bind_eq_Inr read_exact_def le_bytes_from_le split: if_splits)

lemma header_deserialize_parts:
  "header_deserialize inp = Inr (h, rest) \<Longrightarrow>
     \<exists>pad. length pad = 8 \<and> inp = write_u16 (packet_id h) @ write_u64 (sender_id h) @ pad @ rest"
  by (auto simp: header_deserialize_def rd_bind_eq_Inr read_exact_def split: if_splits
      dest!: read_u16_iff read_u64_iff)
    (metis append_take_drop_id length_take min.absorb2 not_less)

text \<open>The estimates are exact.\<close>

lemma size_hints_exact:
  "length (header_serialize h) = header_size_hint h"
  "prims_ok P \<Longrightarrow> length (response_serialize P r) = response_size_hint r"
  "message_packet_serialize m = Inr out \<Longrightarrow> length out = message_packet_size_hint m"
  by (auto simp: header_size_hint_def response_serialize_hex hex_laws(1) response_size_hint_def
      message_packet_serialize_def message_packet_size_hint_def write_bytes_u32_def res_simps split: if_splits)

lemma checksum_laws:
  assumes "prims_ok P"
  shows "length (compute_checksum P d) = 32" "verify_checksum P d t \<longleftrightarrow> t = compute_checksum P d"
  using assms by (auto simp: prims_ok_def compute_checksum_def verify_checksum_def)

lemma packet_encode_parts:
  assumes "packet_encode P p sid = Inr d"
  obtains body payload where "packets_serialize P p = Inr body"
    and "18 + length body \<le> 65535"
    and "payload = write_u16 (of_nat (18 + length body)) @
           header_serialize \<lparr>packet_id = packets_id p, sender_id = sid\<rparr> @ body"
    and "d = compute_checksum P payload @ encrypt P payload"
  using assms by (auto simp: packet_encode_def res_simps Let_def split: if_splits)

lemma packet_round_trip_lemma:
  assumes "prims_ok P" "packet_wf p" "packet_encode P p sid = Inr d"
  shows "packet_decode P d = Inr (p, sid)"
proof -
  from assms(3) obtain body payload where body: "packets_serialize P p = Inr body"
    and size: "18 + length body \<le> 65535"
    and payload: "payload = write_u16 (of_nat (18 + length body)) @
           header_serialize \<lparr>packet_id = packets_id p, sender_id = sid\<rparr> @ body"
    and d: "d = compute_checksum P payload @ encrypt P payload"
    by (rule packet_encode_parts)
  have "packet_body P (packets_id p) body = Inr (p, [])"
    using packet_body_read_back [OF assms(1,2) body] size by simp
  then show ?thesis
    using assms(1)
    by (simp add: packet_decode_def d checksum_laws decrypt_encrypt Let_def)
      (simp add: payload u16_codec.read_then header_codec.read_then)
qed

lemma packet_decode_parts:
  assumes "packet_decode P d = Inr (p, sid)"
  obtains payload where "32 \<le> length d" "decrypt P (drop 32 d) = Inr payload"
    and "verify_checksum P payload (take 32 d)"
    and "\<exists>len head. read_u16 payload = Inr (len, head) \<and>
       (\<exists>h body. header_deserialize head = Inr (h, body) \<and> sender_id h = sid \<and>
          packet_body P (packet_id h) body = Inr (p, []))"
  using assms
  by (auto simp: packet_decode_def res_simps rd_bind_eq_Inr Let_def not_less split: if_splits)

lemma length_packet_encode:
  assumes "prims_ok P" "packet_encode P p sid = Inr d"
  shows "\<exists>n \<le> 65535. length d = 32 + 16 * ((n + 2) div 16 + 1)"
proof -
  from assms(2) obtain body payload where "18 + length body \<le> 65535"
    and payload: "payload = write_u16 (of_nat (18 + length body)) @
           header_serialize \<lparr>packet_id = packets_id p, sender_id = sid\<rparr> @ body"
    and "d = compute_checksum P payload @ encrypt P payload"
    by (rule packet_encode_parts)
  moreover have "length payload = (18 + length body) + 2"
    by (simp add: payload)
  ultimately show ?thesis
    using assms(1) by (intro exI [of _ "18 + length body"]) (simp add: checksum_laws length_encrypt)
qed

text \<open>The padding check in full: what decrypts is exactly what ends in one to sixteen bytes that all
  hold their own number.\<close>

lemma last_replicate_append: "1 \<le> n \<Longrightarrow> last (xs @ replicate n x) = x"
  by (cases n) simp_all

lemma pkcs7_split:
  assumes "xs \<noteq> []" "1 \<le> n" "n \<le> length xs" "\<forall>x \<in> set (drop (length xs - n) xs). x = p"
  shows "xs = take (length xs - n) xs @ replicate n p"
proof -
  have "drop (length xs - n) xs = replicate n p"
    using assms(3,4) by (intro replicate_eqI) auto
  then show ?thesis
    by (metis append_take_drop_id)
qed

lemma decrypt_iff:
  "decrypt P buf = Inr data \<longleftrightarrow>
     buf \<noteq> [] \<and> length buf mod 16 = 0 \<and>
     (\<exists>n. 1 \<le> n \<and> n \<le> 16 \<and> decrypt_blocks P buf = data @ replicate n (of_nat n))"
proof
  let ?plain = "decrypt_blocks P buf"
  assume dec: "decrypt P buf = Inr data"
  let ?n = "unat (last ?plain)"
  from dec have "buf \<noteq> []" "length buf mod 16 = 0"
    by (auto simp: decrypt_def BLOCK_SIZE_def split: if_splits)
  moreover from dec have "?plain \<noteq> []" "last ?plain > 0" "?n \<le> 16" "?n \<le> length ?plain"
    and data: "data = take (length ?plain - ?n) ?plain"
    and same: "\<forall>x \<in> set (drop (length ?plain - ?n) ?plain). x = last ?plain"
    by (auto simp: decrypt_def BLOCK_SIZE_def Let_def mismatch_zero split: if_splits)
  moreover from this have "1 \<le> ?n"
    by (simp add: word_gt_0 Suc_le_eq unat_gt_0)
  ultimately show "buf \<noteq> [] \<and> length buf mod 16 = 0 \<and>
     (\<exists>n. 1 \<le> n \<and> n \<le> 16 \<and> ?plain = data @ replicate n (of_nat n))"
    using pkcs7_split [of ?plain ?n "last ?plain"] by (auto intro!: exI [of _ ?n])
next
  assume "buf \<noteq> [] \<and> length buf mod 16 = 0 \<and>
     (\<exists>n. 1 \<le> n \<and> n \<le> 16 \<and> decrypt_blocks P buf = data @ replicate n (of_nat n))"
  then obtain n where buf: "buf \<noteq> []" "length buf mod 16 = 0" and n: "1 \<le> n" "n \<le> 16"
    and plain: "decrypt_blocks P buf = data @ replicate n (of_nat n)"
    by auto
  have unat_n: "unat (of_nat n :: u8) = n"
    using n by (simp add: unat_of_nat take_bit_nat_eq_self_iff)
  have "(of_nat n :: u8) > 0"
    using n unat_n by (metis not_one_le_zero unsigned_0 word_gt_0)
  with buf n unat_n show "decrypt P buf = Inr data"
    by (simp add: decrypt_def plain Let_def last_replicate_append mismatch_zero BLOCK_SIZE_def)
qed

subsection \<open>The concrete instance\<close>

lemma hex_value_digit: "n < 16 \<Longrightarrow> hex_value (hex_digit n) = Some n"
  by (auto simp: hex_value_def hex_digit_def unat_of_nat take_bit_nat_eq_self_iff)

lemma base16_decode_encode: "base16_decode (base16_encode a) = Some a"
proof (induction a)
  case (Cons b bs)
  have "unat b div 16 < 16"
    using unat_bound [of b] by simp
  moreover have "of_nat (16 * (unat b div 16) + unat b mod 16) = b"
    by (simp only: mult_div_mod_eq of_nat_unat ucast_id)
  ultimately show ?case
    using Cons by (simp add: hex_value_digit del: of_nat_add of_nat_mult)
qed simp

lemma base16_encode_append: "base16_encode (a @ b) = base16_encode a @ base16_encode b"
  by (induction a) simp_all

lemma length_base16_encode: "length (base16_encode a) = 2 * length a"
  by (induction a) simp_all

lemma sample_prims_ok: "prims_ok sample_prims"
  by (simp add: prims_ok_def sample_prims_def base16_decode_encode base16_encode_append length_base16_encode)


section \<open>Properties\<close>

text \<open>C26: Every discovery packet that can be encoded is decoded to itself and its sender's id: the framing, the
  padding, the block encryption, the tag and the per-packet formats undo each other.\<close>

theorem packet_round_trip:
  assumes "prims_ok P" "packet_wf p" "packet_encode P p sid = Inr d"
  shows "packet_decode P d = Inr (p, sid)"
  using assms by (rule packet_round_trip_lemma)

theorem packet_round_trip_witness:
  "\<exists>d. packet_encode sample_prims (Message \<lparr>recipient_id = 5, pkt_data = ''CONNECTERROR 1 2''\<rparr>) 9 = Inr d \<and>
     packet_decode sample_prims d = Inr (Message \<lparr>recipient_id = 5, pkt_data = ''CONNECTERROR 1 2''\<rparr>, 9)"
proof -
  let ?p = "Message \<lparr>recipient_id = 5, pkt_data = ''CONNECTERROR 1 2''\<rparr>"
  have "\<exists>d. packet_encode sample_prims ?p 9 = Inr d"
    by (simp add: packet_encode_def message_packet_serialize_def write_bytes_u32_def MAX_BYTES_def Let_def)
  moreover have "packet_wf ?p"
    by (simp add: is_ascii_is_str)
  ultimately show ?thesis
    using packet_round_trip [OF sample_prims_ok, of ?p 9] by blast
qed

text \<open>C25: Nothing is accepted without a valid tag: a datagram that decodes starts with the HMAC of its own
  decrypted payload, and the packet and sender are read from that payload with no byte left over.\<close>

theorem packet_authentic:
  assumes "prims_ok P" "packet_decode P d = Inr (p, sid)"
  shows "\<exists>payload len body. decrypt P (drop 32 d) = Inr payload \<and>
     take 32 d = compute_checksum P payload \<and>
     (\<exists>pid pad. length pad = 8 \<and> payload = write_u16 len @ write_u16 pid @ write_u64 sid @ pad @ body \<and>
        packet_body P pid body = Inr (p, []))"
proof -
  from assms(2) obtain payload where dec: "decrypt P (drop 32 d) = Inr payload"
    and tag: "verify_checksum P payload (take 32 d)"
    and parts: "\<exists>len head. read_u16 payload = Inr (len, head) \<and>
       (\<exists>h body. header_deserialize head = Inr (h, body) \<and> sender_id h = sid \<and>
          packet_body P (packet_id h) body = Inr (p, []))"
    by (rule packet_decode_parts)
  from parts obtain len head h body where "read_u16 payload = Inr (len, head)"
    and "header_deserialize head = Inr (h, body)" and sid: "sender_id h = sid"
    and body: "packet_body P (packet_id h) body = Inr (p, [])"
    by blast
  then obtain pad where "length pad = 8"
    and "payload = write_u16 len @ write_u16 (packet_id h) @ write_u64 sid @ pad @ body"
    using read_u16_iff header_deserialize_parts by (metis append.assoc)
  with dec tag body checksum_laws(2) [OF assms(1)] show ?thesis
    by blast
qed

theorem packet_authentic_witness:
  "\<exists>d payload. packet_decode sample_prims d = Inr (Request, 9) \<and>
     decrypt sample_prims (drop 32 d) = Inr payload \<and> take 32 d = compute_checksum sample_prims payload"
proof -
  obtain d where d: "packet_encode sample_prims Request 9 = Inr d"
    by (auto simp: packet_encode_def Let_def)
  have "packet_decode sample_prims d = Inr (Request, 9)"
    by (rule packet_round_trip_lemma [OF sample_prims_ok _ d]) simp
  from this packet_authentic [OF sample_prims_ok this] show ?thesis
    by blast
qed

text \<open>Decryption accepts exactly PKCS7 padding: a ciphertext of whole blocks whose plaintext ends in
  n bytes of value n, for n from 1 to 16, and it returns what precedes them.  In particular the
  constant-time comparison loop is the comparison of every padding byte.\<close>

lemma decrypt_is_pkcs7:
  "decrypt P buf = Inr data \<longleftrightarrow>
     buf \<noteq> [] \<and> length buf mod 16 = 0 \<and>
     (\<exists>n. 1 \<le> n \<and> n \<le> 16 \<and> decrypt_blocks P buf = data @ replicate n (of_nat n))"
  by (rule decrypt_iff)

text \<open>The size of a datagram: the tag and whole cipher blocks, between 64 and 65584 bytes.  The largest are
  larger than a UDP datagram and than the receive buffer of 65535 bytes.\<close>

lemma datagram_size:
  assumes "prims_ok P" "packet_encode P p sid = Inr d"
  shows "length d mod 16 = 0 \<and> 64 \<le> length d \<and> length d \<le> 65584"
proof -
  from assms(2) obtain body payload where "18 + length body \<le> 65535"
    and payload: "payload = write_u16 (of_nat (18 + length body)) @
           header_serialize \<lparr>packet_id = packets_id p, sender_id = sid\<rparr> @ body"
    and d: "d = compute_checksum P payload @ encrypt P payload"
    by (rule packet_encode_parts)
  then have "20 \<le> length payload" "length payload \<le> 65537"
    by simp_all
  then have "1 \<le> length payload div 16" "length payload div 16 \<le> 4096"
    using div_le_mono [of 20 "length payload" 16] div_le_mono [of "length payload" 65537 16] by simp_all
  moreover have "length d = 32 + 16 * (length payload div 16 + 1)"
    using assms(1) by (simp add: d checksum_laws length_encrypt)
  ultimately show ?thesis
    by simp
qed

lemma datagram_size_witness:
  "\<exists>d. packet_encode sample_prims (Response \<lparr>application_data = replicate 32756 0\<rparr>) 1 = Inr d \<and>
     length d mod 16 = 0 \<and> length d \<le> 65584 \<and> length d > 65535"
proof -
  let ?p = "Response \<lparr>application_data = replicate 32756 0\<rparr>"
  have len: "length (response_serialize sample_prims \<lparr>application_data = replicate 32756 0\<rparr>) = 65516"
    by (simp add: response_serialize_hex [OF sample_prims_ok] hex_laws(1) [OF sample_prims_ok])
  then obtain d where d: "packet_encode sample_prims ?p 1 = Inr d"
    by (auto simp: packet_encode_def Let_def)
  then obtain body payload where "packets_serialize sample_prims ?p = Inr body"
    and payload: "payload = write_u16 (of_nat (18 + length body)) @
           header_serialize \<lparr>packet_id = packets_id ?p, sender_id = 1\<rparr> @ body"
    and sent: "d = compute_checksum sample_prims payload @ encrypt sample_prims payload"
    by (rule packet_encode_parts)
  with len have "length payload = 65536"
    by simp
  then have large: "length d > 65535"
    by (simp add: sent checksum_laws(1) [OF sample_prims_ok] length_encrypt [OF sample_prims_ok])
  from datagram_size [OF sample_prims_ok d] have "length d mod 16 = 0" "length d \<le> 65584"
    by iprover+
  with d large show ?thesis
    by (intro exI [of _ d] conjI)
qed

end
