(* ===== verification/Server_Data.thy ===== *)
theory Server_Data
  imports Codec
begin

text \<open>
  \<open>nethernet/src/protocol/packet/discovery/server_data.rs\<close>: the record a server advertises, its binary form in
  versions 4 to 7, its HTTP status JSON, and the pong string it can be made from.  The JSON parser is
  serde's, so reading takes it as an argument.  Proved here: the current binary form reads back, the
  size estimate is an upper bound, what each older version leaves to defaults, which records cannot be read
  back, and that the JSON string escaping is undone by a JSON string reader.
\<close>

datatype server_data_version = V4 | V5 | V6 | V7

definition version_from_byte :: "u8 \<Rightarrow> (protocol_error, server_data_version) result" where
  "version_from_byte b =
     (if b = 4 then Inr V4 else if b = 5 then Inr V5 else if b = 6 then Inr V6 else if b = 7 then Inr V7
      else Inl (Other (''unsupported version: got '' @ dec (unat b))))"

fun version_as_byte :: "server_data_version \<Rightarrow> u8" where
  "version_as_byte V4 = 4"
| "version_as_byte V5 = 5"
| "version_as_byte V6 = 6"
| "version_as_byte V7 = 7"

definition CURRENT_VERSION :: server_data_version where "CURRENT_VERSION = V7"

record server_data =
  server_name :: string
  level_name :: string
  game_type :: u8
  player_count :: i32
  max_player_count :: i32
  editor_world :: bool
  hardcore :: bool
  flag_a :: bool
  flag_b :: bool
  session_id :: string
  transport_layer :: u8
  connection_type :: u8
  protocol_version :: u32
  game_version :: string

definition server_data_new :: "string \<Rightarrow> string \<Rightarrow> server_data" where
  "server_data_new name level = \<lparr>
     server_name = name, level_name = level, game_type = 0, player_count = 1, max_player_count = 8,
     editor_world = False, hardcore = False, flag_a = True, flag_b = True, session_id = '''',
     transport_layer = 2, connection_type = 4, protocol_version = 0, game_version = ''''\<rparr>"

subsection \<open>JSON\<close>

definition lower_hex :: "nat \<Rightarrow> char" where
  "lower_hex n = char_of (if n < 10 then 48 + n else 87 + n)"

text \<open>The format \<open>\u{:04x}\<close> of a character below 0x20.\<close>

definition unicode_escape :: "nat \<Rightarrow> string" where
  "unicode_escape n = [CHR 0x5C, CHR ''u'', CHR ''0'', CHR ''0'', lower_hex (n div 16), lower_hex (n mod 16)]"

definition escape_char :: "char \<Rightarrow> string" where
  "escape_char c =
     (if c = CHR 0x22 then [CHR 0x5C, CHR 0x22]
      else if c = CHR 0x5C then [CHR 0x5C, CHR 0x5C]
      else if c = CHR 0x0A then [CHR 0x5C, CHR ''n'']
      else if c = CHR 0x0D then [CHR 0x5C, CHR ''r'']
      else if c = CHR 0x09 then [CHR 0x5C, CHR ''t'']
      else if of_char c < (0x20 :: nat) then unicode_escape (of_char c)
      else [c])"

definition escape :: "string \<Rightarrow> string" where
  "escape s = [CHR 0x22] @ concat (map escape_char s) @ [CHR 0x22]"

definition json_key :: "string \<Rightarrow> string" where
  "json_key k = [CHR 0x22] @ k @ [CHR 0x22] @ '':''"

definition server_data_to_json :: "server_data \<Rightarrow> string" where
  "server_data_to_json d =
     CHR 0x7B # json_key ''name'' @ escape (server_name d) @
     '','' @ json_key ''protocol'' @ u32_to_string (protocol_version d) @
     '','' @ json_key ''version'' @ escape (game_version d) @
     '','' @ json_key ''level'' @ escape (level_name d) @
     '','' @ json_key ''players'' @ i32_to_string (player_count d) @
     '','' @ json_key ''maxPlayers'' @ i32_to_string (max_player_count d) @
     '','' @ json_key ''gameType'' @ dec (unat (game_type d)) @ [CHR 0x7D]"

record json_status =
  js_name :: string
  js_protocol :: u32
  js_version :: string
  js_level :: string
  js_players :: i32
  js_max_players :: i32
  js_game_type :: u8

definition server_data_from_json ::
  "(string \<Rightarrow> json_status option) \<Rightarrow> string \<Rightarrow> (protocol_error, server_data) result" where
  "server_data_from_json serde_status json =
     res_bind (ok_or (Other ''invalid server data JSON: '') (serde_status json)) (\<lambda>status.
       Inr ((server_data_new (js_name status) (js_level status))
         \<lparr>protocol_version := js_protocol status, game_version := js_version status,
          player_count := js_players status, max_player_count := js_max_players status,
          game_type := js_game_type status\<rparr>))"

subsection \<open>Pong data\<close>

definition game_type_of :: "string \<Rightarrow> u8" where
  "game_type_of mode =
     (let m = to_ascii_lowercase (trim mode) in
      if m = ''creative'' then 1 else if m = ''adventure'' then 2 else if m = ''spectator'' then 6 else 0)"

definition unwrap_or :: "'a \<Rightarrow> 'a option \<Rightarrow> 'a" where
  "unwrap_or d x = (case x of None \<Rightarrow> d | Some v \<Rightarrow> v)"

definition server_data_from_pong_data :: "bytes \<Rightarrow> (protocol_error, server_data) result" where
  "server_data_from_pong_data data =
     res_bind (ok_or (Other ''invalid pong data UTF-8: '') (from_utf8 data)) (\<lambda>pong.
       let parts = split_on CHR '';'' pong in
       if length parts < 9
       then Inl (Other (''unexpected pong data format: '' @ dec (length parts) @ '' fields, expected at least 9''))
       else Inr \<lparr>
         server_name = parts ! 1, level_name = parts ! 7, game_type = game_type_of (parts ! 8),
         player_count = unwrap_or 0 (parse_i32 (parts ! 4)),
         max_player_count = unwrap_or 0 (parse_i32 (parts ! 5)),
         editor_world = False, hardcore = False, flag_a = True, flag_b = True, session_id = '''',
         transport_layer = 2, connection_type = 4,
         protocol_version = unwrap_or 0 (parse_u32 (parts ! 2)), game_version = parts ! 3\<rparr>)"

subsection \<open>Binary form\<close>

definition bool_byte :: "bool \<Rightarrow> u8" where
  "bool_byte b = (if b then 1 else 0)"

definition server_data_serialize :: "server_data \<Rightarrow> bytes" where
  "server_data_serialize d =
     [version_as_byte CURRENT_VERSION] @
     write_bytes_varuint (as_bytes (server_name d)) @
     write_varint32 (protocol_version d) @
     write_bytes_varuint (as_bytes (game_version d)) @
     write_bytes_varuint (as_bytes (level_name d)) @
     write_varint32 (player_count d) @
     write_varint32 (max_player_count d) @
     write_varint32 (ucast (game_type d)) @
     [bool_byte (editor_world d)] @ [bool_byte (hardcore d)] @ [bool_byte (flag_a d)] @ [bool_byte (flag_b d)] @
     write_bytes_varuint (as_bytes (session_id d)) @
     write_varint32 (ucast (connection_type d))"

definition read_utf8 :: "bytes codec_reader \<Rightarrow> string \<Rightarrow> string codec_reader" where
  "read_utf8 rd what =
     rd_bind rd (\<lambda>bs. rd_res (ok_or (Other (''invalid '' @ what @ '' UTF-8: '')) (from_utf8 bs)))"

definition read_string :: "string \<Rightarrow> string codec_reader" where
  "read_string what = read_utf8 read_bytes_u8 what"

definition read_var_string :: "string \<Rightarrow> string codec_reader" where
  "read_var_string what = read_utf8 read_bytes_varuint what"

definition read_name :: "server_data_version \<Rightarrow> string \<Rightarrow> string codec_reader" where
  "read_name v what = (if v = V4 \<or> v = V6 then read_string what else read_var_string what)"

definition read_game_version :: "server_data_version \<Rightarrow> (u32 \<times> string) codec_reader" where
  "read_game_version v =
     (if v = V7
      then rd_bind read_varint32 (\<lambda>protocol.
             rd_bind (read_var_string ''game version'') (\<lambda>gv. rd_ok (protocol, gv)))
      else rd_ok (0, ''''))"

text \<open>Player count, maximum and game type, in the order each version stores them.\<close>

fun read_counts :: "server_data_version \<Rightarrow> (i32 \<times> i32 \<times> i32) codec_reader" where
  "read_counts V7 =
     rd_bind read_varint32 (\<lambda>players. rd_bind read_varint32 (\<lambda>max_players.
       rd_bind read_varint32 (\<lambda>gt. rd_ok (players, max_players, gt))))"
| "read_counts V5 =
     rd_bind read_varint32 (\<lambda>gt. rd_bind read_u32 (\<lambda>players.
       rd_bind read_u32 (\<lambda>max_players. rd_ok (players, max_players, gt))))"
| "read_counts v =
     rd_bind read_u8 (\<lambda>b. rd_bind read_u32 (\<lambda>players.
       rd_bind read_u32 (\<lambda>max_players. rd_ok (players, max_players, ucast (drop_bit 1 b)))))"

definition read_bool :: "bool codec_reader" where
  "read_bool = rd_bind read_u8 (\<lambda>b. rd_ok (b \<noteq> 0))"

fun read_flags :: "server_data_version \<Rightarrow> (bool \<times> bool \<times> string) codec_reader" where
  "read_flags V4 = rd_ok (True, True, '''')"
| "read_flags V5 = rd_bind read_bool (\<lambda>a. rd_bind read_bool (\<lambda>b. rd_ok (a, b, '''')))"
| "read_flags V6 = rd_bind read_bool (\<lambda>a. rd_bind read_bool (\<lambda>b.
     rd_bind (read_string ''session id'') (\<lambda>sid. rd_ok (a, b, sid))))"
| "read_flags V7 = rd_bind read_bool (\<lambda>a. rd_bind read_bool (\<lambda>b.
     rd_bind (read_var_string ''session id'') (\<lambda>sid. rd_ok (a, b, sid))))"

fun read_layers :: "server_data_version \<Rightarrow> (i32 \<times> i32) codec_reader" where
  "read_layers V7 = rd_bind read_varint32 (\<lambda>ct. rd_ok (2, ct))"
| "read_layers V5 = rd_bind read_varint32 (\<lambda>tl. rd_bind read_varint32 (\<lambda>ct. rd_ok (tl, ct)))"
| "read_layers v = rd_bind read_u8 (\<lambda>a. rd_bind read_u8 (\<lambda>b.
     rd_ok (ucast (drop_bit 1 a), ucast (drop_bit 1 b))))"

definition u8_try_from :: "i32 \<Rightarrow> u8 option" where
  "u8_try_from v = (if 0 \<le> sint v \<and> sint v \<le> 255 then Some (ucast v) else None)"

definition to_u8 :: "i32 \<Rightarrow> string \<Rightarrow> (protocol_error, u8) result" where
  "to_u8 v what = ok_or (Other (what @ '' '' @ i32_to_string v @ '' does not fit into u8'')) (u8_try_from v)"

definition server_data_deserialize :: "server_data codec_reader" where
  "server_data_deserialize =
     rd_bind read_u8 (\<lambda>byte.
     rd_bind (rd_res (version_from_byte byte)) (\<lambda>version.
     rd_bind (read_name version ''server name'') (\<lambda>name.
     rd_bind (read_game_version version) (\<lambda>(protocol, gv).
     rd_bind (read_name version ''level name'') (\<lambda>level.
     rd_bind (read_counts version) (\<lambda>(players, max_players, gt).
     rd_bind (rd_res (to_u8 gt ''game type'')) (\<lambda>game.
     rd_bind read_bool (\<lambda>editor.
     rd_bind read_bool (\<lambda>hard.
     rd_bind (read_flags version) (\<lambda>(fa, fb, sid).
     rd_bind (read_layers version) (\<lambda>(tl, ct).
     rd_bind (rd_res (to_u8 tl ''transport layer'')) (\<lambda>layer.
     rd_bind (rd_res (to_u8 ct ''connection type'')) (\<lambda>conn.
       rd_ok \<lparr>
         server_name = name, level_name = level, game_type = game,
         player_count = players, max_player_count = max_players,
         editor_world = editor, hardcore = hard, flag_a = fa, flag_b = fb, session_id = sid,
         transport_layer = layer, connection_type = conn,
         protocol_version = protocol, game_version = gv\<rparr>)))))))))))))"

definition server_data_decode :: "bytes \<Rightarrow> (protocol_error, server_data) result" where
  "server_data_decode data =
     res_bind (server_data_deserialize data) (\<lambda>(d, rest).
       if rest \<noteq> [] then Inl (Other (''unread '' @ dec (length rest) @ '' bytes'')) else Inr d)"

definition server_data_size_hint :: "server_data \<Rightarrow> nat" where
  "server_data_size_hint d =
     1 + 5 + length (server_name d) + 5 + 5 + length (game_version d) + 5 + length (level_name d) +
     5 + 5 + 5 + 4 + 5 + length (session_id d) + 5"

text \<open>The records the program can hold whose strings fit a field.\<close>

definition server_data_wf :: "server_data \<Rightarrow> bool" where
  "server_data_wf d \<longleftrightarrow>
     list_all (\<lambda>s. is_str s \<and> length s \<le> MAX_BYTES)
       [server_name d, game_version d, level_name d, session_id d]"

subsection \<open>A JSON string reader\<close>

text \<open>The part of RFC 8259 the escaping is measured against: the content of a string token up to its closing
  quote, with four-digit escapes of ASCII characters only.\<close>

definition hex_digit_val :: "char \<Rightarrow> nat option" where
  "hex_digit_val c = (let n = of_char c :: nat in
     if 48 \<le> n \<and> n \<le> 57 then Some (n - 48)
     else if 97 \<le> n \<and> n \<le> 102 then Some (n - 87)
     else if 65 \<le> n \<and> n \<le> 70 then Some (n - 55) else None)"

fun json_string_tail :: "string \<Rightarrow> (string \<times> string) option" where
  "json_string_tail (c # rest) =
     (if c = CHR 0x22 then Some ([], rest)
      else if of_char c < (0x20 :: nat) then None
      else if c = CHR 0x5C then
        (case rest of
           e # rest' \<Rightarrow>
             if e = CHR ''u'' then
               (case rest' of
                  a # b # x # y # rest'' \<Rightarrow>
                    (case (hex_digit_val a, hex_digit_val b, hex_digit_val x, hex_digit_val y) of
                       (Some 0, Some 0, Some h, Some l) \<Rightarrow>
                         if 16 * h + l < 128
                         then map_option (\<lambda>(s, r). (char_of (16 * h + l) # s, r)) (json_string_tail rest'')
                         else None
                     | _ \<Rightarrow> None)
                | _ \<Rightarrow> None)
             else
               (case map_of [(CHR 0x22, CHR 0x22), (CHR 0x5C, CHR 0x5C), (CHR ''/'', CHR ''/''),
                   (CHR ''b'', CHR 0x08), (CHR ''f'', CHR 0x0C), (CHR ''n'', CHR 0x0A),
                   (CHR ''r'', CHR 0x0D), (CHR ''t'', CHR 0x09)] e of
                  Some plain \<Rightarrow> map_option (\<lambda>(s, r). (plain # s, r)) (json_string_tail rest')
                | None \<Rightarrow> None)
         | [] \<Rightarrow> None)
      else map_option (\<lambda>(s, r). (c # s, r)) (json_string_tail rest))"
| "json_string_tail [] = None"

definition json_string :: "string \<Rightarrow> (string \<times> string) option" where
  "json_string s = (case s of c # rest \<Rightarrow> if c = CHR 0x22 then json_string_tail rest else None | [] \<Rightarrow> None)"

declare json_string_tail.simps(1) [simp del]


section \<open>Lemmas\<close>

subsection \<open>Strings and small integers\<close>

interpretation var_string_codec:
  wire_codec "\<lambda>s. is_str s \<and> length s \<le> MAX_BYTES" "\<lambda>s. write_bytes_varuint (as_bytes s)" "read_var_string what"
  by unfold_locales (simp add: read_var_string_def read_utf8_def bytes_varuint_codec.read_then)

interpretation bool_codec: wire_codec "\<lambda>_. True" "\<lambda>b. [bool_byte b]" read_bool
  by unfold_locales (simp add: read_bool_def bool_byte_def)

lemma read_bool_byte [simp]: "read_bool (bool_byte b # rest) = Inr (b, rest)"
  using bool_codec.read_back [of b rest] by simp

lemma sint_ucast_u8: "sint (ucast (b :: u8) :: i32) = uint b"
proof -
  have b: "uint b < 256" "0 \<le> uint b"
    using uint_bounded [of b] by simp_all
  then have "uint (ucast b :: i32) = uint b"
    by (simp add: unsigned_ucast_eq take_bit_int_eq_self_iff)
  with b show ?thesis
    by (simp add: sint_uint signed_take_bit_int_eq_self_iff) (rule order_trans [of _ 0], simp_all)
qed

lemma u8_try_from_ucast [simp]: "u8_try_from (ucast (b :: u8)) = Some b"
proof -
  have "uint b \<le> 255"
    using uint_bounded [of b] by simp
  moreover have "ucast (ucast b :: i32) = b"
    by (rule bit_word_eqI) (auto simp: bit_ucast_iff)
  ultimately show ?thesis
    by (simp add: u8_try_from_def sint_ucast_u8)
qed

lemma to_u8_ucast [simp]: "to_u8 (ucast (b :: u8)) what = Inr b"
  by (simp add: to_u8_def)

lemma to_u8_2 [simp]: "to_u8 2 what = Inr 2"
  using to_u8_ucast [of 2 what] by simp

subsection \<open>The binary form\<close>

lemma server_data_read_back:
  assumes "server_data_wf d"
  shows "server_data_deserialize (server_data_serialize d @ rest) = Inr (d\<lparr>transport_layer := 2\<rparr>, rest)"
  using assms
  by (simp add: server_data_deserialize_def server_data_serialize_def server_data_wf_def CURRENT_VERSION_def
      version_from_byte_def read_name_def read_game_version_def var_string_codec.read_then
      varint_codec.read_then bool_codec.read_then)

lemma server_data_decode_serialize:
  "server_data_wf d \<Longrightarrow> server_data_decode (server_data_serialize d) = Inr (d\<lparr>transport_layer := 2\<rparr>)"
  using server_data_read_back [of d "[]"] by (simp add: server_data_decode_def)

lemma length_write_bytes_varuint: "length (write_bytes_varuint bs) \<le> 5 + length bs"
  using write_varuint32_length by (simp add: write_bytes_varuint_def)

lemma length_write_varint32: "length (write_varint32 v) \<le> 5"
  by (simp only: write_varint32_def write_varuint32_length)

lemma server_data_size: "length (server_data_serialize d) \<le> server_data_size_hint d"
  using length_write_bytes_varuint [of "as_bytes (server_name d)"]
    length_write_bytes_varuint [of "as_bytes (game_version d)"]
    length_write_bytes_varuint [of "as_bytes (level_name d)"]
    length_write_bytes_varuint [of "as_bytes (session_id d)"]
    length_write_varint32 [of "protocol_version d"] length_write_varint32 [of "player_count d"]
    length_write_varint32 [of "max_player_count d"] length_write_varint32 [of "ucast (game_type d)"]
    length_write_varint32 [of "ucast (connection_type d)"]
  by (simp add: server_data_serialize_def server_data_size_hint_def)

lemma server_data_decode_version:
  assumes "server_data_decode bs = Inr d"
  obtains b rest where "bs = b # rest" "b \<in> {4, 5, 6, 7}"
  using assms
  by (cases bs) (auto simp: server_data_decode_def server_data_deserialize_def res_simps rd_bind_eq_Inr
      version_from_byte_def split: if_splits)

text \<open>What a record of an older version cannot carry is filled in.\<close>

lemma server_data_decode_defaults:
  assumes "server_data_decode (b # rest) = Inr d"
  shows "b = 4 \<Longrightarrow> flag_a d \<and> flag_b d \<and> session_id d = '''' \<and> protocol_version d = 0 \<and> game_version d = ''''"
    and "b = 5 \<Longrightarrow> session_id d = '''' \<and> protocol_version d = 0 \<and> game_version d = ''''"
    and "b = 6 \<Longrightarrow> protocol_version d = 0 \<and> game_version d = ''''"
    and "b = 7 \<Longrightarrow> transport_layer d = 2"
  using assms
  by (auto simp: server_data_decode_def server_data_deserialize_def res_simps rd_bind_eq_Inr
      version_from_byte_def read_game_version_def split: if_splits)

lemma server_data_decode_long_name:
  assumes "MAX_BYTES < length (server_name d)" "length (server_name d) < 2 ^ 32"
  shows "server_data_decode (server_data_serialize d) = Inl (MessageSizeExceeded (length (server_name d)))"
proof -
  have "unat (of_nat (length (server_name d)) :: u32) = length (server_name d)"
    using assms(2) by (simp add: unat_of_nat take_bit_nat_eq_self_iff)
  with assms(1) have "read_bytes_varuint (write_bytes_varuint (as_bytes (server_name d)) @ rest) =
      Inl (MessageSizeExceeded (length (server_name d)))" for rest
    by (simp add: read_bytes_varuint_def write_bytes_varuint_def varuint_codec.read_then read_len_bytes_def)
  then show ?thesis
    by (simp add: server_data_decode_def server_data_deserialize_def server_data_serialize_def
        CURRENT_VERSION_def version_from_byte_def read_name_def read_var_string_def read_utf8_def)
qed

lemma server_data_deserialize_stream: "rd_stream server_data_deserialize"
proof -
  have [intro]: "rd_stream (read_utf8 r what)" if "rd_stream r" for r what
    unfolding read_utf8_def using that by (intro rd_stream_intros)
  have name [intro]: "rd_stream (read_string what)" "rd_stream (read_var_string what)" "rd_stream (read_name v what)" for v what
    by (auto simp: read_string_def read_var_string_def read_name_def intro: codec_streams)
  have bool [intro]: "rd_stream read_bool"
    unfolding read_bool_def by (intro rd_stream_intros codec_streams)
  have "rd_stream (read_game_version v)" "rd_stream (read_counts v)" "rd_stream (read_flags v)" "rd_stream (read_layers v)" for v
    unfolding read_game_version_def by (cases v; auto intro!: rd_stream_intros codec_streams name bool)+
  then show ?thesis
    unfolding server_data_deserialize_def
    by (auto intro!: rd_stream_intros codec_streams name bool split: prod.splits)
qed

subsection \<open>JSON strings\<close>

lemma hex_digit_val_lower: "n < 16 \<Longrightarrow> hex_digit_val (lower_hex n) = Some n"
  by (auto simp: hex_digit_val_def lower_hex_def)

lemma hex_digit_val_0 [simp]: "hex_digit_val CHR ''0'' = Some 0"
  by (simp add: hex_digit_val_def)

lemma json_unicode_escape:
  assumes "of_char c < (0x20 :: nat)"
  shows "json_string_tail (unicode_escape (of_char c) @ xs) = map_option (\<lambda>(s, r). (c # s, r)) (json_string_tail xs)"
proof -
  let ?n = "of_char c :: nat"
  have "hex_digit_val (lower_hex (?n div 16)) = Some (?n div 16)" "hex_digit_val (lower_hex (?n mod 16)) = Some (?n mod 16)"
    using assms by (simp_all add: hex_digit_val_lower)
  moreover have "16 * (?n div 16) + ?n mod 16 = ?n" "?n < 128"
    using assms by simp_all
  ultimately show ?thesis
    by (simp add: unicode_escape_def json_string_tail.simps(1))
qed

lemma json_escape_char:
  "json_string_tail (escape_char c @ xs) = map_option (\<lambda>(s, r). (c # s, r)) (json_string_tail xs)"
proof -
  consider "c \<in> {CHR 0x22, CHR 0x5C, CHR 0x0A, CHR 0x0D, CHR 0x09}"
    | "c \<notin> {CHR 0x22, CHR 0x5C, CHR 0x0A, CHR 0x0D, CHR 0x09}" "of_char c < (0x20 :: nat)"
    | "c \<notin> {CHR 0x22, CHR 0x5C}" "\<not> of_char c < (0x20 :: nat)"
    by fastforce
  then show ?thesis
  proof cases
    case 1
    then show ?thesis
      by (auto simp: escape_char_def json_string_tail.simps(1))
  next
    case 2
    then show ?thesis
      by (simp add: escape_char_def json_unicode_escape)
  next
    case 3
    then have "escape_char c = [c]"
      by (auto simp: escape_char_def)
    with 3 show ?thesis
      by (simp add: json_string_tail.simps(1))
  qed
qed

lemma json_escape: "json_string (escape s @ rest) = Some (s, rest)"
proof -
  have "json_string_tail (concat (map escape_char s) @ CHR 0x22 # rest) = Some (s, rest)"
    by (induction s) (simp_all add: json_string_tail.simps(1) [of "CHR 0x22"] json_escape_char)
  then show ?thesis
    by (simp add: json_string_def escape_def)
qed

section \<open>Properties\<close>

text \<open>C39: The binary record reads back: serializing any record whose strings fit a field and decoding the
  result gives the same record, except that the transport layer, which the current version does not
  carry, reads as 2.\<close>

theorem server_data_round_trip:
  assumes "server_data_wf d"
  shows "server_data_decode (server_data_serialize d) = Inr (d\<lparr>transport_layer := 2\<rparr>)"
  using assms by (rule server_data_decode_serialize)

theorem server_data_round_trip_witness:
  "server_data_decode (server_data_serialize
     ((server_data_new ''My Server'' ''World'')\<lparr>player_count := - 3, game_type := 6, transport_layer := 9\<rparr>)) =
   Inr ((server_data_new ''My Server'' ''World'')\<lparr>player_count := - 3, game_type := 6, transport_layer := 2\<rparr>)"
proof -
  let ?d = "(server_data_new ''My Server'' ''World'')\<lparr>player_count := - 3, game_type := 6, transport_layer := 9\<rparr>"
  have "server_data_wf ?d"
    by (simp add: server_data_wf_def server_data_new_def is_ascii_is_str MAX_BYTES_def)
  from server_data_round_trip [OF this] show ?thesis
    by simp
qed

text \<open>The size estimate is safe: a serialized record is never longer than \<open>size_hint\<close>, which allows five bytes
  for each varint.\<close>

lemma server_data_size_hint_bounds:
  "length (server_data_serialize d) \<le> server_data_size_hint d"
  by (rule server_data_size)

text \<open>Only records of versions 4 to 7 are read, to their last byte, and what an older version does not carry is
  filled in: version 4 has both flags set and no session id, versions below 7 have no game version and protocol
  0, and version 7 always has transport layer 2.  A record followed by anything is refused.\<close>

lemma server_data_decode_versions:
  assumes "server_data_decode bs = Inr d"
  shows "bs \<noteq> [] \<and> hd bs \<in> {4, 5, 6, 7} \<and>
    (hd bs = 4 \<longrightarrow> flag_a d \<and> flag_b d) \<and>
    (hd bs \<in> {4, 5} \<longrightarrow> session_id d = '''') \<and>
    (hd bs \<noteq> 7 \<longrightarrow> protocol_version d = 0 \<and> game_version d = '''') \<and>
    (hd bs = 7 \<longrightarrow> transport_layer d = 2) \<and>
    server_data_decode (bs @ x # xs) = Inl (Other (''unread '' @ dec (Suc (length xs)) @ '' bytes''))"
proof -
  from assms obtain b rest where bs: "bs = b # rest" "b \<in> {4, 5, 6, 7}"
    by (rule server_data_decode_version)
  have "server_data_deserialize bs = Inr (d, [])"
    using assms by (auto simp: server_data_decode_def res_simps split: if_splits)
  then have "server_data_deserialize (bs @ x # xs) = Inr (d, x # xs)"
    using server_data_deserialize_stream by (fastforce simp: rd_stream_def)
  then have "server_data_decode (bs @ x # xs) = Inl (Other (''unread '' @ dec (Suc (length xs)) @ '' bytes''))"
    by (simp add: server_data_decode_def)
  with bs assms server_data_decode_defaults [of b rest d] show ?thesis
    by auto
qed

lemma server_data_decode_versions_witness:
  "server_data_decode (server_data_serialize (server_data_new ''S'' ''W'') @ [0, 0]) = Inl (Other ''unread 2 bytes'')"
proof -
  have "server_data_wf (server_data_new ''S'' ''W'')"
    by (simp add: server_data_wf_def server_data_new_def is_ascii_is_str MAX_BYTES_def)
  moreover have "dec 2 = ''2''"
    by code_simp
  ultimately show ?thesis
    using server_data_decode_versions [OF server_data_decode_serialize, of "server_data_new ''S'' ''W''" 0 "[0]"]
    by (simp add: numeral_2_eq_2)
qed

text \<open>A record with a server name longer than 65535 bytes can be written but not read: the writer has no limit, the
  reader refuses the field with its size.\<close>

lemma server_data_long_name_unreadable:
  assumes "65535 < length (server_name d)" "length (server_name d) < 2 ^ 32"
  shows "server_data_decode (server_data_serialize d) = Inl (MessageSizeExceeded (length (server_name d)))"
  using assms by (intro server_data_decode_long_name) (simp_all add: MAX_BYTES_def)

lemma server_data_long_name_unreadable_witness:
  "server_data_decode (server_data_serialize (server_data_new (replicate 70000 CHR ''a'') ''World'')) =
     Inl (MessageSizeExceeded 70000)"
  using server_data_long_name_unreadable [of "server_data_new (replicate 70000 CHR ''a'') ''World''"]
  by (simp add: server_data_new_def)

text \<open>The escaping of the status JSON is faithful: whatever bytes a string holds, a JSON reader that meets its
  escaped form takes back exactly the string and stops right after it.\<close>

lemma json_escape_round_trip:
  "json_string (escape s @ rest) = Some (s, rest)"
  by (rule json_escape)

end
