(* ===== verification/Endpoint.thy ===== *)
theory Endpoint
  imports Rust_Text
begin

text \<open>
  IP addresses: the part of \<open>std::net\<close> the program uses (text form, parsing, IPv4-mapped IPv6 addresses), and
  \<open>nethernet/src/util/endpoint.rs\<close>, which parses, normalizes and classifies them.  Proved here: the
  classification by octet and segment tests is the table of address blocks it stands for, parsing
  gives normalized addresses only, and the relation between the announcement and routing tests.
\<close>

datatype ipv4 = Ipv4 u8 u8 u8 u8

datatype ipv6 = Ipv6 u16 u16 u16 u16 u16 u16 u16 u16

datatype ip_addr = IpV4 ipv4 | IpV6 ipv6

record socket_addr =
  sock_ip :: ip_addr
  sock_port :: u16

fun ipv6_segments :: "ipv6 \<Rightarrow> u16 list" where
  "ipv6_segments (Ipv6 a b c d e f g h) = [a, b, c, d, e, f, g, h]"

definition ipv6_of :: "u16 list \<Rightarrow> ipv6" where
  "ipv6_of s = Ipv6 (s ! 0) (s ! 1) (s ! 2) (s ! 3) (s ! 4) (s ! 5) (s ! 6) (s ! 7)"

definition to_ipv4_mapped :: "ipv6 \<Rightarrow> ipv4 option" where
  "to_ipv4_mapped v6 =
     (case v6 of Ipv6 a b c d e f g h \<Rightarrow>
        if a = 0 \<and> b = 0 \<and> c = 0 \<and> d = 0 \<and> e = 0 \<and> f = 0xffff
        then Some (Ipv4 (ucast (drop_bit 8 g)) (ucast g) (ucast (drop_bit 8 h)) (ucast h))
        else None)"

subsection \<open>Parsing of addresses\<close>

definition radix_digit :: "nat \<Rightarrow> char \<Rightarrow> nat option" where
  "radix_digit radix c =
     (let n = of_char c :: nat;
          d = (if 48 \<le> n \<and> n \<le> 57 then n - 48
               else if 97 \<le> n \<and> n \<le> 122 then n - 87
               else if 65 \<le> n \<and> n \<le> 90 then n - 55 else 36)
      in if d < radix then Some d else None)"

definition read_number :: "nat \<Rightarrow> nat \<Rightarrow> bool \<Rightarrow> nat \<Rightarrow> string \<Rightarrow> (nat \<times> string) option" where
  "read_number radix max_digits allow_zero_prefix bound s =
     (let ds = takeWhile (\<lambda>c. radix_digit radix c \<noteq> None) s;
          n = foldl (\<lambda>acc c. acc * radix + the (radix_digit radix c)) 0 ds
      in if ds = [] \<or> length ds > max_digits then None
         else if \<not> allow_zero_prefix \<and> hd s = CHR ''0'' \<and> length ds > 1 then None
         else if n > bound then None
         else Some (n, drop (length ds) s))"

definition read_given_char :: "char \<Rightarrow> string \<Rightarrow> string option" where
  "read_given_char c s = (case s of x # r \<Rightarrow> if x = c then Some r else None | [] \<Rightarrow> None)"

definition read_separator :: "char \<Rightarrow> nat \<Rightarrow> (string \<Rightarrow> ('a \<times> string) option) \<Rightarrow> string \<Rightarrow> ('a \<times> string) option" where
  "read_separator sep index inner s =
     (if index > 0 then opt_bind (read_given_char sep s) inner else inner s)"

definition read_octet :: "string \<Rightarrow> (nat \<times> string) option" where
  "read_octet = read_number 10 3 False 255"

definition read_ipv4 :: "string \<Rightarrow> (ipv4 \<times> string) option" where
  "read_ipv4 s =
     opt_bind (read_separator CHR ''.'' 0 read_octet s) (\<lambda>(a, s1).
     opt_bind (read_separator CHR ''.'' 1 read_octet s1) (\<lambda>(b, s2).
     opt_bind (read_separator CHR ''.'' 2 read_octet s2) (\<lambda>(c, s3).
     opt_bind (read_separator CHR ''.'' 3 read_octet s3) (\<lambda>(d, s4).
       Some (Ipv4 (of_nat a) (of_nat b) (of_nat c) (of_nat d), s4)))))"

text \<open>Up to \<open>limit\<close> groups from index \<open>i\<close> on: the groups, whether an embedded IPv4 address ended them, and the
  rest.\<close>

function read_groups :: "nat \<Rightarrow> nat \<Rightarrow> string \<Rightarrow> u16 list \<times> bool \<times> string" where
  "read_groups i limit s =
     (if i \<ge> limit then ([], False, s)
      else case (if i < limit - 1 then read_separator CHR '':'' i read_ipv4 s else None) of
        Some (Ipv4 a b c d, r) \<Rightarrow>
          ([push_bit 8 (ucast a) OR ucast b, push_bit 8 (ucast c) OR ucast d], True, r)
      | None \<Rightarrow>
          (case read_separator CHR '':'' i (read_number 16 4 True 65535) s of
             None \<Rightarrow> ([], False, s)
           | Some (g, r) \<Rightarrow>
               (case read_groups (i + 1) limit r of (gs, v4, r') \<Rightarrow> (of_nat g # gs, v4, r'))))"
  by pat_completeness auto
termination
  by (relation "measure (\<lambda>(i, limit, s). limit - i)") auto

declare read_groups.simps [simp del]

definition read_ipv6 :: "string \<Rightarrow> (ipv6 \<times> string) option" where
  "read_ipv6 s =
     (case read_groups 0 8 s of (head, head_ipv4, r) \<Rightarrow>
        if length head = 8 then Some (ipv6_of head, r)
        else if head_ipv4 then None
        else opt_bind (read_given_char CHR '':'' r) (\<lambda>r1.
          opt_bind (read_given_char CHR '':'' r1) (\<lambda>r2.
            let limit = 8 - (length head + 1) in
            case read_groups 0 limit r2 of (tail, _, r3) \<Rightarrow>
              Some (ipv6_of (head @ replicate (8 - length head - length tail) 0 @ tail), r3))))"

text \<open>\<open>str::parse::<IpAddr>\<close>.\<close>

definition parse_ip_addr :: "string \<Rightarrow> ip_addr option" where
  "parse_ip_addr s =
     (case read_ipv4 s of
        Some (a, r) \<Rightarrow> if r = [] then Some (IpV4 a) else None
      | None \<Rightarrow>
          (case read_ipv6 s of
             Some (a, r) \<Rightarrow> if r = [] then Some (IpV6 a) else None
           | None \<Rightarrow> None))"

subsection \<open>Text form of addresses\<close>

fun hex_nat :: "nat \<Rightarrow> string" where
  "hex_nat n =
     (if n < 16 then [char_of (if n < 10 then 48 + n else 87 + n)]
      else hex_nat (n div 16) @ hex_nat (n mod 16))"

declare hex_nat.simps [simp del]

fun ipv4_to_string :: "ipv4 \<Rightarrow> string" where
  "ipv4_to_string (Ipv4 a b c d) =
     dec (unat a) @ ''.'' @ dec (unat b) @ ''.'' @ dec (unat c) @ ''.'' @ dec (unat d)"

text \<open>The longest run of zero segments, the first of that length: start and length.\<close>

fun zero_run :: "nat \<Rightarrow> u16 list \<Rightarrow> nat \<times> nat \<Rightarrow> nat \<times> nat \<Rightarrow> nat \<times> nat" where
  "zero_run i [] cur longest = longest"
| "zero_run i (x # xs) cur longest =
     (if x = 0
      then let cur' = (if snd cur = 0 then (i, 1) else (fst cur, snd cur + 1))
           in zero_run (i + 1) xs cur' (if snd cur' > snd longest then cur' else longest)
      else zero_run (i + 1) xs (0, 0) longest)"

definition fmt_segments :: "u16 list \<Rightarrow> string" where
  "fmt_segments xs = join_with '':'' (map (\<lambda>x. hex_nat (unat x)) xs)"

definition ipv6_to_string :: "ipv6 \<Rightarrow> string" where
  "ipv6_to_string v6 =
     (case to_ipv4_mapped v6 of
        Some v4 \<Rightarrow> ''::ffff:'' @ ipv4_to_string v4
      | None \<Rightarrow>
          let segs = ipv6_segments v6; (start, len) = zero_run 0 segs (0, 0) (0, 0) in
          if len > 1 then fmt_segments (take start segs) @ ''::'' @ fmt_segments (drop (start + len) segs)
          else fmt_segments segs)"

fun ip_to_string :: "ip_addr \<Rightarrow> string" where
  "ip_to_string (IpV4 a) = ipv4_to_string a"
| "ip_to_string (IpV6 a) = ipv6_to_string a"

subsection \<open>endpoint.rs\<close>

datatype scope = Public | Private | Loopback | Unusable

fun normalize :: "ip_addr \<Rightarrow> ip_addr" where
  "normalize (IpV6 v6) = (case to_ipv4_mapped v6 of Some v4 \<Rightarrow> IpV4 v4 | None \<Rightarrow> IpV6 v6)"
| "normalize (IpV4 v4) = IpV4 v4"

definition ascii_hexdigit :: "char \<Rightarrow> bool" where
  "ascii_hexdigit c \<longleftrightarrow> radix_digit 16 c \<noteq> None"

definition endpoint_parse :: "string \<Rightarrow> ip_addr option" where
  "endpoint_parse s =
     (if s = [] \<or> length s > 45 \<or> \<not> list_all (\<lambda>c. ascii_hexdigit c \<or> c = CHR '':'' \<or> c = CHR ''.'') s
      then None
      else map_option normalize (parse_ip_addr s))"

fun scope_v4 :: "ipv4 \<Rightarrow> scope" where
  "scope_v4 (Ipv4 a b c d) =
     (if a = 10 \<or> (a = 172 \<and> 16 \<le> b \<and> b \<le> 31) \<or> (a = 192 \<and> b = 168) \<or> (a = 100 \<and> 64 \<le> b \<and> b \<le> 127)
      then Private
      else if a = 127 then Loopback
      else if a = 0 \<or> a \<ge> 224 \<or> (a = 169 \<and> b = 254) \<or> (a = 203 \<and> b = 0 \<and> c = 113) \<or>
        (a = 198 \<and> (b = 18 \<or> b = 19 \<or> (b = 51 \<and> c = 100))) \<or>
        (a = 192 \<and> ((b = 88 \<and> c = 99) \<or> (b = 0 \<and> (c = 2 \<or> (c = 0 \<and> d \<noteq> 9 \<and> d \<noteq> 10)))))
      then Unusable
      else Public)"

definition ipv6_is_loopback :: "ipv6 \<Rightarrow> bool" where
  "ipv6_is_loopback v6 \<longleftrightarrow> v6 = Ipv6 0 0 0 0 0 0 0 1"

definition scope_v6 :: "ipv6 \<Rightarrow> scope" where
  "scope_v6 v6 =
     (case v6 of Ipv6 a b _ _ _ _ _ _ \<Rightarrow>
        if a AND 0xfe00 = 0xfc00 then Private
        else if ipv6_is_loopback v6 then Loopback
        else if a AND 0xe000 \<noteq> 0x2000 \<or> a = 0x2002 \<or> (a = 0x2001 \<and> (b < 0x200 \<or> b = 0xdb8)) \<or>
          (a = 0x3fff \<and> b < 0x1000)
        then Unusable
        else Public)"

definition scope_of :: "ip_addr \<Rightarrow> scope" where
  "scope_of address = (case normalize address of IpV4 a \<Rightarrow> scope_v4 a | IpV6 a \<Rightarrow> scope_v6 a)"

definition advertisable :: "ip_addr \<Rightarrow> bool \<Rightarrow> bool" where
  "advertisable address local_development =
     (case scope_of address of
        Public \<Rightarrow> True | Private \<Rightarrow> True | Loopback \<Rightarrow> local_development | Unusable \<Rightarrow> False)"

definition routable :: "ip_addr \<Rightarrow> bool" where
  "routable address \<longleftrightarrow> scope_of address \<in> {Public, Private}"

subsection \<open>The blocks the classification stands for\<close>

text \<open>An IPv4 address as a number, and membership in a block given by its first octets' value and its prefix length.\<close>

fun ipv4_number :: "ipv4 \<Rightarrow> nat" where
  "ipv4_number (Ipv4 a b c d) = unat a * 2 ^ 24 + unat b * 2 ^ 16 + unat c * 2 ^ 8 + unat d"

definition in_block :: "ipv4 \<Rightarrow> nat \<Rightarrow> ipv4 \<Rightarrow> bool" where
  "in_block net len a \<longleftrightarrow> ipv4_number a div 2 ^ (32 - len) = ipv4_number net div 2 ^ (32 - len)"

definition private_blocks :: "(ipv4 \<times> nat) list" where
  "private_blocks = [(Ipv4 10 0 0 0, 8), (Ipv4 172 16 0 0, 12), (Ipv4 192 168 0 0, 16), (Ipv4 100 64 0 0, 10)]"

definition unusable_blocks :: "(ipv4 \<times> nat) list" where
  "unusable_blocks =
     [(Ipv4 0 0 0 0, 8), (Ipv4 224 0 0 0, 3), (Ipv4 169 254 0 0, 16), (Ipv4 203 0 113 0, 24),
      (Ipv4 198 18 0 0, 15), (Ipv4 198 51 100 0, 24), (Ipv4 192 88 99 0, 24), (Ipv4 192 0 2 0, 24)]"

definition in_blocks :: "(ipv4 \<times> nat) list \<Rightarrow> ipv4 \<Rightarrow> bool" where
  "in_blocks blocks a \<longleftrightarrow> list_ex (\<lambda>(net, len). in_block net len a) blocks"

definition scope_v4_table :: "ipv4 \<Rightarrow> scope" where
  "scope_v4_table a =
     (if in_blocks private_blocks a then Private
      else if in_block (Ipv4 127 0 0 0) 8 a then Loopback
      else if in_blocks unusable_blocks a \<or>
        (in_block (Ipv4 192 0 0 0) 24 a \<and> a \<noteq> Ipv4 192 0 0 9 \<and> a \<noteq> Ipv4 192 0 0 10) then Unusable
      else Public)"

definition scope_v6_table :: "ipv6 \<Rightarrow> scope" where
  "scope_v6_table v6 =
     (case v6 of Ipv6 a b _ _ _ _ _ _ \<Rightarrow>
        if unat a div 2 ^ 9 = 0xfc00 div 2 ^ 9 then Private
        else if v6 = Ipv6 0 0 0 0 0 0 0 1 then Loopback
        else if unat a div 2 ^ 13 \<noteq> 0x2000 div 2 ^ 13 \<or> unat a = 0x2002 \<or>
          (unat a = 0x2001 \<and> (unat b div 2 ^ 9 = 0 \<or> unat b = 0xdb8)) \<or>
          (unat a = 0x3fff \<and> unat b div 2 ^ 12 = 0) then Unusable
        else Public)"


section \<open>Lemmas\<close>

lemma normalize_idem [simp]: "normalize (normalize a) = normalize a"
  by (cases a) (auto split: option.splits)

lemma endpoint_parse_normalized: "endpoint_parse s = Some a \<Longrightarrow> normalize a = a"
  by (auto simp: endpoint_parse_def split: if_splits)

lemma scope_of_normalize [simp]: "scope_of (normalize a) = scope_of a"
  by (simp add: scope_of_def)

lemma scope_of_mapped: "to_ipv4_mapped v6 = Some v4 \<Longrightarrow> scope_of (IpV6 v6) = scope_v4 v4"
  by (simp add: scope_of_def)

lemma routable_normalize [simp]: "routable (normalize a) = routable a"
  by (simp add: routable_def)

lemma advertisable_routable: "advertisable a dev \<longleftrightarrow> routable a \<or> (dev \<and> scope_of a = Loopback)"
  by (cases "scope_of a") (simp_all add: advertisable_def routable_def)

subsection \<open>Address blocks\<close>

lemma unat_u8_lt: "unat (w :: u8) < 256"
  using unat_bound [of w] by simp

lemma octets_div:
  fixes a b c d :: nat
  assumes "b < 256" "c < 256" "d < 256"
  defines "n \<equiv> a * 2 ^ 24 + b * 2 ^ 16 + c * 2 ^ 8 + d"
  shows "n div 2 ^ 8 = (a * 256 + b) * 256 + c" "n div 2 ^ 16 = a * 256 + b" "n div 2 ^ 24 = a"
proof -
  have n: "n = ((a * 256 + b) * 256 + c) * 256 + d"
    by (simp add: n_def)
  then show 8: "n div 2 ^ 8 = (a * 256 + b) * 256 + c"
    using assms(3) by simp
  have "n div 2 ^ 16 = n div 2 ^ 8 div 2 ^ 8"
    by (simp flip: div_mult2_eq)
  then show 16: "n div 2 ^ 16 = a * 256 + b"
    unfolding 8 using assms(2) by simp
  have "n div 2 ^ 24 = n div 2 ^ 16 div 2 ^ 8"
    by (simp flip: div_mult2_eq)
  then show "n div 2 ^ 24 = a"
    unfolding 16 using assms(1) by simp
qed

lemma octets_div_more:
  fixes a b c d :: nat
  assumes "b < 256" "c < 256" "d < 256"
  defines "n \<equiv> a * 2 ^ 24 + b * 2 ^ 16 + c * 2 ^ 8 + d"
  shows "n div 2 ^ 17 = a * 128 + b div 2" "n div 2 ^ 20 = a * 16 + b div 16" "n div 2 ^ 22 = a * 4 + b div 64"
    "n div 2 ^ 29 = a div 32"
proof -
  note parts = octets_div [OF assms(1-3), of a, folded n_def]
  have pieces: "n div 2 ^ 17 = n div 2 ^ 16 div 2" "n div 2 ^ 20 = n div 2 ^ 16 div 16"
    "n div 2 ^ 22 = n div 2 ^ 16 div 64" "n div 2 ^ 29 = n div 2 ^ 24 div 32"
    by (simp_all flip: div_mult2_eq)
  have pair: "(a * 256 + b) div 2 = a * 128 + b div 2" "(a * 256 + b) div 16 = a * 16 + b div 16"
    "(a * 256 + b) div 64 = a * 4 + b div 64"
    using div_mult_self3 [of 2 "a * 128" b] div_mult_self3 [of 16 "a * 16" b] div_mult_self3 [of 64 "a * 4" b]
    by simp_all
  show "n div 2 ^ 17 = a * 128 + b div 2" "n div 2 ^ 20 = a * 16 + b div 16" "n div 2 ^ 22 = a * 4 + b div 64"
    "n div 2 ^ 29 = a div 32"
    unfolding pieces parts pair by (rule refl)+
qed

lemma digit_pair_eq:
  fixes a b p q k :: nat
  assumes "b < k" "q < k"
  shows "a * k + b = p * k + q \<longleftrightarrow> a = p \<and> b = q"
proof
  assume eq: "a * k + b = p * k + q"
  have "(a * k + b) div k = a" "(p * k + q) div k = p"
    using assms by simp_all
  with eq have "a = p"
    by simp
  with eq show "a = p \<and> b = q"
    by simp
qed simp

lemma in_block_iff:
  fixes a b c d p q r s :: u8
  shows "in_block (Ipv4 p q r s) 3 (Ipv4 a b c d) \<longleftrightarrow> unat a div 32 = unat p div 32"
    and "in_block (Ipv4 p q r s) 8 (Ipv4 a b c d) \<longleftrightarrow> unat a = unat p"
    and "in_block (Ipv4 p q r s) 10 (Ipv4 a b c d) \<longleftrightarrow> unat a = unat p \<and> unat b div 64 = unat q div 64"
    and "in_block (Ipv4 p q r s) 12 (Ipv4 a b c d) \<longleftrightarrow> unat a = unat p \<and> unat b div 16 = unat q div 16"
    and "in_block (Ipv4 p q r s) 15 (Ipv4 a b c d) \<longleftrightarrow> unat a = unat p \<and> unat b div 2 = unat q div 2"
    and "in_block (Ipv4 p q r s) 16 (Ipv4 a b c d) \<longleftrightarrow> unat a = unat p \<and> unat b = unat q"
    and "in_block (Ipv4 p q r s) 24 (Ipv4 a b c d) \<longleftrightarrow> unat a = unat p \<and> unat b = unat q \<and> unat c = unat r"
proof -
  note bounds = unat_u8_lt [of b] unat_u8_lt [of c] unat_u8_lt [of d] unat_u8_lt [of q] unat_u8_lt [of r] unat_u8_lt [of s]
  note parts = octets_div [OF bounds(1-3)] octets_div [OF bounds(4-6)]
    octets_div_more [OF bounds(1-3)] octets_div_more [OF bounds(4-6)]
  have widths: "32 - 3 = (29 :: nat)" "32 - 8 = (24 :: nat)" "32 - 10 = (22 :: nat)" "32 - 12 = (20 :: nat)"
    "32 - 15 = (17 :: nat)" "32 - 16 = (16 :: nat)" "32 - 24 = (8 :: nat)"
    by simp_all
  have small: "unat b div 64 < 4" "unat q div 64 < 4" "unat b div 16 < 16" "unat q div 16 < 16"
    "unat b div 2 < 128" "unat q div 2 < 128"
    using bounds by simp_all
  show "in_block (Ipv4 p q r s) 3 (Ipv4 a b c d) \<longleftrightarrow> unat a div 32 = unat p div 32"
    "in_block (Ipv4 p q r s) 8 (Ipv4 a b c d) \<longleftrightarrow> unat a = unat p"
    "in_block (Ipv4 p q r s) 10 (Ipv4 a b c d) \<longleftrightarrow> unat a = unat p \<and> unat b div 64 = unat q div 64"
    "in_block (Ipv4 p q r s) 12 (Ipv4 a b c d) \<longleftrightarrow> unat a = unat p \<and> unat b div 16 = unat q div 16"
    "in_block (Ipv4 p q r s) 15 (Ipv4 a b c d) \<longleftrightarrow> unat a = unat p \<and> unat b div 2 = unat q div 2"
    "in_block (Ipv4 p q r s) 16 (Ipv4 a b c d) \<longleftrightarrow> unat a = unat p \<and> unat b = unat q"
    "in_block (Ipv4 p q r s) 24 (Ipv4 a b c d) \<longleftrightarrow> unat a = unat p \<and> unat b = unat q \<and> unat c = unat r"
    unfolding in_block_def ipv4_number.simps widths parts
    by (simp_all only: digit_pair_eq [OF small(1,2)] digit_pair_eq [OF small(3,4)] digit_pair_eq [OF small(5,6)]
        digit_pair_eq [OF bounds(1,4)] digit_pair_eq [OF bounds(2,5)] conj_assoc)
qed

lemma unat_u8_eq_iff: "(w :: u8) = v \<longleftrightarrow> unat w = unat v"
  by (simp add: word_unat_eq_iff)

lemma div_range: "0 < k \<Longrightarrow> n div k = q \<longleftrightarrow> k * q \<le> n \<and> n < k * Suc q" for n k q :: nat
  using div_nat_eqI [of k q n] times_div_less_eq_dividend [of k n] dividend_less_times_div [of k n] by auto

lemma octet_ranges:
  fixes n :: nat
  shows "n div 64 = Suc 0 \<longleftrightarrow> 64 \<le> n \<and> n \<le> 127" "n div 16 = Suc 0 \<longleftrightarrow> 16 \<le> n \<and> n \<le> 31"
    and "n div 2 = 9 \<longleftrightarrow> n = 18 \<or> n = 19" "n < 256 \<Longrightarrow> n div 32 = 7 \<longleftrightarrow> 224 \<le> n"
  by (auto simp: div_range)

lemma scope_v4_blocks: "scope_v4 a = scope_v4_table a"
proof (cases a)
  case (Ipv4 w x y z)
  note block_simps = in_blocks_def in_block_iff octet_ranges(1-3) unat_u8_eq_iff word_le_nat_alt
    octet_ranges(4) [OF unat_u8_lt [of w]]
  have "(w = 10 \<or> (w = 172 \<and> 16 \<le> x \<and> x \<le> 31) \<or> (w = 192 \<and> x = 168) \<or> (w = 100 \<and> 64 \<le> x \<and> x \<le> 127)) =
      in_blocks private_blocks a"
    by (simp add: Ipv4 private_blocks_def block_simps)
  moreover have "(w = 127) = in_block (Ipv4 127 0 0 0) 8 a"
    by (simp add: Ipv4 block_simps)
  moreover have "(w = 0 \<or> w \<ge> 224 \<or> (w = 169 \<and> x = 254) \<or> (w = 203 \<and> x = 0 \<and> y = 113) \<or>
        (w = 198 \<and> (x = 18 \<or> x = 19 \<or> (x = 51 \<and> y = 100))) \<or>
        (w = 192 \<and> ((x = 88 \<and> y = 99) \<or> (x = 0 \<and> (y = 2 \<or> (y = 0 \<and> z \<noteq> 9 \<and> z \<noteq> 10)))))) =
      (in_blocks unusable_blocks a \<or>
        (in_block (Ipv4 192 0 0 0) 24 a \<and> a \<noteq> Ipv4 192 0 0 9 \<and> a \<noteq> Ipv4 192 0 0 10))"
    by (simp add: Ipv4 unusable_blocks_def block_simps del: neq0_conv) blast
  ultimately show ?thesis
    unfolding scope_v4_table_def by (simp only: Ipv4 scope_v4.simps)
qed

lemma word_and_prefix:
  fixes w :: "'a::len word"
  assumes "n \<le> LENGTH('a)"
  shows "w AND NOT (mask n) = v \<longleftrightarrow> take_bit n v = 0 \<and> drop_bit n w = drop_bit n v"
proof
  assume v: "w AND NOT (mask n) = v"
  show "take_bit n v = 0 \<and> drop_bit n w = drop_bit n v"
    unfolding v [symmetric]
    by (auto simp: bit_eq_iff bit_and_iff bit_not_iff bit_mask_iff bit_take_bit_iff bit_drop_bit_eq
        dest: bit_imp_le_length)
next
  assume v: "take_bit n v = 0 \<and> drop_bit n w = drop_bit n v"
  show "w AND NOT (mask n) = v"
  proof (rule bit_word_eqI)
    fix i
    assume i: "i < LENGTH('a)"
    have "i < n \<Longrightarrow> \<not> bit v i"
      using v by (metis bit_0_eq bit_take_bit_iff bot_apply bot_bool_def)
    moreover have "n \<le> i \<Longrightarrow> bit w i = bit v i"
      using v by (metis bit_drop_bit_eq comp_apply le_add_diff_inverse)
    ultimately show "bit (w AND NOT (mask n)) i = bit v i"
      using i by (cases "i < n") (auto simp: bit_and_iff bit_not_iff bit_mask_iff)
  qed
qed

lemma segment_masks:
  fixes a :: u16
  shows "a AND 0xfe00 = 0xfc00 \<longleftrightarrow> unat a div 2 ^ 9 = 0xfc00 div 2 ^ 9"
    and "a AND 0xe000 = 0x2000 \<longleftrightarrow> unat a div 2 ^ 13 = 0x2000 div 2 ^ 13"
proof -
  have masks: "(0xfe00 :: u16) = NOT (mask 9)" "(0xe000 :: u16) = NOT (mask 13)"
    by (simp_all add: mask_eq_exp_minus_1 not_eq_complement)
  have tails: "take_bit 9 (0xfc00 :: u16) = 0" "take_bit 13 (0x2000 :: u16) = 0"
    by simp_all
  have drops: "drop_bit n a = drop_bit n v \<longleftrightarrow> unat a div 2 ^ n = unat v div 2 ^ n" for n and v :: u16
    by (simp add: word_unat_eq_iff unat_drop_bit_eq) (simp add: drop_bit_eq_div)
  show "a AND 0xfe00 = 0xfc00 \<longleftrightarrow> unat a div 2 ^ 9 = 0xfc00 div 2 ^ 9"
    unfolding masks(1) by (subst word_and_prefix) (simp_all only: tails drops, simp_all)
  show "a AND 0xe000 = 0x2000 \<longleftrightarrow> unat a div 2 ^ 13 = 0x2000 div 2 ^ 13"
    unfolding masks(2) by (subst word_and_prefix) (simp_all only: tails drops, simp_all)
qed

lemma unat_u16_eq_iff: "(w :: u16) = v \<longleftrightarrow> unat w = unat v"
  by (simp add: word_unat_eq_iff)

lemma scope_v6_blocks: "scope_v6 v6 = scope_v6_table v6"
proof (cases v6)
  case (Ipv6 a b c d e f g h)
  have "b < 0x200 \<longleftrightarrow> unat b div 2 ^ 9 = 0" "b < 0x1000 \<longleftrightarrow> unat b div 2 ^ 12 = 0"
    by (simp_all add: word_less_nat_alt div_eq_0_iff)
  then show ?thesis
    unfolding scope_v6_def scope_v6_table_def Ipv6 ipv6.case segment_masks
    by (simp add: ipv6_is_loopback_def unat_u16_eq_iff del: One_nat_def)
qed


section \<open>Properties\<close>

text \<open>Scope classification is the table of address blocks.  For every address, IPv4-mapped ones
  classified by the IPv4 address they carry, the octet and segment tests give the class of the block the
  address lies in: RFC 1918, carrier-grade NAT and unique local blocks are private, 127.0.0.0/8 and ::1 loopback,
  and the special-purpose blocks unusable.\<close>

lemma scope_classification:
  "scope_of address =
     (case normalize address of IpV4 a \<Rightarrow> scope_v4_table a | IpV6 a \<Rightarrow> scope_v6_table a)"
  by (simp add: scope_of_def scope_v4_blocks scope_v6_blocks split: ip_addr.split)

text \<open>Parsing gives normalized addresses only, and what may be announced is what can be routed plus, in local
  development, loopback: an IPv4-mapped address never survives parsing and is treated as its IPv4 address
  everywhere.\<close>

lemma endpoint_normalized:
  "(case endpoint_parse s of
      None \<Rightarrow> True
    | Some a \<Rightarrow> normalize a = a \<and> length s \<le> 45) \<and>
   normalize (normalize address) = normalize address \<and>
   routable (normalize address) = routable address \<and>
   advertisable address False = routable address \<and>
   advertisable address True = (routable address \<or> scope_of address = Loopback)"
  using endpoint_parse_normalized [of s]
  by (auto simp: advertisable_routable endpoint_parse_def split: option.splits)

end
