(* ===== verification/Ip_Range.thy ===== *)
theory Ip_Range
  imports Endpoint
begin

text \<open>
  \<open>nethernet/src/util/ip_range.rs\<close>: sets of CIDR ranges, the trusted proxies of the HTTP signaler.  Networks are
  values of the ipnet crate; its operations are the fields of \<open>ipnet_ops\<close> and \<open>ipnet_ok\<close> states their
  documented meaning.  Proved here: what each kind of entry matches.
\<close>

record 'net ipnet_ops =
  net_parse :: "string \<Rightarrow> 'net option"
  net_v6_parts :: "'net \<Rightarrow> (ipv6 \<times> u8) option"
  net_v4_new :: "ipv4 \<Rightarrow> u8 \<Rightarrow> 'net option"
  net_from :: "ip_addr \<Rightarrow> 'net"
  net_contains :: "'net \<Rightarrow> ip_addr \<Rightarrow> bool"

text \<open>A network made from one address holds that address only; an IPv4 network of a prefix length up to 32 holds
  the IPv4 addresses that share the prefix, and no longer prefix is accepted.\<close>

definition ipnet_ok :: "'net ipnet_ops \<Rightarrow> bool" where
  "ipnet_ok N \<longleftrightarrow>
     (\<forall>a b. net_contains N (net_from N a) b \<longleftrightarrow> b = a) \<and>
     (\<forall>v p. unat p > 32 \<longrightarrow> net_v4_new N v p = None) \<and>
     (\<forall>v p. unat p \<le> 32 \<longrightarrow> (\<exists>n. net_v4_new N v p = Some n \<and>
        (\<forall>b. net_contains N n (IpV4 b) \<longleftrightarrow> in_block v (unat p) b) \<and>
        (\<forall>b. \<not> net_contains N n (IpV6 b))))"

record 'net ip_range_set =
  ranges :: "'net list"

definition MAPPED_PREFIX :: u8 where "MAPPED_PREFIX = 96"

definition into_ipv4_when_mapped :: "'net ipnet_ops \<Rightarrow> 'net \<Rightarrow> 'net option" where
  "into_ipv4_when_mapped N net =
     (case net_v6_parts N net of
        None \<Rightarrow> Some net
      | Some (addr, prefix_len) \<Rightarrow>
          (case to_ipv4_mapped addr of
             None \<Rightarrow> Some net
           | Some v4 \<Rightarrow>
               if prefix_len < MAPPED_PREFIX then None
               else net_v4_new N v4 (prefix_len - MAPPED_PREFIX)))"

definition range_of_entry :: "'net ipnet_ops \<Rightarrow> string \<Rightarrow> 'net option" where
  "range_of_entry N entry =
     (case net_parse N entry of
        Some net \<Rightarrow> into_ipv4_when_mapped N net
      | None \<Rightarrow> map_option (\<lambda>a. net_from N (normalize a)) (parse_ip_addr entry))"

definition ip_range_parse :: "'net ipnet_ops \<Rightarrow> string list \<Rightarrow> 'net ip_range_set" where
  "ip_range_parse N entries = \<lparr>ranges = List.map_filter (\<lambda>e. range_of_entry N (trim e)) entries\<rparr>"

definition ip_range_empty :: "'net ip_range_set" where
  "ip_range_empty = \<lparr>ranges = []\<rparr>"

definition ip_range_is_empty :: "'net ip_range_set \<Rightarrow> bool" where
  "ip_range_is_empty S \<longleftrightarrow> ranges S = []"

definition ip_range_contains :: "'net ipnet_ops \<Rightarrow> 'net ip_range_set \<Rightarrow> ip_addr \<Rightarrow> bool" where
  "ip_range_contains N S address =
     (let a = normalize address in list_ex (\<lambda>net. net_contains N net a) (ranges S))"

subsection \<open>A concrete instance\<close>

text \<open>Networks as an address and a prefix length, with a reader that knows one text.\<close>

definition sample_ipnet :: "(ip_addr \<times> nat) ipnet_ops" where
  "sample_ipnet = \<lparr>
     net_parse = (\<lambda>s. if s = ''::ffff:10.0.0.0/104'' then Some (IpV6 (Ipv6 0 0 0 0 0 0xffff 0x0a00 0), 104) else None),
     net_v6_parts = (\<lambda>(ip, n). case ip of IpV6 v6 \<Rightarrow> Some (v6, of_nat n) | IpV4 _ \<Rightarrow> None),
     net_v4_new = (\<lambda>v p. if unat p \<le> 32 then Some (IpV4 v, unat p) else None),
     net_from = (\<lambda>a. (a, 200)),
     net_contains = (\<lambda>(ip, n) b. if n = 200 then b = ip else
        (case (ip, b) of (IpV4 v, IpV4 w) \<Rightarrow> in_block v n w | _ \<Rightarrow> False))\<rparr>"


section \<open>Lemmas\<close>

lemma sample_ipnet_ok: "ipnet_ok sample_ipnet"
  by (auto simp: ipnet_ok_def sample_ipnet_def)

lemma ip_range_contains_normalize:
  "ip_range_contains N S (normalize a) = ip_range_contains N S a"
  by (simp add: ip_range_contains_def)

lemma ip_range_contains_parse:
  "ip_range_contains N (ip_range_parse N entries) a \<longleftrightarrow>
     (\<exists>e \<in> set entries. \<exists>net. range_of_entry N (trim e) = Some net \<and> net_contains N net (normalize a))"
  by (force simp: ip_range_contains_def ip_range_parse_def list_ex_iff map_filter_def Let_def)


section \<open>Properties\<close>

text \<open>What an entry of a trusted list matches.  A plain address matches that address, in its IPv4 or its
  IPv4-mapped form.  A mapped range \<open>::ffff:a.b.c.d/(96+k)\<close> matches the IPv4 block \<open>a.b.c.d/k\<close>, and a mapped range with
  a prefix shorter than 96 matches nothing.\<close>

lemma ip_range_entry_meaning:
  assumes "ipnet_ok N"
  shows "(net_parse N (trim e) = None \<and> parse_ip_addr (trim e) = Some a \<longrightarrow>
            (ip_range_contains N (ip_range_parse N [e]) b \<longleftrightarrow> normalize b = normalize a)) \<and>
    (net_parse N (trim e) = Some net \<and> net_v6_parts N net = Some (v6, p) \<and> to_ipv4_mapped v6 = Some v4 \<longrightarrow>
            (ip_range_contains N (ip_range_parse N [e]) b \<longleftrightarrow>
               96 \<le> unat p \<and> unat p \<le> 128 \<and>
               (\<exists>w. normalize b = IpV4 w \<and> in_block v4 (unat p - 96) w)))"
proof (intro conjI impI)
  assume "net_parse N (trim e) = None \<and> parse_ip_addr (trim e) = Some a"
  with assms show "ip_range_contains N (ip_range_parse N [e]) b \<longleftrightarrow> normalize b = normalize a"
    by (auto simp: ip_range_contains_parse range_of_entry_def ipnet_ok_def)
next
  assume mapped: "net_parse N (trim e) = Some net \<and> net_v6_parts N net = Some (v6, p) \<and> to_ipv4_mapped v6 = Some v4"
  show "ip_range_contains N (ip_range_parse N [e]) b \<longleftrightarrow>
      96 \<le> unat p \<and> unat p \<le> 128 \<and> (\<exists>w. normalize b = IpV4 w \<and> in_block v4 (unat p - 96) w)"
  proof (cases "96 \<le> unat p")
    case False
    with mapped show ?thesis
      by (auto simp: ip_range_contains_parse range_of_entry_def into_ipv4_when_mapped_def MAPPED_PREFIX_def
          word_less_nat_alt)
  next
    case True
    then have sub: "unat (p - 96) = unat p - 96"
      by (simp add: unat_sub word_le_nat_alt)
    with True mapped have entry: "range_of_entry N (trim e) = net_v4_new N v4 (p - 96)"
      by (simp add: range_of_entry_def into_ipv4_when_mapped_def MAPPED_PREFIX_def word_less_nat_alt)
    show ?thesis
    proof (cases "unat p \<le> 128")
      case False
      with sub True have "unat (p - 96) > 32"
        by simp
      with assms have "net_v4_new N v4 (p - 96) = None"
        by (simp add: ipnet_ok_def)
      with False entry show ?thesis
        by (simp add: ip_range_contains_parse)
    next
      case fits: True
      with sub have "unat (p - 96) \<le> 32"
        by simp
      with assms obtain n where "net_v4_new N v4 (p - 96) = Some n"
        and "\<And>w. net_contains N n (IpV4 w) \<longleftrightarrow> in_block v4 (unat (p - 96)) w" "\<And>w. \<not> net_contains N n (IpV6 w)"
        unfolding ipnet_ok_def by blast
      with True fits entry sub show ?thesis
        by (cases "normalize b") (simp_all add: ip_range_contains_parse)
    qed
  qed
qed

lemma ip_range_entry_meaning_witness:
  "ip_range_contains sample_ipnet (ip_range_parse sample_ipnet [''::ffff:10.0.0.0/104'']) (IpV4 (Ipv4 10 1 2 3)) \<and>
   \<not> ip_range_contains sample_ipnet (ip_range_parse sample_ipnet [''::ffff:10.0.0.0/104'']) (IpV4 (Ipv4 11 1 2 3))"
proof -
  let ?e = "''::ffff:10.0.0.0/104''" and ?v6 = "Ipv6 0 0 0 0 0 0xffff 0x0a00 0"
  have trimmed: "trim ?e = ?e"
    by (simp add: trim_def trim_start_def trim_end_def strip_any.simps whitespace_def starts_with_def char_of_def)
  have parsed: "net_parse sample_ipnet ?e = Some (IpV6 ?v6, 104)"
    by (simp add: sample_ipnet_def)
  have mapped: "to_ipv4_mapped ?v6 = Some (Ipv4 10 0 0 0)"
    by (simp add: to_ipv4_mapped_def)
  have parts: "net_v6_parts sample_ipnet (IpV6 ?v6, 104) = Some (?v6, 104)"
    by (simp add: sample_ipnet_def)
  have meaning: "ip_range_contains sample_ipnet (ip_range_parse sample_ipnet [?e]) (IpV4 (Ipv4 x 1 2 3)) \<longleftrightarrow>
      in_block (Ipv4 10 0 0 0) 8 (Ipv4 x 1 2 3)" for x
    using ip_range_entry_meaning [OF sample_ipnet_ok, of ?e _ "IpV4 (Ipv4 x 1 2 3)" "(IpV6 ?v6, 104)" ?v6 104 "Ipv4 10 0 0 0"]
    by (simp add: trimmed parsed mapped parts)
  show ?thesis
    by (simp add: meaning in_block_iff)
qed

end
