(* ===== verification/Candidate_Lines.thy ===== *)
theory Candidate_Lines
  imports Endpoint "HOL-Library.List_Lexorder" "HOL-Library.Char_ord"
begin

text \<open>
  \<open>nethernet/src/util/candidate.rs\<close>: parsing of the \<open>a=candidate\<close> lines of an SDP, the reflexive candidates
  inferred from the address a peer signals from, and the rewriting of a server's own candidates to the addresses
  it advertises.  Hash sets are sets; the sort of the foreign addresses is by bytes, as \<open>String\<close> orders.
  Proved here: the bounds and sources of the inferred candidates, and that rewriting keeps every other line and
  announces no host address outside the advertised ones once one of those was gathered.
\<close>

definition ATTRIBUTE_PREFIX :: string where "ATTRIBUTE_PREFIX = ''a=candidate:''"

datatype candidate_line_error = TooFewTokens | MissingTypeKeyword | UnknownKind | InvalidPort

datatype candidate_kind = Host | Srflx | Prflx | Relay

definition kind_from_token :: "string \<Rightarrow> candidate_kind option" where
  "kind_from_token token =
     (if token = ''host'' then Some Host
      else if token = ''srflx'' then Some Srflx
      else if token = ''prflx'' then Some Prflx
      else if token = ''relay'' then Some Relay
      else None)"

definition is_reflexive_or_relayed :: "candidate_kind \<Rightarrow> bool" where
  "is_reflexive_or_relayed k \<longleftrightarrow> k \<noteq> Host"

record candidate_line =
  transport :: string
  address :: string
  port :: u16
  kind :: candidate_kind

definition MAX_INFERRED :: nat where "MAX_INFERRED = 8"
definition INFERRED_PRIORITY :: u32 where "INFERRED_PRIORITY = 1677721855"
definition INFERRED_FOUNDATION :: u32 where "INFERRED_FOUNDATION = 90000000"
definition TRANSLATED_PRIORITY :: u32 where
  "TRANSLATED_PRIORITY = push_bit 24 100 OR push_bit 8 65535 OR 255"
definition TRANSLATED_FOUNDATION :: u32 where "TRANSLATED_FOUNDATION = 80000000"

definition u16_to_string :: "u16 \<Rightarrow> string" where
  "u16_to_string w = dec (unat w)"

definition is_udp :: "candidate_line \<Rightarrow> bool" where
  "is_udp c \<longleftrightarrow> eq_ignore_ascii_case (transport c) ''udp''"

definition inferred_candidate :: "nat \<Rightarrow> ip_addr \<Rightarrow> u16 \<Rightarrow> string" where
  "inferred_candidate index source p =
     ''candidate:'' @ u32_to_string (INFERRED_FOUNDATION + of_nat index) @ '' 1 UDP '' @
     u32_to_string INFERRED_PRIORITY @ '' '' @ ip_to_string source @ '' '' @ u16_to_string p @
     '' typ srflx raddr 0.0.0.0 rport 0''"

definition translated_candidate :: "candidate_line \<Rightarrow> u32 \<Rightarrow> string \<Rightarrow> string" where
  "translated_candidate c foundation addr =
     ATTRIBUTE_PREFIX @ u32_to_string foundation @ '' 1 '' @ transport c @ '' '' @
     u32_to_string TRANSLATED_PRIORITY @ '' '' @ addr @ '' '' @ u16_to_string (port c) @
     '' typ srflx raddr '' @ address c @ '' rport '' @ u16_to_string (port c)"

definition candidate_line_try_from :: "string \<Rightarrow> (candidate_line_error, candidate_line) result" where
  "candidate_line_try_from line =
     (let tokens = split_on CHR '' '' line in
      if length tokens < 8 then Inl TooFewTokens
      else if tokens ! 6 \<noteq> ''typ'' then Inl MissingTypeKeyword
      else res_bind (ok_or UnknownKind (kind_from_token (tokens ! 7))) (\<lambda>k.
        res_bind (ok_or InvalidPort (parse_u16 (tokens ! 5))) (\<lambda>p.
          Inr \<lparr>transport = tokens ! 2, address = tokens ! 4, port = p, kind = k\<rparr>)))"

definition candidates :: "string \<Rightarrow> candidate_line list" where
  "candidates sdp =
     List.map_filter (\<lambda>line. res_ok (candidate_line_try_from line))
       (filter (\<lambda>line. starts_with line ATTRIBUTE_PREFIX) (split_where is_crlf sdp))"

definition normalized :: "string \<Rightarrow> string" where
  "normalized addr = (case endpoint_parse addr of None \<Rightarrow> addr | Some literal \<Rightarrow> ip_to_string literal)"

definition has_routable_host_candidate :: "string \<Rightarrow> bool" where
  "has_routable_host_candidate sdp =
     list_ex (\<lambda>c. kind c = Host \<and>
       (case endpoint_parse (address c) of None \<Rightarrow> False | Some a \<Rightarrow> routable a)) (candidates sdp)"

text \<open>The loop over the offer's candidates: none when one is reflexive or relayed, else the ports in order.\<close>

fun inferred_ports :: "candidate_line list \<Rightarrow> u16 list \<Rightarrow> u16 list option" where
  "inferred_ports [] ports = Some ports"
| "inferred_ports (c # cs) ports =
     (if is_reflexive_or_relayed (kind c) then None
      else if is_udp c \<and> length ports < MAX_INFERRED \<and> port c \<notin> set ports
        then inferred_ports cs (ports @ [port c])
        else inferred_ports cs ports)"

definition inferred_peer_candidates :: "string \<Rightarrow> socket_addr option \<Rightarrow> string list" where
  "inferred_peer_candidates sdp signaled_from =
     (case map_option (\<lambda>a. normalize (sock_ip a)) signaled_from of
        None \<Rightarrow> []
      | Some from \<Rightarrow>
          if \<not> routable from then []
          else (case inferred_ports (candidates sdp) [] of
                  None \<Rightarrow> []
                | Some ports \<Rightarrow> map (\<lambda>(i, p). inferred_candidate i from p) (enumerate 0 ports)))"

subsection \<open>Advertised addresses\<close>

definition same_family :: "ip_addr \<Rightarrow> string \<Rightarrow> bool" where
  "same_family target addr =
     (case (target, endpoint_parse addr) of
        (IpV4 _, Some (IpV4 _)) \<Rightarrow> True
      | (IpV6 _, Some (IpV6 _)) \<Rightarrow> True
      | _ \<Rightarrow> False)"

text \<open>The inner loop over hosts, then the outer loop over foreign addresses: the candidates so far, the pairs
  emitted and the next foundation.\<close>

fun translate_hosts ::
  "string \<Rightarrow> ip_addr \<Rightarrow> candidate_line list \<Rightarrow> string list \<times> (string \<times> u16) set \<times> u32 \<Rightarrow>
     string list \<times> (string \<times> u16) set \<times> u32" where
  "translate_hosts addr target [] st = st"
| "translate_hosts addr target (host # hosts) (out, emitted, foundation) =
     (if \<not> same_family target (address host) \<or> (addr, port host) \<in> emitted
      then translate_hosts addr target hosts (out, emitted, foundation)
      else translate_hosts addr target hosts
        (out @ [translated_candidate host foundation addr], insert (addr, port host) emitted, foundation + 1))"

fun translate_foreign ::
  "candidate_line list \<Rightarrow> string list \<Rightarrow> string list \<times> (string \<times> u16) set \<times> u32 \<Rightarrow>
     string list \<times> (string \<times> u16) set \<times> u32" where
  "translate_foreign hosts [] st = st"
| "translate_foreign hosts (addr # addrs) st =
     (case endpoint_parse addr of
        None \<Rightarrow> translate_foreign hosts addrs st
      | Some target \<Rightarrow> translate_foreign hosts addrs (translate_hosts addr target hosts st))"

definition translated_candidates :: "candidate_line list \<Rightarrow> string list \<Rightarrow> string list" where
  "translated_candidates hosts foreign = fst (translate_foreign hosts foreign ([], {}, TRANSLATED_FOUNDATION))"

definition gathered_addresses :: "string \<Rightarrow> string set" where
  "gathered_addresses sdp = set (map (\<lambda>c. normalized (address c)) (candidates sdp))"

definition gathered_hosts :: "string \<Rightarrow> candidate_line list" where
  "gathered_hosts sdp = filter (\<lambda>c. kind c = Host \<and> is_udp c) (candidates sdp)"

definition held_addresses :: "string \<Rightarrow> string list \<Rightarrow> string set" where
  "held_addresses sdp allowed = set (map normalized allowed) \<inter> gathered_addresses sdp"

definition foreign_addresses :: "string \<Rightarrow> string list \<Rightarrow> string list" where
  "foreign_addresses sdp allowed =
     sort (filter (\<lambda>a. a \<notin> gathered_addresses sdp) (map normalized allowed))"

text \<open>Whether a candidate line survives: every one when no advertised address was gathered.\<close>

definition keeps_line :: "string set \<Rightarrow> string \<Rightarrow> bool" where
  "keeps_line held line \<longleftrightarrow> held = {} \<or>
     (case candidate_line_try_from line of
        Inl _ \<Rightarrow> False
      | Inr c \<Rightarrow> is_reflexive_or_relayed (kind c) \<or> normalized (address c) \<in> held)"

text \<open>The loop that writes the lines: the translated candidates come before the first other line after a
  candidate line, or at the end.\<close>

fun write_lines :: "string set \<Rightarrow> bool \<Rightarrow> string list \<Rightarrow> string list \<Rightarrow> string list" where
  "write_lines held seen translated [] = translated"
| "write_lines held seen translated (line # lines) =
     (if starts_with line ATTRIBUTE_PREFIX
      then (if keeps_line held line then line # write_lines held True translated lines
            else write_lines held True translated lines)
      else if seen \<and> translated \<noteq> []
      then translated @ line # write_lines held seen [] lines
      else line # write_lines held seen translated lines)"

definition sdp_lines :: "string \<Rightarrow> string list" where
  "sdp_lines sdp = filter (\<lambda>line. line \<noteq> []) (split_where is_crlf sdp)"

definition with_advertised_candidates :: "string \<Rightarrow> string list \<Rightarrow> string" where
  "with_advertised_candidates sdp allowed =
     (if allowed = [] then sdp
      else
        let held = held_addresses sdp allowed;
            hosts = sort_key (\<lambda>h. normalized (address h) \<notin> held) (gathered_hosts sdp);
            translated = translated_candidates hosts (foreign_addresses sdp allowed)
        in if held = {} \<and> translated = [] then sdp
           else concat (map (\<lambda>line. line @ crlf) (write_lines held False translated (sdp_lines sdp))))"


section \<open>Lemmas\<close>

subsection \<open>Lines and tokens\<close>

lemma split_on_subset: "p \<in> set (split_on c s) \<Longrightarrow> set p \<subseteq> set s"
proof (induction s arbitrary: p)
  case (Cons x xs)
  then show ?case
    by (cases "split_on c xs") (fastforce split: if_splits)+
qed simp

definition clean :: "string \<Rightarrow> bool" where
  "clean s \<longleftrightarrow> list_all (\<lambda>c. \<not> is_crlf c) s"

lemma clean_append [simp]: "clean (a @ b) \<longleftrightarrow> clean a \<and> clean b"
  by (simp add: clean_def)

lemma clean_Cons [simp]: "clean (c # b) \<longleftrightarrow> \<not> is_crlf c \<and> clean b"
  by (simp add: clean_def)

lemma clean_Nil [simp]: "clean []"
  by (simp add: clean_def)

lemma is_crlf_simps [simp]:
  "is_crlf CHR 0x0D" "is_crlf CHR 0x0A" "is_digit c \<Longrightarrow> \<not> is_crlf c"
  by (auto simp: is_crlf_def is_digit_def)

lemma clean_dec [simp]: "clean (dec n)"
  using dec_digits [of n] by (auto simp: clean_def list_all_iff)

lemma clean_subset: "clean s \<Longrightarrow> set p \<subseteq> set s \<Longrightarrow> clean p"
  by (auto simp: clean_def list_all_iff)

lemma sdp_lines_clean: "line \<in> set (split_where is_crlf sdp) \<Longrightarrow> clean line"
  using split_where_no_sep [of line is_crlf sdp] by (simp add: clean_def)

lemma sdp_lines_write: "list_all clean ls \<Longrightarrow>
   sdp_lines (concat (map (\<lambda>l. l @ crlf) ls)) = filter (\<lambda>l. l \<noteq> []) ls"
proof (induction ls)
  case (Cons l ls)
  have "split_where is_crlf (l @ crlf @ concat (map (\<lambda>l. l @ crlf) ls)) =
      l # [] # split_where is_crlf (concat (map (\<lambda>l. l @ crlf) ls))"
    using Cons.prems by (simp add: crlf_def split_where_append clean_def)
  with Cons show ?case
    by (simp add: sdp_lines_def)
qed (simp add: sdp_lines_def)

lemma candidates_lines:
  "candidates sdp = List.map_filter (\<lambda>line. res_ok (candidate_line_try_from line))
     (filter (\<lambda>line. starts_with line ATTRIBUTE_PREFIX) (sdp_lines sdp))"
proof -
  have "filter (\<lambda>line. starts_with line ATTRIBUTE_PREFIX) (split_where is_crlf sdp) =
      filter (\<lambda>line. starts_with line ATTRIBUTE_PREFIX) (sdp_lines sdp)"
    by (auto simp: sdp_lines_def starts_with_def ATTRIBUTE_PREFIX_def intro: filter_cong)
  then show ?thesis
    by (simp add: candidates_def)
qed

text \<open>A parsed line's transport and address are tokens: no space and no line break.\<close>

lemma candidate_tokens:
  assumes "candidate_line_try_from line = Inr c" "clean line"
  shows "clean (transport c)" "clean (address c)" "CHR '' '' \<notin> set (transport c)" "CHR '' '' \<notin> set (address c)"
proof -
  let ?tokens = "split_on CHR '' '' line"
  have "\<not> length ?tokens < 8" "transport c = ?tokens ! 2" "address c = ?tokens ! 4"
    using assms(1) by (auto simp: candidate_line_try_from_def res_simps Let_def split: if_splits)
  then have "transport c \<in> set ?tokens" "address c \<in> set ?tokens"
    by simp_all
  then show "clean (transport c)" "clean (address c)" "CHR '' '' \<notin> set (transport c)" "CHR '' '' \<notin> set (address c)"
    using assms(2) by (auto dest: split_on_subset clean_subset split_on_no_sep)
qed

lemma candidates_mem:
  assumes "c \<in> set (candidates sdp)"
  obtains line where "line \<in> set (sdp_lines sdp)" "starts_with line ATTRIBUTE_PREFIX"
    "candidate_line_try_from line = Inr c" "clean line"
  using assms sdp_lines_clean unfolding candidates_lines
  by (auto simp: map_filter_def sdp_lines_def)

lemma endpoint_parse_chars:
  assumes "endpoint_parse a = Some ip"
  shows "clean a" "CHR '' '' \<notin> set a"
proof -
  have "list_all (\<lambda>c. ascii_hexdigit c \<or> c = CHR '':'' \<or> c = CHR ''.'') a"
    using assms by (auto simp: endpoint_parse_def split: if_splits)
  moreover have "\<not> ascii_hexdigit CHR '' ''" "ascii_hexdigit c \<Longrightarrow> \<not> is_crlf c" for c
    by (auto simp: ascii_hexdigit_def radix_digit_def is_crlf_def)
  ultimately show "clean a" "CHR '' '' \<notin> set a"
    by (auto simp: clean_def list_all_iff is_crlf_def)
qed

subsection \<open>Translated candidates\<close>

lemma parse_u16_to_string [simp]: "parse_u16 (u16_to_string w) = Some w"
proof -
  have "unat w \<le> 2 ^ 16 - 1"
    using unat_bound [of w] by simp
  then show ?thesis
    by (simp only: parse_u16_def u16_to_string_def parse_uint_dec option.map of_nat_unat ucast_id)
qed

lemma number_no_space [simp]:
  "CHR '' '' \<notin> set (u32_to_string w)" "CHR '' '' \<notin> set (u16_to_string p)"
  by (simp_all add: u32_to_string_def u16_to_string_def dec_no_sep is_digit_not)

lemma translated_candidate_reads:
  assumes "CHR '' '' \<notin> set (transport h)" "CHR '' '' \<notin> set (address h)" "CHR '' '' \<notin> set a"
  shows "candidate_line_try_from (translated_candidate h f a) =
    Inr \<lparr>transport = transport h, address = a, port = port h, kind = Srflx\<rparr>"
proof -
  let ?sp = "CHR '' ''"
  have line: "translated_candidate h f a =
      (ATTRIBUTE_PREFIX @ u32_to_string f) @ ?sp # ''1'' @ ?sp # transport h @ ?sp # u32_to_string TRANSLATED_PRIORITY @
      ?sp # a @ ?sp # u16_to_string (port h) @ ?sp # ''typ'' @ ?sp # ''srflx'' @ ?sp # ''raddr'' @ ?sp #
      address h @ ?sp # ''rport'' @ ?sp # u16_to_string (port h)"
    by (simp add: translated_candidate_def)
  have "split_on ?sp (translated_candidate h f a) =
      [ATTRIBUTE_PREFIX @ u32_to_string f, ''1'', transport h, u32_to_string TRANSLATED_PRIORITY, a,
       u16_to_string (port h), ''typ'', ''srflx'', ''raddr'', address h, ''rport'', u16_to_string (port h)]"
    unfolding line using assms
    by (subst split_on_append split_on_single; (simp add: ATTRIBUTE_PREFIX_def)?)+
  then show ?thesis
    by (simp add: candidate_line_try_from_def kind_from_token_def)
qed

lemma translated_candidate_clean:
  "clean (transport h) \<Longrightarrow> clean (address h) \<Longrightarrow> clean a \<Longrightarrow> clean (translated_candidate h f a)"
  by (simp add: translated_candidate_def ATTRIBUTE_PREFIX_def u32_to_string_def u16_to_string_def is_crlf_def)

lemma translated_candidate_prefix: "starts_with (translated_candidate h f a) ATTRIBUTE_PREFIX"
  by (simp add: translated_candidate_def starts_with_def)

lemma translate_hosts_mem:
  assumes "x \<in> set (fst (translate_hosts addr target hosts (out, em, f)))"
  shows "x \<in> set out \<or> (\<exists>h \<in> set hosts. \<exists>n. x = translated_candidate h n addr)"
  using assms
proof (induction hosts arbitrary: out em f)
  case (Cons h hosts)
  then show ?case
    by (auto split: if_splits dest!: Cons.IH)
qed simp

lemma translate_foreign_mem:
  assumes "x \<in> set (fst (translate_foreign hosts addrs st))"
  shows "x \<in> set (fst st) \<or>
    (\<exists>h \<in> set hosts. \<exists>n. \<exists>a \<in> set addrs. endpoint_parse a \<noteq> None \<and> x = translated_candidate h n a)"
  using assms
proof (induction addrs arbitrary: st)
  case (Cons a addrs)
  obtain out em f where st: "st = (out, em, f)"
    by (cases st)
  show ?case
  proof (cases "endpoint_parse a")
    case None
    with Cons.prems Cons.IH [of st] show ?thesis
      by auto
  next
    case (Some target)
    with Cons.prems Cons.IH [of "translate_hosts a target hosts st"] translate_hosts_mem [of x a target hosts out em f]
    show ?thesis
      by (auto simp: st)
  qed
qed simp

lemma translated_candidates_mem:
  "x \<in> set (translated_candidates hosts foreign) \<Longrightarrow>
   \<exists>h \<in> set hosts. \<exists>n. \<exists>a \<in> set foreign. endpoint_parse a \<noteq> None \<and> x = translated_candidate h n a"
  unfolding translated_candidates_def by (drule translate_foreign_mem) simp

subsection \<open>The rewritten lines\<close>

lemma write_lines_other:
  assumes "list_all (\<lambda>l. starts_with l ATTRIBUTE_PREFIX) translated"
  shows "filter (\<lambda>l. \<not> starts_with l ATTRIBUTE_PREFIX) (write_lines held seen translated lines) =
     filter (\<lambda>l. \<not> starts_with l ATTRIBUTE_PREFIX) lines"
  using assms
  by (induction held seen translated lines rule: write_lines.induct) (auto simp: list_all_iff filter_empty_conv)

lemma write_lines_mem:
  "l \<in> set (write_lines held seen translated lines) \<Longrightarrow>
   l \<in> set translated \<or> (l \<in> set lines \<and> (starts_with l ATTRIBUTE_PREFIX \<longrightarrow> keeps_line held l))"
  by (induction held seen translated lines rule: write_lines.induct) (auto split: if_splits)

definition advertised_hosts :: "string \<Rightarrow> string list \<Rightarrow> candidate_line list" where
  "advertised_hosts sdp allowed =
     sort_key (\<lambda>h. normalized (address h) \<notin> held_addresses sdp allowed) (gathered_hosts sdp)"

lemma translated_clean:
  assumes "x \<in> set (translated_candidates (advertised_hosts sdp allowed) foreign)"
  shows "clean x \<and> starts_with x ATTRIBUTE_PREFIX \<and> x \<noteq> [] \<and>
    (\<exists>c. candidate_line_try_from x = Inr c \<and> kind c = Srflx)"
proof -
  from translated_candidates_mem [OF assms] obtain h n a where "h \<in> set (gathered_hosts sdp)"
    and parse: "endpoint_parse a \<noteq> None" and x: "x = translated_candidate h n a"
    by (auto simp: advertised_hosts_def)
  then have "h \<in> set (candidates sdp)"
    by (simp add: gathered_hosts_def)
  then obtain line where "candidate_line_try_from line = Inr h" "clean line"
    by (rule candidates_mem)
  note host = candidate_tokens [OF this]
  from parse obtain ip where ip: "endpoint_parse a = Some ip"
    by blast
  show ?thesis
    using host endpoint_parse_chars [OF ip] translated_candidate_clean translated_candidate_reads [of h a n]
      translated_candidate_prefix [of h n a]
    by (auto simp: x starts_with_def ATTRIBUTE_PREFIX_def)
qed

lemma advertised_lines:
  fixes sdp :: string
  assumes "allowed \<noteq> []"
  defines "translated \<equiv> translated_candidates (advertised_hosts sdp allowed) (foreign_addresses sdp allowed)"
  assumes "held_addresses sdp allowed \<noteq> {} \<or> translated \<noteq> []"
  shows "sdp_lines (with_advertised_candidates sdp allowed) =
     write_lines (held_addresses sdp allowed) False translated (sdp_lines sdp)"
proof -
  let ?ls = "write_lines (held_addresses sdp allowed) False translated (sdp_lines sdp)"
  have out: "with_advertised_candidates sdp allowed = concat (map (\<lambda>l. l @ crlf) ?ls)"
    using assms(1,3)
    by (auto simp: with_advertised_candidates_def translated_def advertised_hosts_def Let_def)
  have "clean l \<and> l \<noteq> []" if "l \<in> set ?ls" for l
    using write_lines_mem [OF that] translated_clean [of l sdp allowed] sdp_lines_clean [of l sdp]
    by (auto simp: translated_def sdp_lines_def)
  then show ?thesis
    unfolding out by (subst sdp_lines_write) (auto simp: list_all_iff filter_id_conv)
qed

lemma advertised_prefix_lines:
  "list_all (\<lambda>l. starts_with l ATTRIBUTE_PREFIX)
     (translated_candidates (advertised_hosts sdp allowed) (foreign_addresses sdp allowed))"
  using translated_clean by (fastforce simp: list_all_iff)

text \<open>Host candidates left after rewriting are on advertised addresses.\<close>

lemma advertised_host_allowed:
  assumes "held_addresses sdp allowed \<noteq> {}" "c \<in> set (candidates (with_advertised_candidates sdp allowed))"
    and "kind c = Host"
  shows "normalized (address c) \<in> set (map normalized allowed)"
proof -
  have "allowed \<noteq> []"
    using assms(1) by (auto simp: held_addresses_def)
  note lines = advertised_lines [OF this disjI1 [OF assms(1)]]
  from assms(2) obtain line where mem: "line \<in> set (sdp_lines (with_advertised_candidates sdp allowed))"
    and prefix: "starts_with line ATTRIBUTE_PREFIX" and c: "candidate_line_try_from line = Inr c"
    by (rule candidates_mem)
  have "line \<notin> set (translated_candidates (advertised_hosts sdp allowed) (foreign_addresses sdp allowed))"
    using translated_clean [of line sdp allowed] c assms(3) by auto
  with write_lines_mem [OF mem [unfolded lines]] prefix have "keeps_line (held_addresses sdp allowed) line"
    by blast
  with assms(1,3) c show ?thesis
    by (auto simp: keeps_line_def is_reflexive_or_relayed_def held_addresses_def)
qed

subsection \<open>Inferred candidates\<close>

lemma inferred_ports_length: "inferred_ports cs ports = Some out \<Longrightarrow> length ports \<le> length out"
proof (induction cs arbitrary: ports)
  case (Cons c cs)
  then show ?case
    by (fastforce split: if_splits)
qed simp

lemma inferred_ports_spec:
  assumes "inferred_ports cs ports = Some out" "distinct ports" "length ports \<le> MAX_INFERRED"
  shows "distinct out \<and> length out \<le> MAX_INFERRED \<and> list_all (\<lambda>c. kind c = Host) cs \<and>
    set out \<subseteq> set ports \<union> port ` set (filter is_udp cs) \<and> set ports \<subseteq> set out \<and>
    (length out = MAX_INFERRED \<or> port ` set (filter is_udp cs) \<subseteq> set out)"
  using assms
proof (induction cs arbitrary: ports)
  case (Cons c cs)
  then have kind: "kind c = Host"
    by (auto simp: is_reflexive_or_relayed_def split: if_splits)
  show ?case
  proof (cases "is_udp c \<and> length ports < MAX_INFERRED \<and> port c \<notin> set ports")
    case True
    with Cons.prems Cons.IH [of "ports @ [port c]"] kind show ?thesis
      by (auto simp: is_reflexive_or_relayed_def)
  next
    case False
    with Cons.prems Cons.IH [of ports] kind show ?thesis
      by (auto simp: is_reflexive_or_relayed_def le_antisym dest: inferred_ports_length)
  qed
qed auto

lemma advertised_other_lines:
  "filter (\<lambda>l. \<not> starts_with l ATTRIBUTE_PREFIX) (sdp_lines (with_advertised_candidates sdp allowed)) =
   filter (\<lambda>l. \<not> starts_with l ATTRIBUTE_PREFIX) (sdp_lines sdp)"
proof (cases "allowed = [] \<or> (held_addresses sdp allowed = {} \<and>
    translated_candidates (advertised_hosts sdp allowed) (foreign_addresses sdp allowed) = [])")
  case True
  then show ?thesis
    by (auto simp: with_advertised_candidates_def advertised_hosts_def Let_def)
next
  case False
  then show ?thesis
    by (simp add: advertised_lines write_lines_other [OF advertised_prefix_lines])
qed


section \<open>Properties\<close>


text \<open>C28: Inferred candidates.  Either there are none, or the peer signaled from a routable address, its offer has host
  candidates only, and there is one reflexive candidate on that (normalized) address for each of at most eight
  distinct ports of its UDP candidates: all of them, unless the limit was reached.\<close>

theorem inferred_candidates_spec:
  "inferred_peer_candidates sdp source = [] \<or>
   (\<exists>peer ports. source = Some peer \<and> routable (sock_ip peer) \<and>
      list_all (\<lambda>c. kind c = Host) (candidates sdp) \<and>
      distinct ports \<and> length ports \<le> 8 \<and>
      set ports \<subseteq> port ` set (filter is_udp (candidates sdp)) \<and>
      (length ports = 8 \<or> set ports = port ` set (filter is_udp (candidates sdp))) \<and>
      inferred_peer_candidates sdp source =
        map (\<lambda>(i, p). inferred_candidate i (normalize (sock_ip peer)) p) (enumerate 0 ports))"
proof (cases source)
  case None
  then show ?thesis
    by (simp add: inferred_peer_candidates_def)
next
  case (Some peer)
  show ?thesis
  proof (cases "routable (sock_ip peer)")
    case False
    with Some show ?thesis
      by (simp add: inferred_peer_candidates_def)
  next
    case True
    show ?thesis
    proof (cases "inferred_ports (candidates sdp) []")
      case None
      with Some True show ?thesis
        by (simp add: inferred_peer_candidates_def)
    next
      case ports: (Some ports)
      from inferred_ports_spec [OF this] have "distinct ports" "length ports \<le> 8"
        "list_all (\<lambda>c. kind c = Host) (candidates sdp)"
        "set ports \<subseteq> port ` set (filter is_udp (candidates sdp))"
        "length ports = 8 \<or> set ports = port ` set (filter is_udp (candidates sdp))"
        by (auto simp: MAX_INFERRED_def)
      with Some True ports show ?thesis
        by (intro disjI2 exI [of _ peer] exI [of _ ports]) (simp add: inferred_peer_candidates_def)
    qed
  qed
qed

end
