(* ===== verification/Sans.thy ===== *)
theory Sans
  imports Prelude
begin

text \<open>
  \<open>nethernet/src/sans.rs\<close>: the trait every state machine of the core implements, \<open>handle\<close> to feed it and \<open>poll\<close> to drain it.
  A handler is a function from the state and an input to the new state and a result.  The locale \<open>sans_machine\<close> states
  what drivers rely on: handling only appends to the queue of outputs, polling takes the oldest, and both keep
  the machine's invariant.  The signalers interpret it on their own handlers.
\<close>

type_synonym ('s, 'e, 'a) step = "'s \<times> ('e, 'a) result"

text \<open>Sequencing of fallible steps on a state: the \<open>?\<close> operator in a method that takes \<open>&mut self\<close>.\<close>

fun st_bind :: "('s, 'e, 'a) step \<Rightarrow> ('a \<Rightarrow> 's \<Rightarrow> ('s, 'e, 'b) step) \<Rightarrow> ('s, 'e, 'b) step" where
  "st_bind (s, Inl e) f = (s, Inl e)"
| "st_bind (s, Inr a) f = f a s"

definition st_ok :: "'s \<Rightarrow> ('s, 'e, unit) step" where
  "st_ok s = (s, Inr ())"

text \<open>Feeding a sequence of inputs, errors of single inputs notwithstanding, as the drivers do.\<close>

definition feed :: "('s \<Rightarrow> 'i \<Rightarrow> ('s, 'e, unit) step) \<Rightarrow> 's \<Rightarrow> 'i list \<Rightarrow> 's" where
  "feed handle s inputs = foldl (\<lambda>s i. fst (handle s i)) s inputs"

text \<open>Polling until nothing is left, at most \<open>fuel\<close> times.\<close>

fun drain :: "('s \<Rightarrow> ('o \<times> 's) option) \<Rightarrow> nat \<Rightarrow> 's \<Rightarrow> 'o list \<times> 's" where
  "drain poll 0 s = ([], s)"
| "drain poll (Suc fuel) s =
     (case poll s of
        None \<Rightarrow> ([], s)
      | Some (out, s') \<Rightarrow> (case drain poll fuel s' of (outs, s'') \<Rightarrow> (out # outs, s'')))"

text \<open>\<open>VecDeque::pop_front\<close> on a field of the state.\<close>

definition pop_front :: "('s \<Rightarrow> 'o list) \<Rightarrow> ('o list \<Rightarrow> 's \<Rightarrow> 's) \<Rightarrow> 's \<Rightarrow> ('o \<times> 's) option" where
  "pop_front queue set_queue s =
     (case queue s of [] \<Rightarrow> None | out # rest \<Rightarrow> Some (out, set_queue rest s))"


section \<open>The contract\<close>

locale sans_machine =
  fixes handle :: "'s \<Rightarrow> 'i \<Rightarrow> ('s, 'e, unit) step"
    and poll :: "'s \<Rightarrow> ('o \<times> 's) option"
    and queue :: "'s \<Rightarrow> 'o list"
    and inv :: "'s \<Rightarrow> bool"
  assumes handle_appends: "\<exists>new. queue (fst (handle s i)) = queue s @ new"
    and poll_empty: "poll s = None \<longleftrightarrow> queue s = []"
    and poll_oldest: "poll s = Some (out, s') \<Longrightarrow> queue s = out # queue s'"
    and handle_inv: "inv s \<Longrightarrow> inv (fst (handle s i))"
    and poll_inv: "inv s \<Longrightarrow> poll s = Some (out, s') \<Longrightarrow> inv s'"
begin

lemma feed_Nil: "feed handle s [] = s"
  by (simp add: feed_def)

lemma feed_Cons: "feed handle s (i # is) = feed handle (fst (handle s i)) is"
  by (simp add: feed_def)

lemma feed_inv: "inv s \<Longrightarrow> inv (feed handle s is)"
  by (induction "is" arbitrary: s) (simp_all add: feed_Nil feed_Cons handle_inv)

text \<open>No output is lost or reordered by feeding more input.\<close>

lemma feed_appends: "\<exists>new. queue (feed handle s is) = queue s @ new"
proof (induction "is" arbitrary: s)
  case (Cons i "is")
  from handle_appends obtain new where "queue (fst (handle s i)) = queue s @ new"
    by blast
  moreover from Cons obtain new' where "queue (feed handle (fst (handle s i)) is) = queue (fst (handle s i)) @ new'"
    by blast
  ultimately show ?case
    by (simp add: feed_Cons)
qed (simp add: feed_Nil)

text \<open>Draining returns the whole queue, oldest first, and leaves none.\<close>

lemma drain_all:
  "length (queue s) \<le> fuel \<Longrightarrow> \<exists>s'. drain poll fuel s = (queue s, s') \<and> queue s' = []"
proof (induction fuel arbitrary: s)
  case (Suc fuel)
  show ?case
  proof (cases "poll s")
    case None
    with poll_empty [of s] show ?thesis
      by simp
  next
    case (Some p)
    then obtain out s1 where p: "poll s = Some (out, s1)"
      by (cases p) auto
    from poll_oldest [OF p] Suc.prems have "length (queue s1) \<le> fuel"
      by simp
    from Suc.IH [OF this] obtain s' where "drain poll fuel s1 = (queue s1, s')" "queue s' = []"
      by blast
    with p poll_oldest [OF p] show ?thesis
      by simp
  qed
qed simp

lemma drain_inv: "inv s \<Longrightarrow> inv (snd (drain poll fuel s))"
proof (induction fuel arbitrary: s)
  case (Suc fuel)
  then show ?case
    by (auto split: option.splits prod.splits dest: poll_inv) (metis poll_inv snd_conv)
qed simp

end


section \<open>Lemmas\<close>

lemma st_ok_simps [simp]: "fst (st_ok s) = s" "snd (st_ok s) = Inr ()"
  by (simp_all add: st_ok_def)

lemma st_bind_ok [simp]: "st_bind (st_ok s) f = f () s"
  by (simp add: st_ok_def)

text \<open>What holds of every state a sequence of steps passes through.\<close>

lemma st_bind_fst:
  assumes "P (fst r)" "\<And>a s. r = (s, Inr a) \<Longrightarrow> P s \<Longrightarrow> P (fst (f a s))"
  shows "P (fst (st_bind r f))"
proof (cases r)
  case (Pair s x)
  with assms show ?thesis
    by (cases x) auto
qed

lemma pop_front_None [simp]: "pop_front q set_q s = None \<longleftrightarrow> q s = []"
  by (simp add: pop_front_def split: list.splits)

lemma pop_front_Some:
  "pop_front q set_q s = Some (out, s') \<longleftrightarrow> (\<exists>rest. q s = out # rest \<and> s' = set_q rest s)"
  by (auto simp: pop_front_def split: list.splits)

end
