(* ===== verification/Lan_Signaler.thy ===== *)
theory Lan_Signaler
  imports Sans Discovery Server_Data Signal Endpoint
begin

text \<open>
  \<open>nethernet/src/signaling/lan\<close>: the LAN signaler, a state machine that answers discovery requests, pins network ids to
  addresses, delivers signals and retransmits its own until they are answered.  Proved here: its invariant and
  bounds over every sequence of inputs, that a pinned network id moves only after its address went quiet, that a
  signal is sent a bounded number of times and then forgotten, and what its timer promises.
\<close>

definition LAN_DISCOVERY_PORT :: u16 where "LAN_DISCOVERY_PORT = 7551"

definition PING :: string where "PING = ''Ping''"

record lan_signaler_config =
  discovery_port :: u16
  broadcast_address :: "socket_addr option"
  broadcast_interval :: duration
  address_timeout :: duration
  signal_retry_interval :: duration
  offer_retry_interval :: duration
  signal_retries :: nat
  max_discovered :: nat

definition lan_config_default :: lan_signaler_config where
  "lan_config_default = \<lparr>
     discovery_port = LAN_DISCOVERY_PORT,
     broadcast_address = None,
     broadcast_interval = 2 * second,
     address_timeout = 15 * second,
     signal_retry_interval = 500 * millisecond,
     offer_retry_interval = 2 * second,
     signal_retries = 3,
     max_discovered = 256\<rparr>"

datatype lan_signaler_error =
    Protocol protocol_error
  | InvalidNetworkId string
  | UnknownNetwork u64

datatype lan_signaler_input =
    InDatagram bytes socket_addr instant
  | InSignal signal instant
  | InSetServerData server_data
  | InUpdate instant

datatype lan_signaler_output =
    OutDatagram bytes socket_addr
  | OutSignal signal
  | OutServerDiscovered u64 server_data
  | OutWait duration

record address_entry =
  ae_addr :: socket_addr
  last_seen :: instant

record pending_signal =
  ps_signal :: signal
  ps_target :: u64
  attempts :: nat
  next_send :: instant

record lan_signaler =
  ls_network_id :: u64
  ls_config :: lan_signaler_config
  ls_addresses :: "(u64, address_entry) hash_map"
  ls_discovered :: "(u64, server_data) hash_map"
  ls_pending :: "pending_signal list"
  ls_server_data :: "server_data option"
  ls_last_broadcast :: "instant option"
  ls_last_cleanup :: "instant option"
  ls_output :: "lan_signaler_output list"

type_synonym lan_step = "(lan_signaler, lan_signaler_error, unit) step"

definition lan_signaler_new :: "u64 \<Rightarrow> lan_signaler_config \<Rightarrow> lan_signaler" where
  "lan_signaler_new nid cfg = \<lparr>
     ls_network_id = nid, ls_config = cfg, ls_addresses = [], ls_discovered = [], ls_pending = [],
     ls_server_data = None, ls_last_broadcast = None, ls_last_cleanup = None, ls_output = []\<rparr>"

definition lan_address :: "lan_signaler \<Rightarrow> u64 \<Rightarrow> socket_addr option" where
  "lan_address s nid = map_option ae_addr (hm_get (ls_addresses s) nid)"

definition lan_pending_signals :: "lan_signaler \<Rightarrow> nat" where
  "lan_pending_signals s = length (ls_pending s)"

definition lan_push :: "lan_signaler_output \<Rightarrow> lan_signaler \<Rightarrow> lan_signaler" where
  "lan_push out s = s\<lparr>ls_output := ls_output s @ [out]\<rparr>"

definition retry_interval :: "lan_signaler_config \<Rightarrow> signal \<Rightarrow> duration" where
  "retry_interval cfg sig =
     (case sig_type sig of Offer \<Rightarrow> offer_retry_interval cfg | _ \<Rightarrow> signal_retry_interval cfg)"

definition answer_request :: "discovery_prims \<Rightarrow> socket_addr \<Rightarrow> lan_signaler \<Rightarrow> lan_step" where
  "answer_request P addr s =
     (case ls_server_data s of
        None \<Rightarrow> st_ok s
      | Some data \<Rightarrow>
          (case packet_encode P (Response \<lparr>application_data = server_data_serialize data\<rparr>) (ls_network_id s) of
             Inl e \<Rightarrow> (s, Inl (Protocol e))
           | Inr buf \<Rightarrow> st_ok (lan_push (OutDatagram buf addr) s)))"

definition handle_response :: "u64 \<Rightarrow> response_packet \<Rightarrow> lan_signaler \<Rightarrow> lan_step" where
  "handle_response sender response s =
     (let full = hm_len (ls_discovered s) \<ge> max_discovered (ls_config s) in
      if full \<and> \<not> hm_contains (ls_discovered s) sender then st_ok s
      else case server_data_decode (application_data response) of
        Inl _ \<Rightarrow> st_ok s
      | Inr data \<Rightarrow>
          st_ok (lan_push (OutServerDiscovered sender data)
            (s\<lparr>ls_discovered := hm_insert sender data (ls_discovered s)\<rparr>)))"

definition handle_message :: "u64 \<Rightarrow> message_packet \<Rightarrow> lan_signaler \<Rightarrow> lan_step" where
  "handle_message sender msg s =
     (if pkt_data msg = [] \<or> pkt_data msg = PING \<or> recipient_id msg \<noteq> ls_network_id s then st_ok s
      else case signal_from_string (pkt_data msg) (u64_to_string sender) of
        Inl _ \<Rightarrow> st_ok s
      | Inr sig \<Rightarrow>
          st_ok (lan_push (OutSignal sig)
            (s\<lparr>ls_pending := filter (\<lambda>p. ps_target p \<noteq> sender \<or>
                 connection_id (ps_signal p) \<noteq> connection_id sig) (ls_pending s)\<rparr>)))"

text \<open>Whether a claim of a network id from another address is refused: its pinned address is still fresh.\<close>

definition pinned_elsewhere :: "lan_signaler \<Rightarrow> u64 \<Rightarrow> socket_addr \<Rightarrow> instant \<Rightarrow> bool" where
  "pinned_elsewhere s sender addr now =
     (case hm_get (ls_addresses s) sender of
        None \<Rightarrow> False
      | Some entry \<Rightarrow> ae_addr entry \<noteq> addr \<and> now - last_seen entry < address_timeout (ls_config s))"

definition handle_datagram :: "discovery_prims \<Rightarrow> bytes \<Rightarrow> socket_addr \<Rightarrow> instant \<Rightarrow> lan_signaler \<Rightarrow> lan_step" where
  "handle_datagram P buf addr now s =
     (case packet_decode P buf of
        Inl _ \<Rightarrow> st_ok s
      | Inr (packet, sender) \<Rightarrow>
          if sender = ls_network_id s then st_ok s
          else if pinned_elsewhere s sender addr now then st_ok s
          else let s1 = s\<lparr>ls_addresses :=
                 hm_insert sender \<lparr>ae_addr = addr, last_seen = now\<rparr> (ls_addresses s)\<rparr> in
            (case packet of
               Request \<Rightarrow> answer_request P addr s1
             | Response response \<Rightarrow> handle_response sender response s1
             | Message msg \<Rightarrow> handle_message sender msg s1))"

definition send_signal :: "discovery_prims \<Rightarrow> signal \<Rightarrow> u64 \<Rightarrow> lan_signaler \<Rightarrow> lan_step" where
  "send_signal P sig target s =
     (case hm_get (ls_addresses s) target of
        None \<Rightarrow> (s, Inl (UnknownNetwork target))
      | Some entry \<Rightarrow>
          (case packet_encode P (Message \<lparr>recipient_id = target, pkt_data = signal_to_string sig\<rparr>)
                  (ls_network_id s) of
             Inl e \<Rightarrow> (s, Inl (Protocol e))
           | Inr buf \<Rightarrow> st_ok (lan_push (OutDatagram buf (ae_addr entry)) s)))"

definition handle_signal :: "discovery_prims \<Rightarrow> signal \<Rightarrow> instant \<Rightarrow> lan_signaler \<Rightarrow> lan_step" where
  "handle_signal P sig now s =
     (case parse_u64 (network_id sig) of
        None \<Rightarrow> (s, Inl (InvalidNetworkId (network_id sig)))
      | Some target \<Rightarrow>
          st_bind (send_signal P sig target s) (\<lambda>_ s1.
            if signal_retries (ls_config s1) > 0
            then st_ok (s1\<lparr>ls_pending := ls_pending s1 @
              [\<lparr>ps_signal = sig, ps_target = target, attempts = 1,
                next_send = now + retry_interval (ls_config s1) sig\<rparr>]\<rparr>)
            else st_ok s1))"

text \<open>One entry of \<open>retain_mut\<close>: what is kept of it, and whether it is due.\<close>

definition retransmit_entry ::
  "lan_signaler_config \<Rightarrow> instant \<Rightarrow> pending_signal \<Rightarrow> pending_signal option \<times> bool" where
  "retransmit_entry cfg now p =
     (if next_send p > now then (Some p, False)
      else if attempts p > signal_retries cfg then (None, False)
      else (Some (p\<lparr>attempts := attempts p + 1, next_send := now + retry_interval cfg (ps_signal p)\<rparr>), True))"

definition retained :: "lan_signaler_config \<Rightarrow> instant \<Rightarrow> pending_signal list \<Rightarrow> pending_signal list" where
  "retained cfg now ps = List.map_filter (\<lambda>p. fst (retransmit_entry cfg now p)) ps"

definition due_signals :: "lan_signaler_config \<Rightarrow> instant \<Rightarrow> pending_signal list \<Rightarrow> (signal \<times> u64) list" where
  "due_signals cfg now ps =
     map (\<lambda>p. (ps_signal p, ps_target p)) (filter (\<lambda>p. snd (retransmit_entry cfg now p)) ps)"

fun resend :: "discovery_prims \<Rightarrow> (signal \<times> u64) list \<Rightarrow> lan_signaler \<Rightarrow> lan_signaler" where
  "resend P [] s = s"
| "resend P ((sig, target) # due) s =
     (case send_signal P sig target s of
        (s1, Inr _) \<Rightarrow> resend P due s1
      | (s1, Inl _) \<Rightarrow> resend P due
          (s1\<lparr>ls_pending := filter (\<lambda>p. ps_target p \<noteq> target \<or> ps_signal p \<noteq> sig) (ls_pending s1)\<rparr>))"

definition retransmit :: "discovery_prims \<Rightarrow> instant \<Rightarrow> lan_signaler \<Rightarrow> lan_step" where
  "retransmit P now s =
     (let ps = ls_pending s; cfg = ls_config s in
      st_ok (resend P (due_signals cfg now ps) (s\<lparr>ls_pending := retained cfg now ps\<rparr>)))"

definition LOCALHOST :: ip_addr where "LOCALHOST = IpV4 (Ipv4 127 0 0 1)"

definition broadcast :: "discovery_prims \<Rightarrow> instant \<Rightarrow> lan_signaler \<Rightarrow> lan_step" where
  "broadcast P now s =
     (case broadcast_address (ls_config s) of
        None \<Rightarrow> st_ok s
      | Some addr \<Rightarrow>
          let due = (case ls_last_broadcast s of
                Some prev \<Rightarrow> now - prev \<ge> broadcast_interval (ls_config s)
              | None \<Rightarrow> True) in
          if \<not> due then st_ok s
          else (case packet_encode P Request (ls_network_id s) of
                  Inl e \<Rightarrow> (s, Inl (Protocol e))
                | Inr buf \<Rightarrow>
                    let s1 = lan_push (OutDatagram buf addr) s;
                        loopback = \<lparr>sock_ip = LOCALHOST, sock_port = sock_port addr\<rparr>;
                        s2 = (if loopback \<noteq> addr then lan_push (OutDatagram buf loopback) s1 else s1)
                    in st_ok (s2\<lparr>ls_last_broadcast := Some now\<rparr>)))"

definition expire :: "instant \<Rightarrow> lan_signaler \<Rightarrow> lan_signaler" where
  "expire now s =
     (let addresses = hm_retain (\<lambda>_ entry. now - last_seen entry < address_timeout (ls_config s)) (ls_addresses s)
      in s\<lparr>ls_addresses := addresses,
           ls_discovered := hm_retain (\<lambda>nid _. hm_contains addresses nid) (ls_discovered s),
           ls_last_cleanup := Some now\<rparr>)"

definition next_timer :: "lan_signaler \<Rightarrow> instant \<Rightarrow> duration" where
  "next_timer s now =
     (let cfg = ls_config s;
          wait = address_timeout cfg;
          wait = (if broadcast_address cfg \<noteq> None
                  then min wait (case ls_last_broadcast s of
                           Some prev \<Rightarrow> (prev + broadcast_interval cfg) - now
                         | None \<Rightarrow> 0)
                  else wait)
      in foldl (\<lambda>w p. min w (next_send p - now)) wait (ls_pending s))"

definition handle_update :: "discovery_prims \<Rightarrow> instant \<Rightarrow> lan_signaler \<Rightarrow> lan_step" where
  "handle_update P now s =
     st_bind (retransmit P now s) (\<lambda>_ s1.
       st_bind (broadcast P now s1) (\<lambda>_ s2.
         let s3 = expire now s2 in
         st_ok (lan_push (OutWait (next_timer s3 now)) s3)))"

fun lan_handle :: "discovery_prims \<Rightarrow> lan_signaler \<Rightarrow> lan_signaler_input \<Rightarrow> lan_step" where
  "lan_handle P s (InDatagram buf addr now) = handle_datagram P buf addr now s"
| "lan_handle P s (InSignal sig now) = handle_signal P sig now s"
| "lan_handle P s (InSetServerData data) = st_ok (s\<lparr>ls_server_data := Some data\<rparr>)"
| "lan_handle P s (InUpdate now) = handle_update P now s"

definition lan_poll :: "lan_signaler \<Rightarrow> (lan_signaler_output \<times> lan_signaler) option" where
  "lan_poll = pop_front ls_output (\<lambda>q s. s\<lparr>ls_output := q\<rparr>)"

subsection \<open>Invariant\<close>

text \<open>Each map holds a key once; every discovered server has a known address and their number is within the limit; the
  signaler's own id has no address; and every pending signal was sent at least once and at most once more than
  the configured number of retries.\<close>

definition lan_inv :: "lan_signaler \<Rightarrow> bool" where
  "lan_inv s \<longleftrightarrow>
     hm_wf (ls_addresses s) \<and> hm_wf (ls_discovered s) \<and>
     (\<forall>nid. hm_get (ls_discovered s) nid \<noteq> None \<longrightarrow> hm_get (ls_addresses s) nid \<noteq> None) \<and>
     hm_len (ls_discovered s) \<le> max_discovered (ls_config s) \<and>
     hm_get (ls_addresses s) (ls_network_id s) = None \<and>
     list_all (\<lambda>p. 1 \<le> attempts p \<and> attempts p \<le> signal_retries (ls_config s) + 1) (ls_pending s)"


section \<open>Lemmas\<close>

lemma lan_push_simps [simp]:
  "ls_network_id (lan_push out s) = ls_network_id s" "ls_config (lan_push out s) = ls_config s"
  "ls_addresses (lan_push out s) = ls_addresses s" "ls_discovered (lan_push out s) = ls_discovered s"
  "ls_pending (lan_push out s) = ls_pending s" "ls_server_data (lan_push out s) = ls_server_data s"
  "ls_last_broadcast (lan_push out s) = ls_last_broadcast s"
  "ls_output (lan_push out s) = ls_output s @ [out]"
  by (simp_all add: lan_push_def)

lemma lan_inv_push [simp]: "lan_inv (lan_push out s) = lan_inv s"
  by (simp add: lan_inv_def)

text \<open>What the sending steps leave alone.\<close>

definition same_but_output :: "lan_signaler \<Rightarrow> lan_signaler \<Rightarrow> bool" where
  "same_but_output s s' \<longleftrightarrow> (\<exists>new. s' = s\<lparr>ls_output := ls_output s @ new\<rparr>)"

lemma same_but_output_refl [simp, intro]: "same_but_output s s"
  unfolding same_but_output_def by (rule exI [of _ "[]"]) simp

lemma same_but_output_push [simp, intro]: "same_but_output s (lan_push out s)"
  unfolding same_but_output_def lan_push_def by blast

lemma same_but_output_fields:
  assumes "same_but_output s s'"
  shows "ls_network_id s' = ls_network_id s" "ls_config s' = ls_config s" "ls_addresses s' = ls_addresses s"
    "ls_discovered s' = ls_discovered s" "ls_pending s' = ls_pending s" "ls_server_data s' = ls_server_data s"
    "ls_last_broadcast s' = ls_last_broadcast s" "\<exists>new. ls_output s' = ls_output s @ new"
  using assms by (auto simp: same_but_output_def)

lemma send_signal_output: "same_but_output s (fst (send_signal P sig target s))"
  by (auto simp: send_signal_def split: option.splits sum.splits)

lemma answer_request_output: "same_but_output s (fst (answer_request P addr s))"
  by (auto simp: answer_request_def split: option.splits sum.splits)

lemma lan_inv_same: "same_but_output s s' \<Longrightarrow> lan_inv s' = lan_inv s"
  by (auto simp: lan_inv_def same_but_output_def)

subsection \<open>Retransmission\<close>

lemma list_all_retained:
  assumes "list_all (\<lambda>p. 1 \<le> attempts p \<and> attempts p \<le> signal_retries cfg + 1) ps"
  shows "list_all (\<lambda>p. 1 \<le> attempts p \<and> attempts p \<le> signal_retries cfg + 1) (retained cfg now ps)"
  using assms by (auto simp: retained_def retransmit_entry_def list_all_iff map_filter_def split: if_splits)

text \<open>Resending appends outputs and only drops pending signals.\<close>

lemma resend_fields:
  "ls_network_id (resend P due s) = ls_network_id s \<and> ls_config (resend P due s) = ls_config s \<and>
   ls_addresses (resend P due s) = ls_addresses s \<and> ls_discovered (resend P due s) = ls_discovered s \<and>
   ls_last_broadcast (resend P due s) = ls_last_broadcast s \<and>
   set (ls_pending (resend P due s)) \<subseteq> set (ls_pending s) \<and>
   (\<exists>new. ls_output (resend P due s) = ls_output s @ new)"
proof (induction due arbitrary: s)
  case (Cons d due)
  obtain sig target where d: "d = (sig, target)"
    by fastforce
  obtain s1 r where step: "send_signal P sig target s = (s1, r)"
    by fastforce
  with send_signal_output [of s P sig target] have "same_but_output s s1"
    by simp
  note s1 = same_but_output_fields [OF this]
  from s1(8) obtain new where new: "ls_output s1 = ls_output s @ new"
    by blast
  show ?case
  proof (cases r)
    case (Inr u)
    then have "resend P (d # due) s = resend P due s1"
      using step d by simp
    with Cons.IH [of s1] s1 new show ?thesis
      by auto
  next
    case (Inl e)
    let ?s2 = "s1\<lparr>ls_pending := filter (\<lambda>p. ps_target p \<noteq> target \<or> ps_signal p \<noteq> sig) (ls_pending s1)\<rparr>"
    from Inl have "resend P (d # due) s = resend P due ?s2"
      using step d by simp
    with Cons.IH [of ?s2] s1 new show ?thesis
      by auto
  qed
qed simp

lemma broadcast_fields:
  "ls_network_id (fst (broadcast P now s)) = ls_network_id s \<and> ls_config (fst (broadcast P now s)) = ls_config s \<and>
   ls_addresses (fst (broadcast P now s)) = ls_addresses s \<and> ls_discovered (fst (broadcast P now s)) = ls_discovered s \<and>
   ls_pending (fst (broadcast P now s)) = ls_pending s \<and>
   (\<exists>new. ls_output (fst (broadcast P now s)) = ls_output s @ new)"
  by (auto simp: broadcast_def Let_def split: option.splits sum.splits)

lemma expire_fields [simp]:
  "ls_network_id (expire now s) = ls_network_id s" "ls_config (expire now s) = ls_config s"
  "ls_pending (expire now s) = ls_pending s" "ls_output (expire now s) = ls_output s"
  "ls_last_broadcast (expire now s) = ls_last_broadcast s"
  by (simp_all add: expire_def Let_def)

subsection \<open>The invariant\<close>

lemma lan_inv_new: "lan_inv (lan_signaler_new nid cfg)"
  by (simp add: lan_inv_def lan_signaler_new_def)

lemma lan_inv_pin:
  "lan_inv s \<Longrightarrow> sender \<noteq> ls_network_id s \<Longrightarrow>
   lan_inv (s\<lparr>ls_addresses := hm_insert sender entry (ls_addresses s)\<rparr>)"
  by (auto simp: lan_inv_def hm_simps)

lemma lan_inv_discover:
  assumes "lan_inv s" "hm_get (ls_addresses s) sender \<noteq> None"
    and "hm_len (ls_discovered s) < max_discovered (ls_config s) \<or> hm_contains (ls_discovered s) sender"
  shows "lan_inv (s\<lparr>ls_discovered := hm_insert sender data (ls_discovered s)\<rparr>)"
  using assms hm.bounded_ins [of "ls_discovered s" "max_discovered (ls_config s)" sender data]
  by (auto simp: lan_inv_def hm_simps hm_contains_get)

lemma lan_inv_pending:
  "lan_inv s \<Longrightarrow> list_all (\<lambda>p. 1 \<le> attempts p \<and> attempts p \<le> signal_retries (ls_config s) + 1) ps \<Longrightarrow>
   lan_inv (s\<lparr>ls_pending := ps\<rparr>)"
  by (simp add: lan_inv_def)

lemma handle_datagram_inv: "lan_inv s \<Longrightarrow> lan_inv (fst (handle_datagram P buf addr now s))"
proof -
  assume inv: "lan_inv s"
  have body: "lan_inv (fst (answer_request P addr s1))" "lan_inv (fst (handle_message sender msg s1))"
    if "lan_inv s1" for s1 sender msg
    using that lan_inv_same [OF answer_request_output]
    by (auto simp: handle_message_def list_all_iff lan_inv_def split: sum.splits)
  have resp: "lan_inv (fst (handle_response sender r s1))"
    if "lan_inv s1" "hm_get (ls_addresses s1) sender \<noteq> None" for s1 sender r
    using that lan_inv_discover [OF that]
    by (auto simp: handle_response_def not_le Let_def split: sum.splits)
  show ?thesis
    using inv
    by (auto simp: handle_datagram_def Let_def hm_simps intro!: body resp lan_inv_pin
        split: sum.splits packets.splits)
qed

lemma handle_signal_inv:
  assumes "lan_inv s"
  shows "lan_inv (fst (handle_signal P sig now s))"
proof (cases "parse_u64 (network_id sig)")
  case None
  with assms show ?thesis
    by (simp add: handle_signal_def)
next
  case (Some target)
  obtain s1 r where step: "send_signal P sig target s = (s1, r)"
    by fastforce
  with assms have "lan_inv s1"
    using lan_inv_same [OF send_signal_output [of s P sig target]] by simp
  with Some step show ?thesis
    by (cases r) (auto simp: handle_signal_def lan_inv_def)
qed

lemma expire_inv: "lan_inv s \<Longrightarrow> lan_inv (expire now s)"
  by (auto simp: lan_inv_def expire_def hm_simps hm_contains_get Let_def
      intro: order_trans [OF hm_len_retain_le] split: option.splits if_splits)

lemma lan_inv_fields:
  assumes "lan_inv s" "ls_network_id s' = ls_network_id s" "ls_config s' = ls_config s"
    and "ls_addresses s' = ls_addresses s" "ls_discovered s' = ls_discovered s"
    and "set (ls_pending s') \<subseteq> set (ls_pending s)"
  shows "lan_inv s'"
  using assms by (auto simp: lan_inv_def list_all_iff)

lemma retransmit_inv:
  assumes "lan_inv s"
  shows "lan_inv (fst (retransmit P now s))"
proof -
  let ?s1 = "s\<lparr>ls_pending := retained (ls_config s) now (ls_pending s)\<rparr>"
  have inv1: "lan_inv ?s1"
    using assms by (rule lan_inv_pending) (rule list_all_retained, use assms in \<open>simp add: lan_inv_def\<close>)
  have "lan_inv (resend P (due_signals (ls_config s) now (ls_pending s)) ?s1)"
    by (rule lan_inv_fields [OF inv1]) (use resend_fields [of P _ ?s1] in simp_all)
  then show ?thesis
    by (simp add: retransmit_def Let_def)
qed

lemma broadcast_inv: "lan_inv s \<Longrightarrow> lan_inv (fst (broadcast P now s))"
  by (rule lan_inv_fields) (use broadcast_fields in auto)

lemma handle_update_inv: "lan_inv s \<Longrightarrow> lan_inv (fst (handle_update P now s))"
  unfolding handle_update_def
  by (intro st_bind_fst [where P = lan_inv] retransmit_inv)
    (auto simp: Let_def intro!: st_bind_fst [where P = lan_inv] broadcast_inv expire_inv)

lemma lan_handle_inv: "lan_inv s \<Longrightarrow> lan_inv (fst (lan_handle P s i))"
  by (cases i) (simp_all add: handle_datagram_inv handle_signal_inv handle_update_inv, simp add: lan_inv_def)

subsection \<open>Outputs\<close>

lemma handle_update_fields:
  defines "ps s now \<equiv> retained (ls_config s) now (ls_pending s)"
  shows "ls_network_id (fst (handle_update P now s)) = ls_network_id s \<and>
    ls_config (fst (handle_update P now s)) = ls_config s \<and>
    set (ls_pending (fst (handle_update P now s))) \<subseteq> set (ps s now) \<and>
    (ls_addresses (fst (handle_update P now s)) = ls_addresses s \<or>
     ls_addresses (fst (handle_update P now s)) =
       hm_retain (\<lambda>_ entry. now - last_seen entry < address_timeout (ls_config s)) (ls_addresses s)) \<and>
    (\<exists>new. ls_output (fst (handle_update P now s)) = ls_output s @ new)"
proof -
  let ?s1 = "resend P (due_signals (ls_config s) now (ls_pending s)) (s\<lparr>ls_pending := ps s now\<rparr>)"
  note r = resend_fields [of P "due_signals (ls_config s) now (ls_pending s)" "s\<lparr>ls_pending := ps s now\<rparr>"]
  obtain s2 x where b: "broadcast P now ?s1 = (s2, x)"
    by fastforce
  note f = broadcast_fields [of P now ?s1, unfolded b fst_conv]
  from r f have "\<exists>new. ls_output s2 = ls_output s @ new"
    by auto
  with r f b show ?thesis
    by (cases x) (auto simp: handle_update_def retransmit_def expire_def ps_def Let_def)
qed

lemma handle_datagram_output: "\<exists>new. ls_output (fst (handle_datagram P buf addr now s)) = ls_output s @ new"
proof -
  have "\<exists>new. ls_output (fst (answer_request P addr s1)) = ls_output s1 @ new" for s1
    using same_but_output_fields(8) [OF answer_request_output] .
  then show ?thesis
    by (auto simp: handle_datagram_def handle_response_def handle_message_def Let_def
        split: sum.splits packets.splits) (metis lan_signaler.select_convs(9) lan_signaler.surjective lan_signaler.update_convs(3))
qed

lemma handle_signal_output: "\<exists>new. ls_output (fst (handle_signal P sig now s)) = ls_output s @ new"
proof (cases "parse_u64 (network_id sig)")
  case (Some target)
  obtain s1 r where step: "send_signal P sig target s = (s1, r)"
    by fastforce
  then have "\<exists>new. ls_output s1 = ls_output s @ new"
    using same_but_output_fields(8) [OF send_signal_output [of s P sig target]] by simp
  with Some step show ?thesis
    by (cases r) (auto simp: handle_signal_def)
qed (simp add: handle_signal_def)

lemma lan_handle_output: "\<exists>new. ls_output (fst (lan_handle P s i)) = ls_output s @ new"
  by (cases i) (simp_all add: handle_datagram_output handle_signal_output handle_update_fields)

lemma lan_poll_Some:
  "lan_poll s = Some (out, s') \<longleftrightarrow> (\<exists>rest. ls_output s = out # rest \<and> s' = s\<lparr>ls_output := rest\<rparr>)"
  by (simp add: lan_poll_def pop_front_Some)

interpretation lan: sans_machine "lan_handle P" lan_poll ls_output lan_inv for P
proof unfold_locales
  show "lan_poll s = None \<longleftrightarrow> ls_output s = []" for s
    by (simp add: lan_poll_def)
  show "lan_inv s \<Longrightarrow> lan_poll s = Some (out, s') \<Longrightarrow> lan_inv s'" for s out s'
    by (auto simp: lan_poll_Some lan_inv_def)
qed (auto simp: lan_poll_Some lan_handle_inv lan_handle_output)

lemma lan_handle_config: "ls_config (fst (lan_handle P s i)) = ls_config s"
proof (cases i)
  case (InDatagram buf addr now)
  have "ls_config (fst (answer_request P addr s1)) = ls_config s1" for s1
    using same_but_output_fields(2) [OF answer_request_output] .
  then show ?thesis
    by (auto simp: InDatagram handle_datagram_def handle_response_def handle_message_def Let_def
        split: sum.splits packets.splits)
next
  case (InSignal sig now)
  have "ls_config (fst (send_signal P sig target s)) = ls_config s" for target
    using same_but_output_fields(2) [OF send_signal_output] .
  then show ?thesis
    unfolding InSignal lan_handle.simps handle_signal_def
    by (auto intro!: st_bind_fst [where P = "\<lambda>s'. ls_config s' = ls_config s"] split: option.splits)
qed (simp_all add: handle_update_fields)

lemma feed_config: "ls_config (feed (lan_handle P) s inputs) = ls_config s"
  by (induction inputs arbitrary: s) (simp_all add: lan.feed_Nil lan.feed_Cons lan_handle_config)

subsection \<open>Pinned addresses\<close>

lemma lan_addresses_step:
  "ls_addresses (fst (lan_handle P s i)) = ls_addresses s \<or>
   (\<exists>now. i = InUpdate now \<and> ls_addresses (fst (lan_handle P s i)) =
      hm_retain (\<lambda>_ entry. now - last_seen entry < address_timeout (ls_config s)) (ls_addresses s)) \<or>
   (\<exists>buf addr now packet sender. i = InDatagram buf addr now \<and> packet_decode P buf = Inr (packet, sender) \<and>
      \<not> pinned_elsewhere s sender addr now \<and>
      ls_addresses (fst (lan_handle P s i)) = hm_insert sender \<lparr>ae_addr = addr, last_seen = now\<rparr> (ls_addresses s))"
proof (cases i)
  case (InDatagram buf addr now)
  have "ls_addresses (fst (answer_request P addr s1)) = ls_addresses s1" for s1
    using same_but_output_fields(3) [OF answer_request_output] .
  then show ?thesis
    by (auto simp: InDatagram handle_datagram_def handle_response_def handle_message_def Let_def
        split: sum.splits packets.splits)
next
  case (InSignal sig now)
  have "ls_addresses (fst (handle_signal P sig now s)) = ls_addresses s"
  proof (cases "parse_u64 (network_id sig)")
    case (Some target)
    obtain s1 r where step: "send_signal P sig target s = (s1, r)"
      by fastforce
    then have "ls_addresses s1 = ls_addresses s"
      using same_but_output_fields(3) [OF send_signal_output [of s P sig target]] by simp
    with Some step show ?thesis
      by (cases r) (auto simp: handle_signal_def)
  qed (simp add: handle_signal_def)
  then show ?thesis
    by (simp add: InSignal)
next
  case (InUpdate now)
  then show ?thesis
    using handle_update_fields [of P now s] by auto
qed simp

lemma pinned_address_moves:
  assumes "lan_inv s" "hm_get (ls_addresses s) nid = Some entry"
    and "hm_get (ls_addresses (fst (lan_handle P s i))) nid = Some entry'" "ae_addr entry' \<noteq> ae_addr entry"
  shows "\<exists>buf now packet. i = InDatagram buf (ae_addr entry') now \<and> packet_decode P buf = Inr (packet, nid) \<and>
    last_seen entry' = now \<and> now - last_seen entry \<ge> address_timeout (ls_config s)"
  using lan_addresses_step [of P s i]
proof (elim disjE exE conjE)
  fix now
  assume "ls_addresses (fst (lan_handle P s i)) =
      hm_retain (\<lambda>_ entry. now - last_seen entry < address_timeout (ls_config s)) (ls_addresses s)"
  with assms show ?thesis
    by (auto simp: hm_simps lan_inv_def split: if_splits)
next
  fix buf addr now packet sender
  assume "i = InDatagram buf addr now" "packet_decode P buf = Inr (packet, sender)"
    "\<not> pinned_elsewhere s sender addr now"
    "ls_addresses (fst (lan_handle P s i)) = hm_insert sender \<lparr>ae_addr = addr, last_seen = now\<rparr> (ls_addresses s)"
  with assms show ?thesis
    by (auto simp: hm_simps pinned_elsewhere_def split: if_splits)
qed (use assms in simp)

subsection \<open>Retransmissions end\<close>

text \<open>Instants at least \<open>gap\<close> apart.\<close>

fun spaced :: "duration \<Rightarrow> instant list \<Rightarrow> bool" where
  "spaced gap (t # u # ts) \<longleftrightarrow> t + gap \<le> u \<and> spaced gap (u # ts)"
| "spaced gap ts \<longleftrightarrow> True"

lemma retry_interval_le:
  "offer_retry_interval cfg \<le> gap \<Longrightarrow> signal_retry_interval cfg \<le> gap \<Longrightarrow> retry_interval cfg sig \<le> gap"
  by (cases "sig_type sig") (simp_all add: retry_interval_def)

lemma retained_due:
  assumes "p' \<in> set (retained cfg now ps)" "list_all (\<lambda>p. next_send p \<le> now) ps"
  shows "\<exists>p \<in> set ps. attempts p \<le> signal_retries cfg \<and> attempts p' = attempts p + 1 \<and>
    next_send p' = now + retry_interval cfg (ps_signal p)"
  using assms by (force simp: retained_def retransmit_entry_def map_filter_def list_all_iff split: if_splits)

lemma updates_empty_pending:
  assumes "lan_inv s" "spaced gap ts"
    and "offer_retry_interval (ls_config s) \<le> gap" "signal_retry_interval (ls_config s) \<le> gap"
    and "\<forall>p \<in> set (ls_pending s). k \<le> attempts p \<and> (\<forall>t \<in> set (take 1 ts). next_send p \<le> t)"
    and "signal_retries (ls_config s) + 2 \<le> k + length ts"
  shows "ls_pending (feed (lan_handle P) s (map InUpdate ts)) = []"
  using assms
proof (induction ts arbitrary: s k)
  case Nil
  then have "\<forall>p \<in> set (ls_pending s). False"
    by (force simp: lan_inv_def list_all_iff)
  then show ?case
    by (cases "ls_pending s") (auto simp: lan.feed_Nil)
next
  case (Cons t ts)
  let ?s = "fst (lan_handle P s (InUpdate t))"
  note fields = handle_update_fields [of P t s]
  have "list_all (\<lambda>p. next_send p \<le> t) (ls_pending s)"
    using Cons.prems(5) by (simp add: list_all_iff)
  note due = retained_due [OF _ this]
  have "Suc k \<le> attempts p \<and> (\<forall>u \<in> set (take 1 ts). next_send p \<le> u)" if p: "p \<in> set (ls_pending ?s)" for p
  proof -
    from p fields have "p \<in> set (retained (ls_config s) t (ls_pending s))"
      by auto
    from due [OF this] obtain q where "q \<in> set (ls_pending s)" "attempts p = attempts q + 1"
      "next_send p = t + retry_interval (ls_config s) (ps_signal q)"
      by blast
    moreover have "retry_interval (ls_config s) (ps_signal q) \<le> gap"
      using Cons.prems(3,4) by (rule retry_interval_le)
    ultimately show ?thesis
      using Cons.prems(2,5) by (cases ts) auto
  qed
  moreover have "spaced gap ts"
    using Cons.prems(2) by (cases ts) auto
  moreover have "lan_inv ?s"
    using Cons.prems(1) by (rule lan_handle_inv)
  ultimately have "ls_pending (feed (lan_handle P) ?s (map InUpdate ts)) = []"
    using Cons.prems(3,4,6) fields by (intro Cons.IH [of ?s "Suc k"]) auto
  then show ?case
    by (simp add: lan.feed_Cons)
qed

subsection \<open>The timer\<close>

lemma packet_encode_request: "\<exists>buf. packet_encode P Request nid = Inr buf"
  by (simp add: packet_encode_def Let_def)

lemma handle_update_ok:
  "\<exists>s2. snd (handle_update P now s) = Inr () \<and>
     fst (handle_update P now s) = lan_push (OutWait (next_timer (expire now s2) now)) (expire now s2) \<and>
     ls_config s2 = ls_config s \<and> ls_addresses s2 = ls_addresses s \<and> set (ls_pending s2) \<subseteq> set (retained (ls_config s) now (ls_pending s)) \<and>
     (broadcast_address (ls_config s) = None \<or>
      (\<exists>b. ls_last_broadcast s2 = Some b \<and> (b = now \<or> now - b < broadcast_interval (ls_config s))))"
proof -
  let ?s1 = "resend P (due_signals (ls_config s) now (ls_pending s))
      (s\<lparr>ls_pending := retained (ls_config s) now (ls_pending s)\<rparr>)"
  note r = resend_fields [of P "due_signals (ls_config s) now (ls_pending s)"
      "s\<lparr>ls_pending := retained (ls_config s) now (ls_pending s)\<rparr>"]
  obtain buf where buf: "packet_encode P Request (ls_network_id s) = Inr buf"
    using packet_encode_request by blast
  with r have ok: "snd (broadcast P now ?s1) = Inr ()"
    by (auto simp: broadcast_def Let_def split: option.splits)
  then obtain s2 where b: "broadcast P now ?s1 = (s2, Inr ())"
    by (metis prod.collapse)
  note f = broadcast_fields [of P now ?s1, unfolded b fst_conv]
  have "broadcast_address (ls_config s) = None \<or>
      (\<exists>b. ls_last_broadcast s2 = Some b \<and> (b = now \<or> now - b < broadcast_interval (ls_config s)))"
  proof (cases "broadcast_address (ls_config s)")
    case (Some addr)
    have "fst (broadcast P now ?s1) = s2"
      by (simp add: b)
    with Some buf r show ?thesis
      by (cases "ls_last_broadcast s") (auto simp: broadcast_def Let_def not_le split: if_splits)
  qed simp
  with b r f show ?thesis
    by (intro exI [of _ s2]) (auto simp: handle_update_def retransmit_def Let_def)
qed

lemma retained_next:
  assumes "p \<in> set (retained cfg now ps)" "0 < offer_retry_interval cfg" "0 < signal_retry_interval cfg"
  shows "now < next_send p"
  using assms
  by (auto simp: retained_def retransmit_entry_def retry_interval_def map_filter_def split: if_splits signal_type.splits)


lemma update_timer:
  assumes "lan_inv s" "0 < offer_retry_interval (ls_config s)" "0 < signal_retry_interval (ls_config s)"
    and "0 < broadcast_interval (ls_config s)" "0 < address_timeout (ls_config s)"
  obtains s' w where "lan_handle P s (InUpdate now) = (s', Inr ())"
    and "ls_output s' \<noteq> []" "last (ls_output s') = OutWait w" "0 < w" "w \<le> address_timeout (ls_config s)"
    and "\<forall>p \<in> set (ls_pending s'). now + w \<le> next_send p"
    and "broadcast_address (ls_config s) \<noteq> None \<Longrightarrow>
      \<exists>b. ls_last_broadcast s' = Some b \<and> now + w \<le> b + broadcast_interval (ls_config s)"
    and "\<forall>nid entry. hm_get (ls_addresses s') nid = Some entry \<longrightarrow>
      now - last_seen entry < address_timeout (ls_config s)"
proof -
  obtain s2 where ok: "snd (handle_update P now s) = Inr ()"
    and st: "fst (handle_update P now s) = lan_push (OutWait (next_timer (expire now s2) now)) (expire now s2)"
    and cfg: "ls_config s2 = ls_config s" "ls_addresses s2 = ls_addresses s"
    and ps: "set (ls_pending s2) \<subseteq> set (retained (ls_config s) now (ls_pending s))"
    and bc: "broadcast_address (ls_config s) = None \<or>
      (\<exists>b. ls_last_broadcast s2 = Some b \<and> (b = now \<or> now - b < broadcast_interval (ls_config s)))"
    using handle_update_ok by blast
  let ?w = "next_timer (expire now s2) now"
  have later: "now < next_send p" if "p \<in> set (ls_pending s2)" for p
    using that ps assms(2,3) by (blast intro: retained_next)
  define w0 where "w0 = (if broadcast_address (ls_config s) \<noteq> None
      then min (address_timeout (ls_config s)) (case ls_last_broadcast s2 of
               Some prev \<Rightarrow> (prev + broadcast_interval (ls_config s)) - now
             | None \<Rightarrow> 0)
      else address_timeout (ls_config s))"
  have w: "?w = foldl (\<lambda>w p. min w (next_send p - now)) w0 (ls_pending s2)"
    by (simp add: next_timer_def w0_def cfg Let_def)
  have w0: "0 < w0" "w0 \<le> address_timeout (ls_config s)"
    using bc assms(4,5) by (auto simp: w0_def)
  have "0 < ?w"
    unfolding w using w0(1) later by (intro foldl_min_pos) auto
  moreover have le: "?w \<le> w0"
    unfolding w by (rule foldl_min_start)
  moreover have "now + ?w \<le> next_send p" if "p \<in> set (ls_pending s2)" for p
    using foldl_min_member [OF that, of "\<lambda>p. next_send p - now" w0] later [OF that] w by linarith
  moreover have "\<exists>b. ls_last_broadcast s2 = Some b \<and> now + ?w \<le> b + broadcast_interval (ls_config s)"
    if "broadcast_address (ls_config s) \<noteq> None"
    using bc that le w0(1) by (auto simp: w0_def split: if_splits)
  moreover have "hm_get (ls_addresses (expire now s2)) nid = Some entry \<Longrightarrow>
      now - last_seen entry < address_timeout (ls_config s)" for nid entry
    using assms(1) cfg by (auto simp: lan_inv_def expire_def Let_def hm_simps split: option.splits if_splits)
  ultimately show thesis
    using w0 le ok st
    by (intro that [of "fst (handle_update P now s)" ?w]) (auto simp: prod_eq_iff)
qed


subsection \<open>Exchanges between two signalers\<close>

lemma signal_text_not_ping: "signal_to_string sig \<noteq> [] \<and> signal_to_string sig \<noteq> PING"
  by (cases "sig_type sig") (simp_all add: signal_to_string_def PING_def)

lemma lan_address_pin [simp]:
  "lan_address (s\<lparr>ls_addresses := hm_insert k \<lparr>ae_addr = a, last_seen = t\<rparr> m\<rparr>) k = Some a"
  by (simp add: lan_address_def hm_simps)

lemma handle_signal_sends:
  assumes "lan_handle P a (InSignal sig now) = (a', Inr ())"
    and "parse_u64 (network_id sig) = Some target" "hm_get (ls_addresses a) target = Some entry"
  obtains buf where "ls_output a' = ls_output a @ [OutDatagram buf (ae_addr entry)]"
    and "packet_encode P (Message \<lparr>recipient_id = target, pkt_data = signal_to_string sig\<rparr>) (ls_network_id a) = Inr buf"
  using assms by (auto simp: handle_signal_def send_signal_def st_ok_def split: sum.splits if_splits)

lemma handle_datagram_message:
  assumes "packet_decode P buf = Inr (Message \<lparr>recipient_id = ls_network_id b, pkt_data = signal_to_string sig\<rparr>, sender)"
    and "sender \<noteq> ls_network_id b" "\<not> pinned_elsewhere b sender addr now"
  defines "b' \<equiv> fst (lan_handle P b (InDatagram buf addr now))"
  shows "ls_output b' = ls_output b @ [OutSignal (sig\<lparr>network_id := u64_to_string sender\<rparr>)]"
    and "lan_address b' sender = Some addr"
    and "ls_pending b' = filter (\<lambda>p. ps_target p \<noteq> sender \<or> connection_id (ps_signal p) \<noteq> connection_id sig) (ls_pending b)"
  using assms(1-3) signal_text_not_ping [of sig]
  by (simp_all add: b'_def handle_datagram_def handle_message_def signal_round_trip lan_address_def hm_simps Let_def)

lemma handle_datagram_request:
  assumes "lan_handle P srv (InDatagram buf addr now) = (srv', Inr ())" "packet_decode P buf = Inr (Request, sender)"
    and "sender \<noteq> ls_network_id srv" "\<not> pinned_elsewhere srv sender addr now" "ls_server_data srv = Some data"
  obtains reply where "ls_output srv' = ls_output srv @ [OutDatagram reply addr]"
    and "packet_encode P (Response \<lparr>application_data = server_data_serialize data\<rparr>) (ls_network_id srv) = Inr reply"
  using assms by (auto simp: handle_datagram_def answer_request_def st_ok_def Let_def split: sum.splits)

lemma handle_datagram_response:
  assumes "packet_decode P buf = Inr (Response \<lparr>application_data = server_data_serialize data\<rparr>, sender)"
    and "server_data_wf data" "sender \<noteq> ls_network_id c" "\<not> pinned_elsewhere c sender addr now"
    and "hm_len (ls_discovered c) < max_discovered (ls_config c)"
  defines "c' \<equiv> fst (lan_handle P c (InDatagram buf addr now))"
  shows "ls_output c' = ls_output c @ [OutServerDiscovered sender (data\<lparr>transport_layer := 2\<rparr>)]"
    and "hm_get (ls_discovered c') sender = Some (data\<lparr>transport_layer := 2\<rparr>)"
    and "lan_address c' sender = Some addr"
  using assms(1-5)
  by (simp_all add: c'_def handle_datagram_def handle_response_def server_data_decode_serialize lan_address_def hm_simps Let_def)

subsection \<open>Two hosts used in examples\<close>

definition host_addr :: "u8 \<Rightarrow> u16 \<Rightarrow> socket_addr" where
  "host_addr n port = \<lparr>sock_ip = IpV4 (Ipv4 192 168 0 n), sock_port = port\<rparr>"

definition host_knowing :: "u64 \<Rightarrow> u64 \<Rightarrow> socket_addr \<Rightarrow> lan_signaler" where
  "host_knowing me peer addr =
     (lan_signaler_new me lan_config_default)\<lparr>ls_addresses := [(peer, \<lparr>ae_addr = addr, last_seen = 0\<rparr>)]\<rparr>"

lemma lan_inv_host_knowing: "me \<noteq> peer \<Longrightarrow> lan_inv (host_knowing me peer addr)"
  by (simp add: host_knowing_def lan_inv_def lan_signaler_new_def hm_wf_def hm_get_def)

section \<open>Properties\<close>





text \<open>C32: Retransmission ends: from any state whose pending signals are due by the first of them, \<open>signal_retries + 1\<close>
  updates spaced by at least the retry intervals leave nothing pending, whether or not the peers ever answer.\<close>

theorem retransmission_ends:
  assumes "lan_inv s" "spaced gap ts" "length ts = signal_retries (ls_config s) + 1"
    and "offer_retry_interval (ls_config s) \<le> gap" "signal_retry_interval (ls_config s) \<le> gap"
    and "\<forall>p \<in> set (ls_pending s). next_send p \<le> hd ts"
  shows "ls_pending (feed (lan_handle P) s (map InUpdate ts)) = []"
proof (rule updates_empty_pending [OF assms(1,2,4,5), of 1])
  show "\<forall>p \<in> set (ls_pending s). 1 \<le> attempts p \<and> (\<forall>t \<in> set (take 1 ts). next_send p \<le> t)"
    using assms(1,3,6) by (cases ts) (auto simp: lan_inv_def list_all_iff)
qed (use assms(3) in simp)

theorem retransmission_ends_witness:
  "\<exists>s. ls_pending s \<noteq> [] \<and>
     ls_pending (feed (lan_handle sample_prims) s
       (map InUpdate [2 * second, 4 * second, 6 * second, 8 * second])) = []"
proof -
  let ?sig = "signal_new Offer 7 ''v=0'' ''5''"
  let ?s = "(host_knowing 4 5 (host_addr 1 7551))\<lparr>ls_pending :=
      [\<lparr>ps_signal = ?sig, ps_target = 5, attempts = 1, next_send = 2 * second\<rparr>]\<rparr>"
  have "lan_inv ?s"
    using lan_inv_host_knowing [of 4 5 "host_addr 1 7551"] by (simp add: lan_inv_def)
  then have "ls_pending (feed (lan_handle sample_prims) ?s
       (map InUpdate [2 * second, 4 * second, 6 * second, 8 * second])) = []"
    by (rule retransmission_ends [where gap = "2 * second"])
      (simp_all add: host_knowing_def lan_signaler_new_def lan_config_default_def second_def millisecond_def)
  then show ?thesis
    by (intro exI [of _ ?s]) simp
qed

text \<open>The timer is sound: an update never fails, and the last thing it outputs is how long to wait.  With
  positive intervals the wait is positive and at most \<open>address_timeout\<close>, no pending signal and no broadcast becomes due
  before it is over, and every address that is left was heard from within \<open>address_timeout\<close>.\<close>

lemma update_timer_sound:
  assumes "lan_inv s" "0 < offer_retry_interval (ls_config s)" "0 < signal_retry_interval (ls_config s)"
    and "0 < broadcast_interval (ls_config s)" "0 < address_timeout (ls_config s)"
  shows "\<exists>s' w. lan_handle P s (InUpdate now) = (s', Inr ()) \<and>
    ls_output s' \<noteq> [] \<and> last (ls_output s') = OutWait w \<and> 0 < w \<and> w \<le> address_timeout (ls_config s) \<and>
    (\<forall>p \<in> set (ls_pending s'). now + w \<le> next_send p) \<and>
    (broadcast_address (ls_config s) \<noteq> None \<longrightarrow>
      (\<exists>b. ls_last_broadcast s' = Some b \<and> now + w \<le> b + broadcast_interval (ls_config s))) \<and>
    (\<forall>nid entry. hm_get (ls_addresses s') nid = Some entry \<longrightarrow>
      now - last_seen entry < address_timeout (ls_config s))"
  by (rule update_timer [OF assms, of P now]) blast

lemma update_timer_sound_witness:
  "\<exists>s' w. lan_handle sample_prims (host_knowing 4 5 (host_addr 1 7551)) (InUpdate 9) = (s', Inr ()) \<and>
     last (ls_output s') = OutWait w \<and> 0 < w \<and> w \<le> 15 * second"
proof -
  have "lan_inv (host_knowing 4 5 (host_addr 1 7551))"
    by (simp add: lan_inv_host_knowing)
  from update_timer_sound [OF this, of sample_prims 9] show ?thesis
    by (auto simp: host_knowing_def lan_signaler_new_def lan_config_default_def second_def millisecond_def)
qed

text \<open>C33: A signal reaches its peer: when signaler \<open>a\<close> knows the address of \<open>b\<close> and accepts a signal for it, it sends
  one datagram there, and when that datagram arrives, from whatever address \<open>a\<close> is not refused at, \<open>b\<close> outputs exactly
  that signal with \<open>a\<close> as its sender, remembers the address, and stops retransmitting to \<open>a\<close> for that
  connection.\<close>

theorem signal_delivered:
  assumes "prims_ok P" "is_str (sig_data sig)"
    and "parse_u64 (network_id sig) = Some (ls_network_id b)" "ls_network_id a \<noteq> ls_network_id b"
    and "hm_get (ls_addresses a) (ls_network_id b) = Some entry"
    and "lan_handle P a (InSignal sig now) = (a', Inr ())"
    and "\<not> pinned_elsewhere b (ls_network_id a) source arrival"
  shows "\<exists>buf. ls_output a' = ls_output a @ [OutDatagram buf (ae_addr entry)] \<and>
     (let b' = fst (lan_handle P b (InDatagram buf source arrival)) in
      ls_output b' = ls_output b @ [OutSignal (sig\<lparr>network_id := u64_to_string (ls_network_id a)\<rparr>)] \<and>
      lan_address b' (ls_network_id a) = Some source \<and>
      ls_pending b' = filter (\<lambda>p. ps_target p \<noteq> ls_network_id a \<or>
        connection_id (ps_signal p) \<noteq> connection_id sig) (ls_pending b))"
proof -
  obtain buf where out: "ls_output a' = ls_output a @ [OutDatagram buf (ae_addr entry)]"
    and enc: "packet_encode P (Message \<lparr>recipient_id = ls_network_id b, pkt_data = signal_to_string sig\<rparr>)
      (ls_network_id a) = Inr buf"
    using handle_signal_sends [OF assms(6,3,5)] .
  have "packet_decode P buf = Inr (Message \<lparr>recipient_id = ls_network_id b, pkt_data = signal_to_string sig\<rparr>,
      ls_network_id a)"
    by (rule packet_round_trip_lemma [OF assms(1) _ enc]) (simp add: signal_to_string_is_str assms(2))
  from handle_datagram_message [OF this assms(4,7)] out show ?thesis
    by (auto simp: Let_def)
qed

theorem signal_delivered_witness:
  "\<exists>a' buf. lan_handle sample_prims (host_knowing 4 5 (host_addr 1 7551)) (InSignal (signal_new Offer 7 ''v=0'' ''5'') 9) =
       (a', Inr ()) \<and>
     ls_output a' = [OutDatagram buf (host_addr 1 7551)] \<and>
     ls_output (fst (lan_handle sample_prims (lan_signaler_new 5 lan_config_default)
         (InDatagram buf (host_addr 2 50000) 11))) = [OutSignal (signal_new Offer 7 ''v=0'' ''4'')]"
proof -
  let ?a = "host_knowing 4 5 (host_addr 1 7551)"
  let ?b = "lan_signaler_new 5 lan_config_default"
  let ?sig = "signal_new Offer 7 ''v=0'' ''5''"
  have four: "u64_to_string 4 = ''4''" and five: "u64_to_string 5 = ''5''"
    by (simp_all add: u64_to_string_def dec.simps digit_char_def) code_simp+
  have fives: "parse_u64 ''5'' = Some 5"
    using parse_u64_to_string [of 5] by (simp add: five)
  obtain buf where enc: "packet_encode sample_prims
      (Message \<lparr>recipient_id = 5, pkt_data = signal_to_string ?sig\<rparr>) 4 = Inr buf"
    by (auto simp: packet_encode_def message_packet_serialize_def write_bytes_u32_def MAX_BYTES_def Let_def
        signal_to_string_def signal_new_def u64_to_string_def dec.simps)
  then have "snd (lan_handle sample_prims ?a (InSignal ?sig 9)) = Inr ()"
    by (simp add: handle_signal_def send_signal_def host_knowing_def lan_signaler_new_def signal_new_def
        fives hm_get_def)
  then obtain a' where a': "lan_handle sample_prims ?a (InSignal ?sig 9) = (a', Inr ())"
    by (metis prod.collapse)
  have "is_str (sig_data ?sig)" "parse_u64 (network_id ?sig) = Some (ls_network_id ?b)"
    and "ls_network_id ?a \<noteq> ls_network_id ?b"
    and "hm_get (ls_addresses ?a) (ls_network_id ?b) = Some \<lparr>ae_addr = host_addr 1 7551, last_seen = 0\<rparr>"
    and "\<not> pinned_elsewhere ?b (ls_network_id ?a) (host_addr 2 50000) 11"
    by (simp_all add: signal_new_def is_ascii_is_str fives lan_signaler_new_def host_knowing_def hm_get_def
        pinned_elsewhere_def)
  from signal_delivered [OF sample_prims_ok this(1-4) a' this(5)] a' show ?thesis
    by (auto simp: Let_def host_knowing_def lan_signaler_new_def signal_new_def four)
qed


text \<open>Discovery works end to end: a server with server data that hears a client's request, from an address it does
  not refuse, replies to that address, and the client that receives the reply reports the server with its data (its
  transport layer read as 2) and remembers its address, as long as its table of servers has room.\<close>

lemma server_discovered:
  assumes "prims_ok P" "server_data_wf data" "ls_server_data srv = Some data"
    and "ls_network_id client \<noteq> ls_network_id srv"
    and "packet_encode P Request (ls_network_id client) = Inr request"
    and "\<not> pinned_elsewhere srv (ls_network_id client) client_addr now"
    and "lan_handle P srv (InDatagram request client_addr now) = (srv', Inr ())"
    and "\<not> pinned_elsewhere client (ls_network_id srv) srv_addr later"
    and "hm_len (ls_discovered client) < max_discovered (ls_config client)"
  shows "\<exists>reply. ls_output srv' = ls_output srv @ [OutDatagram reply client_addr] \<and>
     (let client' = fst (lan_handle P client (InDatagram reply srv_addr later)) in
      ls_output client' = ls_output client @ [OutServerDiscovered (ls_network_id srv) (data\<lparr>transport_layer := 2\<rparr>)] \<and>
      hm_get (ls_discovered client') (ls_network_id srv) = Some (data\<lparr>transport_layer := 2\<rparr>) \<and>
      lan_address client' (ls_network_id srv) = Some srv_addr)"
proof -
  have "packet_decode P request = Inr (Request, ls_network_id client)"
    by (rule packet_round_trip_lemma [OF assms(1) _ assms(5)]) simp
  then obtain reply where out: "ls_output srv' = ls_output srv @ [OutDatagram reply client_addr]"
    and enc: "packet_encode P (Response \<lparr>application_data = server_data_serialize data\<rparr>) (ls_network_id srv) = Inr reply"
    using handle_datagram_request [OF assms(7) _ assms(4,6,3)] by metis
  have "packet_decode P reply = Inr (Response \<lparr>application_data = server_data_serialize data\<rparr>, ls_network_id srv)"
    by (rule packet_round_trip_lemma [OF assms(1) _ enc]) simp
  from handle_datagram_response [OF this assms(2) _ assms(8,9)] out assms(4) show ?thesis
    by (auto simp: Let_def)
qed

lemma server_discovered_witness:
  "\<exists>srv request reply. ls_server_data srv = Some (server_data_new ''Srv'' ''World'') \<and>
     fst (lan_handle sample_prims srv (InDatagram request (host_addr 2 50000) 3)) =
       srv\<lparr>ls_addresses := [(4, \<lparr>ae_addr = host_addr 2 50000, last_seen = 3\<rparr>)],
           ls_output := [OutDatagram reply (host_addr 2 50000)]\<rparr> \<and>
     ls_output (fst (lan_handle sample_prims (lan_signaler_new 4 lan_config_default)
         (InDatagram reply (host_addr 1 7551) 5))) =
       [OutServerDiscovered 5 ((server_data_new ''Srv'' ''World'')\<lparr>transport_layer := 2\<rparr>)]"
proof -
  let ?d = "server_data_new ''Srv'' ''World''"
  let ?srv = "(lan_signaler_new 5 lan_config_default)\<lparr>ls_server_data := Some ?d\<rparr>"
  let ?cl = "lan_signaler_new 4 lan_config_default"
  have wf: "server_data_wf ?d"
    by (simp add: server_data_wf_def server_data_new_def is_ascii_is_str MAX_BYTES_def)
  obtain request where req: "packet_encode sample_prims Request (ls_network_id ?cl) = Inr request"
    using packet_encode_request by blast
  have "packet_decode sample_prims request = Inr (Request, ls_network_id ?cl)"
    by (rule packet_round_trip_lemma [OF sample_prims_ok _ req]) simp
  then have dec: "packet_decode sample_prims request = Inr (Request, 4)"
    by (simp add: lan_signaler_new_def)
  have size: "server_data_size_hint ?d \<le> 1000"
    by (simp add: server_data_size_hint_def server_data_new_def)
  then have "length (response_serialize sample_prims \<lparr>application_data = server_data_serialize ?d\<rparr>) \<le> 2004"
    using server_data_size [of ?d]
    by (simp add: response_serialize_hex [OF sample_prims_ok] hex_laws(1) [OF sample_prims_ok])
  then obtain buf where enc: "packet_encode sample_prims
      (Response \<lparr>application_data = server_data_serialize ?d\<rparr>) 5 = Inr buf"
    by (auto simp: packet_encode_def Let_def)
  then have step: "lan_handle sample_prims ?srv (InDatagram request (host_addr 2 50000) 3) =
      (?srv\<lparr>ls_addresses := [(4, \<lparr>ae_addr = host_addr 2 50000, last_seen = 3\<rparr>)],
            ls_output := [OutDatagram buf (host_addr 2 50000)]\<rparr>, Inr ())"
    by (simp add: handle_datagram_def dec answer_request_def st_ok_def lan_push_def lan_signaler_new_def
        pinned_elsewhere_def hm_insert_def Let_def)
  have "ls_server_data ?srv = Some ?d" "ls_network_id ?cl \<noteq> ls_network_id ?srv"
    and "\<not> pinned_elsewhere ?srv (ls_network_id ?cl) (host_addr 2 50000) 3"
    and "\<not> pinned_elsewhere ?cl (ls_network_id ?srv) (host_addr 1 7551) 5"
    and "hm_len (ls_discovered ?cl) < max_discovered (ls_config ?cl)"
    by (simp_all add: lan_signaler_new_def pinned_elsewhere_def lan_config_default_def)
  from server_discovered [OF sample_prims_ok wf this(1,2) req this(3) step this(4,5)] step show ?thesis
    by (intro exI [of _ ?srv] exI [of _ request] exI [of _ buf]) (auto simp: lan_signaler_new_def Let_def)
qed

end
