(* ===== verification/Identity.thy ===== *)
theory Identity
  imports Endpoint "HOL-Library.List_Lexorder" "HOL-Library.Char_ord"
begin

text \<open>
  \<open>nethernet/src/identity\<close>: identity assertions carried in an SDP.  The compact signatures (\<open>jws.rs\<close>), the envelope and
  the text a fingerprint signature covers (\<open>envelope.rs\<close>), token claims (\<open>jwt.rs\<close>), key sets (\<open>jwk.rs\<close>), the trust
  decision (\<open>trust.rs\<close>) and the player it yields (\<open>player.rs\<close>).  The base64, serde_json, p384 and rsa crates are the fields of
  \<open>identity_ops\<close>.  Proved here: what an accepted offer is known to satisfy, and which token makes the check
  panic.
\<close>

subsection \<open>Wall-clock time\<close>

text \<open>\<open>SystemTime\<close>: nanoseconds since the Unix epoch; its seconds are a signed 64-bit number, and adding a duration
  that leaves this range panics.\<close>

type_synonym system_time = int

definition UNIX_EPOCH :: system_time where "UNIX_EPOCH = 0"

definition SYSTEM_TIME_END :: int where "SYSTEM_TIME_END = 2 ^ 63 * int second"

definition system_time_add :: "system_time \<Rightarrow> duration \<Rightarrow> system_time option" where
  "system_time_add t d = (if t + int d < SYSTEM_TIME_END then Some (t + int d) else None)"

datatype identity_error =
    Missing
  | Malformed string
  | Untrusted string
  | ClientPublicKey string
  | FingerprintMismatch
  | NoFingerprints
  | KeyMismatch
  | KeyError string
  | Signing string

text \<open>How a computation that may panic fails.\<close>

datatype identity_failure = Fails identity_error | Panics

subsection \<open>JSON values\<close>

text \<open>\<open>serde_json::Value\<close>; a number is what \<open>as_u64\<close> sees of it, an object has its entries in key order.\<close>

datatype json_number = JUnsigned u64 | JOtherNumber string

datatype json_value =
    JNull
  | JBool bool
  | JNumber json_number
  | JString string
  | JArray "json_value list"
  | JObject "(string \<times> json_value) list"

type_synonym json_map = "(string \<times> json_value) list"

fun as_str :: "json_value \<Rightarrow> string option" where
  "as_str (JString s) = Some s"
| "as_str _ = None"

fun as_u64 :: "json_value \<Rightarrow> u64 option" where
  "as_u64 (JNumber (JUnsigned n)) = Some n"
| "as_u64 _ = None"

subsection \<open>The types of the envelope, the signatures and the keys\<close>

record idp =
  idp_domain :: string
  idp_protocol :: string

record assertion =
  as_token :: string
  as_fingerprints :: string

record identity =
  id_idp :: idp
  id_assertion :: assertion

record raw_identity =
  raw_idp :: idp
  raw_assertion :: string

record jws_header =
  alg :: string
  header_kid :: "string option"

record jws =
  jws_head :: jws_header
  signing_input :: string
  jws_payload :: bytes
  jws_signature :: bytes

record jwk =
  jwk_kty :: string
  jwk_kid :: "string option"
  jwk_n :: "string option"
  jwk_e :: "string option"

record jwk_set =
  set_keys :: "jwk list"

record ec_jwk =
  ec_kty :: string
  ec_crv :: string
  ec_x :: string
  ec_y :: string

record claims =
  claim_values :: json_map

text \<open>The key set and its flag are shared by every clone; one value here is the shared cell.\<close>

record minecraft_keys =
  mk_keys :: jwk_set
  mk_missed :: bool

datatype token_trust = Minecraft minecraft_keys | AnyToken

record player_info =
  xuid :: "string option"
  display_name :: "string option"
  player_network_id :: string
  remote_address :: "socket_addr option"
  player_claims :: claims

subsection \<open>The libraries\<close>

record ('sk, 'vk, 'sig, 'rsa) identity_ops =
  b64_encode :: "bytes \<Rightarrow> string"
  b64_decode :: "string \<Rightarrow> bytes option"
  b64url_encode :: "bytes \<Rightarrow> string"
  b64url_decode :: "string \<Rightarrow> bytes option"
  json_header :: "bytes \<Rightarrow> jws_header option"
  json_claims :: "bytes \<Rightarrow> json_map option"
  json_raw :: "string \<Rightarrow> raw_identity option"
  json_assertion :: "string \<Rightarrow> assertion option"
  json_ec_jwk :: "json_value \<Rightarrow> ec_jwk option"
  raw_to_json :: "raw_identity \<Rightarrow> string option"
  assertion_to_json :: "assertion \<Rightarrow> string option"
  value_to_json :: "json_value \<Rightarrow> string"
  ec_signature :: "bytes \<Rightarrow> 'sig option"
  ec_signature_bytes :: "'sig \<Rightarrow> bytes"
  ec_verify :: "'vk \<Rightarrow> bytes \<Rightarrow> 'sig \<Rightarrow> bool"
  ec_try_sign :: "'sk \<Rightarrow> bytes \<Rightarrow> 'sig option"
  ec_verifying_key :: "'sk \<Rightarrow> 'vk"
  ec_from_der :: "bytes \<Rightarrow> 'vk option"
  ec_to_der :: "'vk \<Rightarrow> bytes option"
  ec_from_sec1 :: "bytes \<Rightarrow> 'vk option"
  ec_point :: "'vk \<Rightarrow> bytes option \<times> bytes option"
  ec_from_pem :: "string \<Rightarrow> 'sk option"
  ec_to_pem :: "'sk \<Rightarrow> string option"
  rsa_public_key :: "bytes \<Rightarrow> bytes \<Rightarrow> 'rsa option"
  rsa_signature :: "bytes \<Rightarrow> bytes option"
  rsa_verify :: "'rsa \<Rightarrow> bytes \<Rightarrow> bytes \<Rightarrow> bool"

section \<open>Compact signatures\<close>

definition ES384_HEADER :: string where
  "ES384_HEADER = [CHR ''{'', CHR 0x22] @ ''alg'' @ [CHR 0x22, CHR '':'', CHR 0x22] @ ''ES384'' @ [CHR 0x22, CHR ''}'']"

definition decode_part :: "('sk, 'vk, 'sig, 'rsa) identity_ops \<Rightarrow> string \<Rightarrow> (identity_error, bytes) result" where
  "decode_part X s = ok_or (Malformed ''invalid base64url: '') (b64url_decode X s)"

definition parse_head :: "('sk, 'vk, 'sig, 'rsa) identity_ops \<Rightarrow> string \<Rightarrow> (identity_error, jws_header) result" where
  "parse_head X s = res_bind (decode_part X s) (\<lambda>b. ok_or (Malformed ''invalid header: '') (json_header X b))"

definition jws_parse :: "('sk, 'vk, 'sig, 'rsa) identity_ops \<Rightarrow> string \<Rightarrow> (identity_error, jws) result" where
  "jws_parse X compact =
     (case split_on CHR ''.'' compact of
        [header, payload, signature] \<Rightarrow>
          res_bind (parse_head X header) (\<lambda>h.
          res_bind (decode_part X payload) (\<lambda>p.
          res_bind (decode_part X signature) (\<lambda>s.
            Inr \<lparr>jws_head = h, signing_input = header @ ''.'' @ payload, jws_payload = p, jws_signature = s\<rparr>)))
      | _ \<Rightarrow> Inl (Malformed ''expected three parts in the compact serialization''))"

definition jws_parse_detached ::
  "('sk, 'vk, 'sig, 'rsa) identity_ops \<Rightarrow> string \<Rightarrow> string \<Rightarrow> (identity_error, jws) result" where
  "jws_parse_detached X compact payload =
     (case split_on CHR ''.'' compact of
        [header, [], signature] \<Rightarrow>
          (let encoded = b64url_encode X (as_bytes payload) in
           res_bind (parse_head X header) (\<lambda>h.
           res_bind (decode_part X signature) (\<lambda>s.
             Inr \<lparr>jws_head = h, signing_input = header @ ''.'' @ encoded, jws_payload = as_bytes payload,
                  jws_signature = s\<rparr>)))
      | _ \<Rightarrow> Inl (Malformed ''expected a detached compact serialization''))"

definition sign_parts ::
  "('sk, 'vk, 'sig, 'rsa) identity_ops \<Rightarrow> 'sk \<Rightarrow> string \<Rightarrow> (identity_error, string \<times> string \<times> string) result" where
  "sign_parts X key payload =
     (let header = b64url_encode X (as_bytes ES384_HEADER);
          payload = b64url_encode X (as_bytes payload) in
      res_bind (ok_or (Signing []) (ec_try_sign X key (as_bytes (header @ ''.'' @ payload)))) (\<lambda>signature.
        Inr (header, payload, b64url_encode X (ec_signature_bytes X signature))))"

definition jws_sign :: "('sk, 'vk, 'sig, 'rsa) identity_ops \<Rightarrow> 'sk \<Rightarrow> string \<Rightarrow> (identity_error, string) result" where
  "jws_sign X key payload =
     res_bind (sign_parts X key payload) (\<lambda>(header, payload, signature).
       Inr (header @ ''.'' @ payload @ ''.'' @ signature))"

definition jws_sign_detached ::
  "('sk, 'vk, 'sig, 'rsa) identity_ops \<Rightarrow> 'sk \<Rightarrow> string \<Rightarrow> (identity_error, string) result" where
  "jws_sign_detached X key payload =
     res_bind (sign_parts X key payload) (\<lambda>(header, _, signature). Inr (header @ ''..'' @ signature))"

definition verify_es384 ::
  "('sk, 'vk, 'sig, 'rsa) identity_ops \<Rightarrow> jws \<Rightarrow> 'vk \<Rightarrow> (identity_error, unit) result" where
  "verify_es384 X j key =
     (if alg (jws_head j) \<noteq> ''ES384'' then Inl (Malformed (''expected ES384, got '' @ alg (jws_head j)))
      else res_bind (ok_or (Malformed ''invalid signature: '') (ec_signature X (jws_signature j))) (\<lambda>signature.
        if ec_verify X key (as_bytes (signing_input j)) signature then Inr () else Inl FingerprintMismatch))"

definition jws_claims :: "('sk, 'vk, 'sig, 'rsa) identity_ops \<Rightarrow> jws \<Rightarrow> (identity_error, claims) result" where
  "jws_claims X j =
     res_bind (ok_or (Malformed ''invalid claims: '') (json_claims X (jws_payload j))) (\<lambda>m. Inr \<lparr>claim_values = m\<rparr>)"


section \<open>The envelope\<close>

definition identity_from_json :: "('sk, 'vk, 'sig, 'rsa) identity_ops \<Rightarrow> string \<Rightarrow> (identity_error, identity) result" where
  "identity_from_json X json =
     res_bind (ok_or (Malformed ''invalid identity: '') (json_raw X json)) (\<lambda>raw.
     res_bind (ok_or (Malformed ''invalid assertion: '') (json_assertion X (raw_assertion raw))) (\<lambda>a.
       Inr \<lparr>id_idp = raw_idp raw, id_assertion = a\<rparr>))"

definition identity_from_base64 :: "('sk, 'vk, 'sig, 'rsa) identity_ops \<Rightarrow> string \<Rightarrow> (identity_error, identity) result" where
  "identity_from_base64 X s =
     res_bind (ok_or (Malformed ''invalid base64: '') (b64_decode X (trim s))) (\<lambda>json.
     res_bind (ok_or (Malformed ''invalid UTF-8: '') (from_utf8 json)) (\<lambda>json.
       identity_from_json X json))"

definition sdp_text_lines :: "string \<Rightarrow> string list" where
  "sdp_text_lines sdp = split_where is_crlf sdp"

definition IDENTITY_PREFIX :: string where "IDENTITY_PREFIX = ''a=identity:''"
definition FINGERPRINT_PREFIX :: string where "FINGERPRINT_PREFIX = ''a=fingerprint:''"

text \<open>\<open>find_map\<close>: the first line a function yields something for.\<close>

fun find_map :: "('a \<Rightarrow> 'b option) \<Rightarrow> 'a list \<Rightarrow> 'b option" where
  "find_map f [] = None"
| "find_map f (x # xs) = (case f x of None \<Rightarrow> find_map f xs | Some y \<Rightarrow> Some y)"

definition identity_from_sdp :: "('sk, 'vk, 'sig, 'rsa) identity_ops \<Rightarrow> string \<Rightarrow> (identity_error, identity) result" where
  "identity_from_sdp X sdp =
     res_bind (ok_or Missing (find_map (strip_prefix IDENTITY_PREFIX) (sdp_text_lines sdp))) (\<lambda>v.
       identity_from_base64 X v)"

definition identity_to_json :: "('sk, 'vk, 'sig, 'rsa) identity_ops \<Rightarrow> identity \<Rightarrow> (identity_error, string) result" where
  "identity_to_json X i =
     res_bind (ok_or (Malformed []) (assertion_to_json X (id_assertion i))) (\<lambda>a.
       ok_or (Malformed []) (raw_to_json X \<lparr>raw_idp = id_idp i, raw_assertion = a\<rparr>))"

definition identity_to_base64 :: "('sk, 'vk, 'sig, 'rsa) identity_ops \<Rightarrow> identity \<Rightarrow> (identity_error, string) result" where
  "identity_to_base64 X i = res_bind (identity_to_json X i) (\<lambda>json. Inr (b64_encode X (as_bytes json)))"

definition sdp_fingerprints :: "string \<Rightarrow> (identity_error, (string \<times> string) list) result" where
  "sdp_fingerprints sdp =
     res_collect (\<lambda>line.
       ok_or (Malformed (''invalid fingerprint line: '' @ line)) (split_once CHR '' '' (trim line)))
       (List.map_filter (strip_prefix FINGERPRINT_PREFIX) (sdp_text_lines sdp))"

definition fingerprint_payload :: "('sk, 'vk, 'sig, 'rsa) identity_ops \<Rightarrow> (string \<times> string) list \<Rightarrow> string" where
  "fingerprint_payload X fingerprints =
     (let entries = map (\<lambda>(algorithm, digest).
            JObject [(''algorithm'', JString algorithm), (''digest'', JString digest)]) fingerprints
      in value_to_json X (JObject [(''fingerprint'', JArray entries)]))"

definition canonical_fingerprint_json :: "('sk, 'vk, 'sig, 'rsa) identity_ops \<Rightarrow> string \<Rightarrow> (identity_error, string) result" where
  "canonical_fingerprint_json X sdp = res_bind (sdp_fingerprints sdp) (\<lambda>f. Inr (fingerprint_payload X f))"

definition EMPTY_FINGERPRINTS :: string where
  "EMPTY_FINGERPRINTS = [CHR ''{'', CHR 0x22] @ ''fingerprint'' @ [CHR 0x22] @ '':[]}''"

section \<open>Keys\<close>

definition jwk_candidates :: "jwk_set \<Rightarrow> string option \<Rightarrow> jwk list" where
  "jwk_candidates S kid =
     (case kid of
        Some k \<Rightarrow> filter (\<lambda>key. jwk_kid key = Some k) (set_keys S)
      | None \<Rightarrow> set_keys S)"

definition jwk_contains :: "jwk_set \<Rightarrow> string \<Rightarrow> bool" where
  "jwk_contains S kid = list_ex (\<lambda>key. jwk_kid key = Some kid) (set_keys S)"

definition minecraft_keys_new :: "jwk_set \<Rightarrow> minecraft_keys" where
  "minecraft_keys_new keys = \<lparr>mk_keys = keys, mk_missed = False\<rparr>"

definition keys_snapshot :: "minecraft_keys \<Rightarrow> jwk_set" where
  "keys_snapshot k = mk_keys k"

definition keys_replace :: "jwk_set \<Rightarrow> minecraft_keys \<Rightarrow> minecraft_keys" where
  "keys_replace keys k = k\<lparr>mk_keys := keys\<rparr>"

definition take_missed :: "minecraft_keys \<Rightarrow> bool \<times> minecraft_keys" where
  "take_missed k = (mk_missed k, k\<lparr>mk_missed := False\<rparr>)"

definition mark_missed :: "minecraft_keys \<Rightarrow> minecraft_keys" where
  "mark_missed k = k\<lparr>mk_missed := True\<rparr>"

definition decode_key_part :: "('sk, 'vk, 'sig, 'rsa) identity_ops \<Rightarrow> string \<Rightarrow> (identity_error, bytes) result" where
  "decode_key_part X s = ok_or (Untrusted ''invalid base64url in key: '') (b64url_decode X s)"

definition verify_rs256 ::
  "('sk, 'vk, 'sig, 'rsa) identity_ops \<Rightarrow> jwk \<Rightarrow> bytes \<Rightarrow> bytes \<Rightarrow> (identity_error, unit) result" where
  "verify_rs256 X key inp signature =
     (if jwk_kty key \<noteq> ''RSA'' then Inl (Untrusted (''unsupported key type '' @ jwk_kty key))
      else case (jwk_n key, jwk_e key) of
        (Some n, Some e) \<Rightarrow>
          res_bind (decode_key_part X n) (\<lambda>modulus.
          res_bind (decode_key_part X e) (\<lambda>exponent.
          res_bind (ok_or (Untrusted ''invalid RSA key: '') (rsa_public_key X modulus exponent)) (\<lambda>pub.
          res_bind (ok_or (Untrusted ''signature mismatch'') (rsa_signature X signature)) (\<lambda>sig.
            if rsa_verify X pub inp sig then Inr () else Inl (Untrusted ''signature mismatch'')))))
      | _ \<Rightarrow> Inl (Untrusted ''incomplete RSA key''))"

definition P384_COORDINATE_LEN :: nat where "P384_COORDINATE_LEN = 48"

definition coordinate :: "('sk, 'vk, 'sig, 'rsa) identity_ops \<Rightarrow> string \<Rightarrow> string \<Rightarrow> (identity_error, bytes) result" where
  "coordinate X name v =
     res_bind (ok_or (ClientPublicKey (name @ '' is not unpadded base64url: '')) (b64url_decode X v)) (\<lambda>bs.
       if length bs = P384_COORDINATE_LEN then Inr bs
       else Inl (ClientPublicKey (name @ '' is '' @ dec (length bs) @ '' bytes, expected '' @ dec P384_COORDINATE_LEN)))"

definition ec_key_of_jwk :: "('sk, 'vk, 'sig, 'rsa) identity_ops \<Rightarrow> ec_jwk \<Rightarrow> (identity_error, 'vk) result" where
  "ec_key_of_jwk X jwk =
     (if ec_kty jwk \<noteq> ''EC'' then Inl (ClientPublicKey (''unsupported key type '' @ ec_kty jwk))
      else if ec_crv jwk \<noteq> ''P-384'' then Inl (ClientPublicKey (''unsupported curve '' @ ec_crv jwk))
      else res_bind (coordinate X ''x'' (ec_x jwk)) (\<lambda>x.
        res_bind (coordinate X ''y'' (ec_y jwk)) (\<lambda>y.
          ok_or (ClientPublicKey ''not a key on P-384: '') (ec_from_sec1 X (4 # x @ y)))))"

definition jwk_of_ec_key :: "('sk, 'vk, 'sig, 'rsa) identity_ops \<Rightarrow> 'vk \<Rightarrow> ec_jwk" where
  "jwk_of_ec_key X key =
     (let point = ec_point X key;
          coord = (\<lambda>b. b64url_encode X (case b of None \<Rightarrow> [] | Some bs \<Rightarrow> bs)) in
      \<lparr>ec_kty = ''EC'', ec_crv = ''P-384'', ec_x = coord (fst point), ec_y = coord (snd point)\<rparr>)"

section \<open>Claims\<close>

definition LEEWAY :: duration where "LEEWAY = 60 * second"

definition claim_string :: "claims \<Rightarrow> string \<Rightarrow> string option" where
  "claim_string c name = opt_bind (hm_get (claim_values c) name) as_str"

definition subject :: "claims \<Rightarrow> string option" where "subject c = claim_string c ''sub''"
definition issuer :: "claims \<Rightarrow> string option" where "issuer c = claim_string c ''iss''"
definition claim_xuid :: "claims \<Rightarrow> string option" where "claim_xuid c = claim_string c ''xid''"
definition claim_display_name :: "claims \<Rightarrow> string option" where "claim_display_name c = claim_string c ''xname''"

definition audience :: "claims \<Rightarrow> string list" where
  "audience c =
     (case hm_get (claim_values c) ''aud'' of
        Some (JString a) \<Rightarrow> [a]
      | Some (JArray as) \<Rightarrow> List.map_filter as_str as
      | _ \<Rightarrow> [])"

text \<open>\<open>UNIX_EPOCH + Duration::from_secs(exp)\<close> and the comparison, with the additions that may panic.\<close>

definition expiry :: "claims \<Rightarrow> (identity_failure, system_time option) result" where
  "expiry c =
     (case opt_bind (hm_get (claim_values c) ''exp'') as_u64 of
        None \<Rightarrow> Inr None
      | Some seconds \<Rightarrow>
          (case system_time_add UNIX_EPOCH (unat seconds * second) of
             None \<Rightarrow> Inl Panics
           | Some t \<Rightarrow> Inr (Some t)))"

definition check_expiry :: "claims \<Rightarrow> system_time \<Rightarrow> (identity_failure, unit) result" where
  "check_expiry c now =
     res_bind (expiry c) (\<lambda>e.
     res_bind (ok_or (Fails (Untrusted ''the token carries no expiry'')) e) (\<lambda>e.
       case system_time_add e LEEWAY of
         None \<Rightarrow> Inl Panics
       | Some limit \<Rightarrow> if now \<le> limit then Inr () else Inl (Fails (Untrusted ''the token has expired''))))"

definition spki_key :: "('sk, 'vk, 'sig, 'rsa) identity_ops \<Rightarrow> string \<Rightarrow> (identity_error, 'vk) result" where
  "spki_key X cpk =
     res_bind (ok_or (ClientPublicKey ''invalid base64: '') (b64_decode X cpk)) (\<lambda>der.
       ok_or (ClientPublicKey ''not a key on P-384: '') (ec_from_der X der))"

definition client_public_key :: "('sk, 'vk, 'sig, 'rsa) identity_ops \<Rightarrow> claims \<Rightarrow> (identity_error, 'vk) result" where
  "client_public_key X c =
     (case hm_get (claim_values c) ''cpk'' of
        None \<Rightarrow> Inl (ClientPublicKey ''the token carries no cpk'')
      | Some (JString cpk) \<Rightarrow> spki_key X cpk
      | Some (JObject m) \<Rightarrow>
          res_bind (ok_or (ClientPublicKey ''invalid JWK: '') (json_ec_jwk X (JObject m))) (ec_key_of_jwk X)
      | Some _ \<Rightarrow> Inl (ClientPublicKey ''the cpk is neither a string nor a JWK object''))"


section \<open>Trust\<close>

definition MINECRAFT_ISSUER :: string where
  "MINECRAFT_ISSUER = ''https://authorization.franchise.minecraft-services.net/''"

definition MINECRAFT_AUDIENCE :: string where
  "MINECRAFT_AUDIENCE = ''api://auth-minecraft-services/multiplayer''"

text \<open>The checks of a token under a key set, after its expiry: the verdict and the key set with its flag.\<close>

definition minecraft_claims ::
  "('sk, 'vk, 'sig, 'rsa) identity_ops \<Rightarrow> minecraft_keys \<Rightarrow> jws \<Rightarrow> claims \<Rightarrow>
     minecraft_keys \<times> (identity_error, claims) result" where
  "minecraft_claims X keys j c =
     (if alg (jws_head j) \<noteq> ''RS256'' then (keys, Inl (Untrusted (''expected RS256, got '' @ alg (jws_head j))))
      else let candidates = jwk_candidates (keys_snapshot keys) (header_kid (jws_head j)) in
        if candidates = [] then
          (mark_missed keys, Inl (Untrusted ''the token names a key that is not published''))
        else if \<not> list_ex (\<lambda>key. is_ok (verify_rs256 X key (as_bytes (signing_input j)) (jws_signature j))) candidates
        then (keys, Inl (Untrusted ''the token is not signed by the issuer''))
        else if subject c = None then (keys, Inl (Untrusted ''the token carries no subject''))
        else if issuer c \<noteq> Some MINECRAFT_ISSUER then (keys, Inl (Untrusted ''the token was issued by someone else''))
        else if MINECRAFT_AUDIENCE \<notin> set (audience c) then
          (keys, Inl (Untrusted ''the token is addressed to another audience''))
        else (keys, Inr c))"

definition trust_claims ::
  "('sk, 'vk, 'sig, 'rsa) identity_ops \<Rightarrow> token_trust \<Rightarrow> identity \<Rightarrow> system_time \<Rightarrow>
     token_trust \<times> (identity_failure, claims) result" where
  "trust_claims X trust i now =
     (case res_bind (map_err Fails (jws_parse X (as_token (id_assertion i)))) (\<lambda>j.
           res_bind (map_err Fails (jws_claims X j)) (\<lambda>c.
           res_bind (check_expiry c now) (\<lambda>_. Inr (j, c)))) of
        Inl e \<Rightarrow> (trust, Inl e)
      | Inr (j, c) \<Rightarrow>
          (case trust of
             AnyToken \<Rightarrow> (trust, Inr c)
           | Minecraft keys \<Rightarrow>
               (case minecraft_claims X keys j c of (keys', r) \<Rightarrow> (Minecraft keys', map_err Fails r))))"

definition fingerprints_signed ::
  "('sk, 'vk, 'sig, 'rsa) identity_ops \<Rightarrow> string \<Rightarrow> identity \<Rightarrow> claims \<Rightarrow> (identity_error, unit) result" where
  "fingerprints_signed X sdp i c =
     res_bind (canonical_fingerprint_json X sdp) (\<lambda>fingerprints.
       if fingerprints = EMPTY_FINGERPRINTS then Inl NoFingerprints
       else res_bind (jws_parse_detached X (as_fingerprints (id_assertion i)) fingerprints) (\<lambda>j.
         res_bind (client_public_key X c) (\<lambda>key. verify_es384 X j key)))"

definition validate_sdp ::
  "('sk, 'vk, 'sig, 'rsa) identity_ops \<Rightarrow> string \<Rightarrow> token_trust \<Rightarrow> system_time \<Rightarrow>
     token_trust \<times> (identity_failure, claims) result" where
  "validate_sdp X sdp trust now =
     (case identity_from_sdp X sdp of
        Inl e \<Rightarrow> (trust, Inl (Fails e))
      | Inr i \<Rightarrow>
          (case trust_claims X trust i now of
             (trust', Inl e) \<Rightarrow> (trust', Inl e)
           | (trust', Inr c) \<Rightarrow>
               (trust', res_bind (map_err Fails (fingerprints_signed X sdp i c)) (\<lambda>_. Inr c))))"

definition verify_answer ::
  "('sk, 'vk, 'sig, 'rsa) identity_ops \<Rightarrow> string \<Rightarrow> token_trust option \<Rightarrow> system_time \<Rightarrow>
     token_trust option \<times> (identity_failure, claims option) result" where
  "verify_answer X sdp trust now =
     (case trust of
        None \<Rightarrow> (None, Inr None)
      | Some t \<Rightarrow> (case validate_sdp X sdp t now of
          (t', r) \<Rightarrow> (Some t', res_bind r (\<lambda>c. Inr (Some c)))))"

section \<open>The player\<close>

definition player_info_new :: "claims \<Rightarrow> string \<Rightarrow> socket_addr option \<Rightarrow> player_info" where
  "player_info_new c nid addr =
     \<lparr>xuid = claim_xuid c, display_name = claim_display_name c, player_network_id = nid, remote_address = addr,
      player_claims = c\<rparr>"

definition verify_login_key ::
  "('sk, 'vk, 'sig, 'rsa) identity_ops \<Rightarrow> player_info \<Rightarrow> 'vk \<Rightarrow> (identity_error, unit) result" where
  "verify_login_key X p key =
     res_bind (client_public_key X (player_claims p)) (\<lambda>expected.
     res_bind (ok_or (KeyError []) (ec_to_der X expected)) (\<lambda>expected.
     res_bind (ok_or (KeyError []) (ec_to_der X key)) (\<lambda>presented.
       if expected = presented then Inr () else Inl KeyMismatch)))"


section \<open>Lemmas\<close>

lemma SYSTEM_TIME_END_seconds: "SYSTEM_TIME_END = 9223372036854775808 * int second"
  by (simp add: SYSTEM_TIME_END_def)

lemma second_pos [simp]: "0 < second"
  by (simp add: second_def)

lemma system_time_add_epoch:
  "system_time_add UNIX_EPOCH (n * second) = (if n < 2 ^ 63 then Some (int (n * second)) else None)"
proof -
  have "int (n * second) < SYSTEM_TIME_END \<longleftrightarrow> int n < 2 ^ 63"
    unfolding SYSTEM_TIME_END_def of_nat_mult by (rule mult_less_cancel_right_pos) simp
  moreover have "int n < 2 ^ 63 \<longleftrightarrow> n < 2 ^ 63"
    by simp
  ultimately show ?thesis
    unfolding system_time_add_def UNIX_EPOCH_def add_0 by simp
qed

lemma system_time_add_leeway:
  "system_time_add (int (n * second)) LEEWAY = (if n + 60 < 2 ^ 63 then Some (int ((n + 60) * second)) else None)"
proof -
  have eq: "int (n * second) + int LEEWAY = int ((n + 60) * second)"
    by (simp add: LEEWAY_def algebra_simps)
  have "int ((n + 60) * second) < SYSTEM_TIME_END \<longleftrightarrow> int (n + 60) < 2 ^ 63"
    unfolding SYSTEM_TIME_END_def of_nat_mult by (rule mult_less_cancel_right_pos) simp
  moreover have "int (n + 60) < 2 ^ 63 \<longleftrightarrow> n + 60 < 2 ^ 63"
    by simp
  ultimately show ?thesis
    unfolding system_time_add_def eq by simp
qed

text \<open>The expiry check, in seconds.\<close>

lemma check_expiry_seconds:
  assumes "hm_get (claim_values c) ''exp'' = Some (JNumber (JUnsigned e))"
  shows "check_expiry c now =
    (if 2 ^ 63 \<le> unat e + 60 then Inl Panics
     else if now \<le> int ((unat e + 60) * second) then Inr ()
     else Inl (Fails (Untrusted ''the token has expired'')))"
proof (cases "unat e < 2 ^ 63")
  case True
  then have "expiry c = Inr (Some (int (unat e * second)))"
    by (simp only: expiry_def assms opt_bind.simps as_u64.simps option.case system_time_add_epoch if_True)
  then show ?thesis
    by (simp only: check_expiry_def res_bind.simps ok_or.simps system_time_add_leeway) (simp split: if_splits)
next
  case False
  then have "expiry c = Inl Panics"
    by (simp only: expiry_def assms opt_bind.simps as_u64.simps option.case system_time_add_epoch if_False)
  with False show ?thesis
    by (simp add: check_expiry_def)
qed

lemma check_expiry_no_exp:
  "opt_bind (hm_get (claim_values c) ''exp'') as_u64 = None \<Longrightarrow>
   check_expiry c now = Inl (Fails (Untrusted ''the token carries no expiry''))"
  by (simp add: check_expiry_def expiry_def)

lemma as_u64_Some: "as_u64 v = Some e \<longleftrightarrow> v = JNumber (JUnsigned e)"
  by (cases v rule: as_u64.cases) auto

lemma check_expiry_ok:
  assumes "check_expiry c now = Inr ()"
  obtains e where "hm_get (claim_values c) ''exp'' = Some (JNumber (JUnsigned e))" "now \<le> int ((unat e + 60) * second)"
proof (cases "opt_bind (hm_get (claim_values c) ''exp'') as_u64")
  case None
  with assms show thesis
    by (simp add: check_expiry_no_exp)
next
  case (Some e)
  then have "hm_get (claim_values c) ''exp'' = Some (JNumber (JUnsigned e))"
    by (simp add: as_u64_Some)
  with assms check_expiry_seconds [OF this, of now] show thesis
    by (auto intro: that split: if_splits)
qed

lemma map_err_not_Panics [simp]: "map_err Fails r \<noteq> Inl Panics"
  by (cases r) auto

lemma find_map_Some: "find_map f xs = Some y \<Longrightarrow> \<exists>x \<in> set xs. f x = Some y"
  by (induction xs) (auto split: option.splits)

lemma find_map_append: "find_map f (xs @ ys) = (case find_map f xs of None \<Rightarrow> find_map f ys | Some y \<Rightarrow> Some y)"
  by (induction xs) (auto split: option.splits)

lemma jws_parse_ok:
  assumes "jws_parse X s = Inr j"
  obtains header payload signature where "split_on CHR ''.'' s = [header, payload, signature]"
    and "parse_head X header = Inr (jws_head j)" "b64url_decode X payload = Some (jws_payload j)"
    and "b64url_decode X signature = Some (jws_signature j)" "signing_input j = header @ ''.'' @ payload"
  using assms by (auto simp: jws_parse_def decode_part_def res_simps split: list.splits)

lemma split_on_three:
  assumes "split_on c s = [a, b, d]"
  shows "s = a @ [c] @ b @ [c] @ d"
  using split_join [of c s] assms by simp

lemma jws_parse_detached_ok:
  assumes "jws_parse_detached X s payload = Inr j"
  obtains header signature where "s = header @ ''..'' @ signature"
    and "parse_head X header = Inr (jws_head j)" "b64url_decode X signature = Some (jws_signature j)"
    and "signing_input j = header @ ''.'' @ b64url_encode X (as_bytes payload)"
proof -
  from assms obtain header signature where parts: "split_on CHR ''.'' s = [header, [], signature]"
    and "parse_head X header = Inr (jws_head j)" "b64url_decode X signature = Some (jws_signature j)"
    and "signing_input j = header @ ''.'' @ b64url_encode X (as_bytes payload)"
    by (auto simp: jws_parse_detached_def decode_part_def res_simps Let_def split: list.splits)
  with split_on_three [OF parts] show thesis
    by (intro that) auto
qed

text \<open>What a Minecraft token has been checked for.\<close>

definition minecraft_token :: "('sk, 'vk, 'sig, 'rsa) identity_ops \<Rightarrow> minecraft_keys \<Rightarrow> jws \<Rightarrow> claims \<Rightarrow> bool" where
  "minecraft_token X keys j c \<longleftrightarrow>
     alg (jws_head j) = ''RS256'' \<and>
     list_ex (\<lambda>key. (header_kid (jws_head j) = None \<or> jwk_kid key = header_kid (jws_head j)) \<and>
        verify_rs256 X key (as_bytes (signing_input j)) (jws_signature j) = Inr ()) (set_keys (mk_keys keys)) \<and>
     subject c \<noteq> None \<and> issuer c = Some MINECRAFT_ISSUER \<and> MINECRAFT_AUDIENCE \<in> set (audience c)"

lemma minecraft_claims_ok:
  assumes "minecraft_claims X keys j c = (keys', Inr c')"
  shows "keys' = keys \<and> c' = c \<and> minecraft_token X keys j c"
proof -
  from assms have "list_ex (\<lambda>key. is_ok (verify_rs256 X key (as_bytes (signing_input j)) (jws_signature j)))
      (jwk_candidates (keys_snapshot keys) (header_kid (jws_head j)))"
    and rest: "keys' = keys" "c' = c" "alg (jws_head j) = ''RS256''" "subject c \<noteq> None"
      "issuer c = Some MINECRAFT_ISSUER" "MINECRAFT_AUDIENCE \<in> set (audience c)"
    by (auto simp: minecraft_claims_def Let_def split: if_splits)
  then have "list_ex (\<lambda>key. (header_kid (jws_head j) = None \<or> jwk_kid key = header_kid (jws_head j)) \<and>
        verify_rs256 X key (as_bytes (signing_input j)) (jws_signature j) = Inr ()) (set_keys (mk_keys keys))"
    by (auto simp: list_ex_iff is_ok_iff jwk_candidates_def keys_snapshot_def split: option.splits)
  with rest show ?thesis
    by (simp add: minecraft_token_def)
qed

lemma trust_claims_ok:
  assumes "trust_claims X trust i now = (trust', Inr c)"
  obtains j where "jws_parse X (as_token (id_assertion i)) = Inr j" "json_claims X (jws_payload j) = Some (claim_values c)"
    and "check_expiry c now = Inr ()" "trust' = trust"
    and "\<And>keys. trust = Minecraft keys \<Longrightarrow> minecraft_token X keys j c"
proof -
  from assms obtain j c' where j: "jws_parse X (as_token (id_assertion i)) = Inr j"
    and c': "jws_claims X j = Inr c'" "check_expiry c' now = Inr ()"
    and verdict: "(case trust of AnyToken \<Rightarrow> (trust, Inr c') | Minecraft keys \<Rightarrow>
       (case minecraft_claims X keys j c' of (keys', r) \<Rightarrow> (Minecraft keys', map_err Fails r))) = (trust', Inr c)"
    by (auto simp: trust_claims_def res_simps split: sum.splits prod.splits)
  have "trust' = trust \<and> c' = c \<and> (\<forall>keys. trust = Minecraft keys \<longrightarrow> minecraft_token X keys j c)"
    using verdict minecraft_claims_ok by (cases trust) (force split: prod.splits)+
  with j c' show thesis
    by (intro that) (auto simp: jws_claims_def res_simps)
qed

lemma fingerprints_signed_ok:
  assumes "fingerprints_signed X sdp i c = Inr ()"
  obtains f header signature key s where "sdp_fingerprints sdp = Inr f" "fingerprint_payload X f \<noteq> EMPTY_FINGERPRINTS"
    and "as_fingerprints (id_assertion i) = header @ ''..'' @ signature"
    and "client_public_key X c = Inr key" "opt_bind (b64url_decode X signature) (ec_signature X) = Some s"
    and "ec_verify X key (as_bytes (header @ ''.'' @ b64url_encode X (as_bytes (fingerprint_payload X f)))) s"
proof -
  from assms obtain f j key where f: "sdp_fingerprints sdp = Inr f" "fingerprint_payload X f \<noteq> EMPTY_FINGERPRINTS"
    and j: "jws_parse_detached X (as_fingerprints (id_assertion i)) (fingerprint_payload X f) = Inr j"
    and key: "client_public_key X c = Inr key" and ver: "verify_es384 X j key = Inr ()"
    by (auto simp: fingerprints_signed_def canonical_fingerprint_json_def res_simps split: if_splits)
  from ver obtain s where "ec_signature X (jws_signature j) = Some s" "ec_verify X key (as_bytes (signing_input j)) s"
    by (auto simp: verify_es384_def res_simps split: if_splits)
  moreover obtain header signature where "as_fingerprints (id_assertion i) = header @ ''..'' @ signature"
    and "b64url_decode X signature = Some (jws_signature j)"
    and "signing_input j = header @ ''.'' @ b64url_encode X (as_bytes (fingerprint_payload X f))"
    using jws_parse_detached_ok [OF j] .
  ultimately show thesis
    using f key by (intro that) auto
qed

lemma validate_sdp_ok:
  assumes "validate_sdp X sdp trust now = (trust', Inr c)"
  obtains i where "identity_from_sdp X sdp = Inr i" "trust_claims X trust i now = (trust', Inr c)"
    and "fingerprints_signed X sdp i c = Inr ()"
  using assms by (auto simp: validate_sdp_def res_simps split: sum.splits prod.splits)

end
