(* ===== verification/Server_Identity.thy ===== *)
theory Server_Identity
  imports Identity Discovery
begin

text \<open>
  \<open>nethernet/src/identity/server.rs\<close>: the server's own key and token, which sign its answers.  Proved here, with the laws
  \<open>identity_laws\<close> of the libraries: a signed answer passes the check a client makes, and what an accepted
  description is known to satisfy.
\<close>

definition DEFAULT_DOMAIN :: string where "DEFAULT_DOMAIN = ''self''"

definition DEFAULT_TOKEN_LIFETIME :: duration where "DEFAULT_TOKEN_LIFETIME = 24 * 60 * 60 * second"

record ('sk, 'vk) server_identity =
  si_signing :: 'sk
  si_verifying :: 'vk
  si_domain :: string
  si_lifetime :: "duration option"
  si_token :: string

definition seconds :: "system_time \<Rightarrow> u64" where
  "seconds time = (if time < UNIX_EPOCH then 0 else of_int ((time - UNIX_EPOCH) div int second))"

text \<open>The claims of a token, as an object in key order.\<close>

definition token_claims :: "ec_jwk \<Rightarrow> u64 \<Rightarrow> string \<Rightarrow> u64 option \<Rightarrow> json_map" where
  "token_claims jwk iat domain exp =
     [(''cpk'', JObject [(''crv'', JString (ec_crv jwk)), (''kty'', JString (ec_kty jwk)),
                         (''x'', JString (ec_x jwk)), (''y'', JString (ec_y jwk))])] @
     (case exp of None \<Rightarrow> [] | Some e \<Rightarrow> [(''exp'', JNumber (JUnsigned e))]) @
     [(''iat'', JNumber (JUnsigned iat))] @
     (if domain = [] then [] else [(''iss'', JString domain)])"

definition mint_token ::
  "('sk, 'vk, 'sig, 'rsa) identity_ops \<Rightarrow> 'sk \<Rightarrow> 'vk \<Rightarrow> string \<Rightarrow> system_time \<Rightarrow> duration option \<Rightarrow>
     (identity_failure, string) result" where
  "mint_token X signing verifying domain now lifetime =
     res_bind (case lifetime of
         None \<Rightarrow> Inr None
       | Some l \<Rightarrow> (case system_time_add now l of None \<Rightarrow> Inl Panics | Some t \<Rightarrow> Inr (Some (seconds t)))) (\<lambda>exp.
       map_err Fails (jws_sign X signing
         (value_to_json X (JObject (token_claims (jwk_of_ec_key X verifying) (seconds now) domain exp)))))"

definition from_key ::
  "('sk, 'vk, 'sig, 'rsa) identity_ops \<Rightarrow> 'sk \<Rightarrow> string \<Rightarrow> system_time \<Rightarrow> duration option \<Rightarrow>
     (identity_failure, ('sk, 'vk) server_identity) result" where
  "from_key X signing domain now lifetime =
     (let verifying = ec_verifying_key X signing;
          domain = (if domain = [] then DEFAULT_DOMAIN else domain) in
      res_bind (mint_token X signing verifying domain now lifetime) (\<lambda>token.
        Inr \<lparr>si_signing = signing, si_verifying = verifying, si_domain = domain, si_lifetime = lifetime,
             si_token = token\<rparr>))"

text \<open>The key \<open>SigningKey::generate()\<close> draws is an argument.\<close>

definition generate_with_expiry ::
  "('sk, 'vk, 'sig, 'rsa) identity_ops \<Rightarrow> 'sk \<Rightarrow> string \<Rightarrow> system_time \<Rightarrow> duration option \<Rightarrow>
     (identity_failure, ('sk, 'vk) server_identity) result" where
  "generate_with_expiry X random_key domain now lifetime = from_key X random_key domain now lifetime"

definition generate ::
  "('sk, 'vk, 'sig, 'rsa) identity_ops \<Rightarrow> 'sk \<Rightarrow> string \<Rightarrow> system_time \<Rightarrow>
     (identity_failure, ('sk, 'vk) server_identity) result" where
  "generate X random_key domain now = generate_with_expiry X random_key domain now (Some DEFAULT_TOKEN_LIFETIME)"

definition from_pem_with_expiry ::
  "('sk, 'vk, 'sig, 'rsa) identity_ops \<Rightarrow> string \<Rightarrow> string \<Rightarrow> system_time \<Rightarrow> duration option \<Rightarrow>
     (identity_failure, ('sk, 'vk) server_identity) result" where
  "from_pem_with_expiry X pem domain now lifetime =
     res_bind (ok_or (Fails (KeyError ''the PEM holds no key on P-384: '')) (ec_from_pem X pem)) (\<lambda>secret.
       from_key X secret domain now lifetime)"

definition from_pem ::
  "('sk, 'vk, 'sig, 'rsa) identity_ops \<Rightarrow> string \<Rightarrow> string \<Rightarrow> system_time \<Rightarrow>
     (identity_failure, ('sk, 'vk) server_identity) result" where
  "from_pem X pem domain now = from_pem_with_expiry X pem domain now (Some DEFAULT_TOKEN_LIFETIME)"

definition to_pem :: "('sk, 'vk, 'sig, 'rsa) identity_ops \<Rightarrow> ('sk, 'vk) server_identity \<Rightarrow> (identity_error, string) result" where
  "to_pem X si = ok_or (KeyError []) (ec_to_pem X (si_signing si))"

definition token_at ::
  "('sk, 'vk, 'sig, 'rsa) identity_ops \<Rightarrow> ('sk, 'vk) server_identity \<Rightarrow> system_time \<Rightarrow> (identity_failure, string) result" where
  "token_at X si now = mint_token X (si_signing si) (si_verifying si) (si_domain si) now (si_lifetime si)"

definition identity_for_fingerprints ::
  "('sk, 'vk, 'sig, 'rsa) identity_ops \<Rightarrow> ('sk, 'vk) server_identity \<Rightarrow> (string \<times> string) list \<Rightarrow> system_time \<Rightarrow>
     (identity_failure, string) result" where
  "identity_for_fingerprints X si fingerprints now =
     (let payload = fingerprint_payload X fingerprints in
      res_bind (token_at X si now) (\<lambda>token.
      res_bind (map_err Fails (jws_sign_detached X (si_signing si) payload)) (\<lambda>signature.
        map_err Fails (identity_to_base64 X
          \<lparr>id_idp = \<lparr>idp_domain = si_domain si, idp_protocol = ''default''\<rparr>,
           id_assertion = \<lparr>as_token = token, as_fingerprints = signature\<rparr>\<rparr>))))"

definition identity_value ::
  "('sk, 'vk, 'sig, 'rsa) identity_ops \<Rightarrow> ('sk, 'vk) server_identity \<Rightarrow> string \<Rightarrow> system_time \<Rightarrow>
     (identity_failure, string) result" where
  "identity_value X si answer now =
     res_bind (map_err Fails (sdp_fingerprints answer)) (\<lambda>fingerprints.
       identity_for_fingerprints X si fingerprints now)"

text \<open>\<open>split_inclusive\<close>: the pieces of a text, each but the last ending in the separator.\<close>

fun split_inclusive :: "char \<Rightarrow> string \<Rightarrow> string list" where
  "split_inclusive c [] = []"
| "split_inclusive c (x # xs) =
     (if x = c then [x] # split_inclusive c xs
      else case split_inclusive c xs of [] \<Rightarrow> [[x]] | p # ps \<Rightarrow> (x # p) # ps)"

definition LF :: char where "LF = CHR 0x0A"

definition MEDIA_PREFIX :: string where "MEDIA_PREFIX = ''m=''"

text \<open>The output loop: the attribute goes above the first media line, or after everything.\<close>

fun augment_lines :: "string \<Rightarrow> string list \<Rightarrow> string" where
  "augment_lines attribute [] = attribute"
| "augment_lines attribute (line # lines) =
     (if starts_with line MEDIA_PREFIX then attribute @ concat (line # lines)
      else line @ augment_lines attribute lines)"

fun contains_crlf :: "string \<Rightarrow> bool" where
  "contains_crlf (a # b # s) \<longleftrightarrow> [a, b] = crlf \<or> contains_crlf (b # s)"
| "contains_crlf s \<longleftrightarrow> False"

definition augment ::
  "('sk, 'vk, 'sig, 'rsa) identity_ops \<Rightarrow> ('sk, 'vk) server_identity \<Rightarrow> string \<Rightarrow> system_time \<Rightarrow>
     (identity_failure, string) result" where
  "augment X si answer now =
     res_bind (identity_value X si answer now) (\<lambda>v.
       let attribute = IDENTITY_PREFIX @ v;
           eol = (if contains_crlf answer then crlf else [LF])
       in Inr (augment_lines (attribute @ eol) (split_inclusive LF answer)))"

subsection \<open>What the libraries promise\<close>

text \<open>Base 64 uses its alphabet only and decodes what it encoded; serde_json reads back what it writes, as text in
  UTF-8; a signature verifies under the key that made it; and a point of the curve has two coordinates of 48 bytes
  that give it back.\<close>

definition b64_char :: "char \<Rightarrow> bool" where
  "b64_char c \<longleftrightarrow> (let n = of_char c :: nat in
     65 \<le> n \<and> n \<le> 90 \<or> 97 \<le> n \<and> n \<le> 122 \<or> 48 \<le> n \<and> n \<le> 57 \<or> n = 43 \<or> n = 47 \<or> n = 61 \<or> n = 45 \<or> n = 95)"

definition identity_laws :: "('sk, 'vk, 'sig, 'rsa) identity_ops \<Rightarrow> bool" where
  "identity_laws X \<longleftrightarrow>
     (\<forall>b. b64_decode X (b64_encode X b) = Some b \<and> list_all b64_char (b64_encode X b)) \<and>
     (\<forall>b. b64url_decode X (b64url_encode X b) = Some b \<and> list_all b64_char (b64url_encode X b)) \<and>
     json_header X (as_bytes ES384_HEADER) = Some \<lparr>alg = ''ES384'', header_kid = None\<rparr> \<and>
     (\<forall>jwk iat domain exp. let m = token_claims jwk iat domain exp in
        json_claims X (as_bytes (value_to_json X (JObject m))) = Some m \<and>
        json_ec_jwk X (snd (hd m)) = Some jwk) \<and>
     (\<forall>a. \<exists>t. assertion_to_json X a = Some t \<and> json_assertion X t = Some a) \<and>
     (\<forall>r. \<exists>t. raw_to_json X r = Some t \<and> json_raw X t = Some r \<and> is_str t) \<and>
     (\<forall>f. value_to_json X (JObject [(''fingerprint'', JArray f)]) = EMPTY_FINGERPRINTS \<longleftrightarrow> f = []) \<and>
     (\<forall>k m s. ec_try_sign X k m = Some s \<longrightarrow>
        ec_verify X (ec_verifying_key X k) m s \<and> ec_signature X (ec_signature_bytes X s) = Some s) \<and>
     (\<forall>k. \<exists>x y. ec_point X k = (Some x, Some y) \<and> length x = 48 \<and> length y = 48 \<and> ec_from_sec1 X (4 # x @ y) = Some k)"


section \<open>Lemmas\<close>

subsection \<open>The signed answer as text\<close>

lemma concat_split_inclusive [simp]: "concat (split_inclusive c s) = s"
proof (induction s)
  case (Cons x xs)
  then show ?case
    by (cases "split_inclusive c xs") auto
qed simp

lemma split_inclusive_ends:
  "p \<in> set (butlast (split_inclusive c s)) \<Longrightarrow> p \<noteq> [] \<and> last p = c"
proof (induction s arbitrary: p)
  case (Cons x xs)
  show ?case
  proof (cases "split_inclusive c xs")
    case Nil
    with Cons.prems show ?thesis
      by (simp split: if_splits)
  next
    case (Cons q qs)
    with Cons.prems Cons.IH [of p] Cons.IH [of "tl p"] show ?thesis
      by (cases "qs = []"; cases p) (auto split: if_splits)
  qed
qed simp

lemma augment_lines_split:
  "augment_lines a ls =
     concat (takeWhile (\<lambda>l. \<not> starts_with l MEDIA_PREFIX) ls) @ a @
     concat (dropWhile (\<lambda>l. \<not> starts_with l MEDIA_PREFIX) ls)"
  by (induction ls) auto

text \<open>The text can be signed in place: it has a media section or ends a line.\<close>

definition has_place :: "string \<Rightarrow> bool" where
  "has_place s \<longleftrightarrow> s = [] \<or> is_crlf (last s) \<or> list_ex (\<lambda>l. starts_with l MEDIA_PREFIX) (split_inclusive LF s)"

lemma augment_text:
  assumes "has_place s"
  obtains pre post where "s = pre @ post" "pre = [] \<or> is_crlf (last pre)"
    and "augment_lines a (split_inclusive LF s) = pre @ a @ post"
proof -
  let ?t = "takeWhile (\<lambda>l. \<not> starts_with l MEDIA_PREFIX) (split_inclusive LF s)"
  let ?d = "dropWhile (\<lambda>l. \<not> starts_with l MEDIA_PREFIX) (split_inclusive LF s)"
  have s: "concat ?t @ concat ?d = s"
    by (metis concat_append concat_split_inclusive takeWhile_dropWhile_id)
  have "concat ?t = [] \<or> is_crlf (last (concat ?t))"
  proof (cases "?d = []")
    case True
    then have "\<not> list_ex (\<lambda>l. starts_with l MEDIA_PREFIX) (split_inclusive LF s)"
      by (auto simp: dropWhile_eq_Nil_conv list_ex_iff)
    moreover from True s have "concat ?t = s"
      by (simp only: concat.simps append_Nil2)
    ultimately show ?thesis
      using assms by (auto simp: has_place_def)
  next
    case False
    then have "butlast (split_inclusive LF s) = ?t @ butlast ?d"
      by (metis butlast_append takeWhile_dropWhile_id)
    then have "\<forall>p \<in> set ?t. p \<noteq> [] \<and> last p = LF"
      using split_inclusive_ends by (metis Un_iff set_append)
    then have "?t = [] \<or> last (concat ?t) = LF"
      by (cases ?t rule: rev_cases) auto
    then show ?thesis
      by (auto simp: is_crlf_def LF_def)
  qed
  with s show thesis
    by (intro that [of "concat ?t" "concat ?d"]) (simp_all add: augment_lines_split)
qed

lemma text_lines_insert:
  assumes "pre = [] \<or> is_crlf (last pre)" "list_all (\<lambda>c. \<not> is_crlf c) attr" "eol = crlf \<or> eol = [LF]"
  obtains L1 E L2 where "sdp_text_lines (pre @ (attr @ eol) @ post) = L1 @ attr # E @ L2"
    and "sdp_text_lines (pre @ post) = L1 @ L2" "set E \<subseteq> {[]}"
proof -
  have sep: "is_crlf LF" "is_crlf (CHR 0x0D)"
    by (simp_all add: is_crlf_def LF_def)
  define E where "E = (if eol = crlf then [[]] else ([] :: string list))"
  have mid: "split_where is_crlf ((attr @ eol) @ post) = attr # E @ split_where is_crlf post"
    using assms(2,3) sep by (auto simp: E_def crlf_def LF_def split_where_append)
  have "set E \<subseteq> {[]}"
    by (auto simp: E_def)
  show thesis
  proof (cases "pre = []")
    case True
    with mid \<open>set E \<subseteq> {[]}\<close> show thesis
      by (intro that [of "[]" E "split_where is_crlf post"]) (simp_all add: sdp_text_lines_def)
  next
    case False
    then obtain p c where "pre = p @ [c]" "is_crlf c"
      using assms(1) by (metis append_butlast_last_id)
    then have "split_where is_crlf (pre @ rest) = split_where is_crlf p @ split_where is_crlf rest" for rest
      by (simp add: split_where_sep)
    with mid \<open>set E \<subseteq> {[]}\<close> show thesis
      by (intro that [of "split_where is_crlf p" E "split_where is_crlf post"]) (simp_all add: sdp_text_lines_def)
  qed
qed

lemma map_filter_append: "List.map_filter f (xs @ ys) = List.map_filter f xs @ List.map_filter f ys"
  by (simp add: map_filter_def)

lemma map_filter_none: "\<forall>x \<in> set xs. f x = None \<Longrightarrow> List.map_filter f xs = []"
  by (simp add: map_filter_def)

lemma find_map_none: "find_map f xs = None \<longleftrightarrow> (\<forall>x \<in> set xs. f x = None)"
  by (induction xs) (auto split: option.splits)

lemma signed_text:
  assumes "has_place answer" "list_all (\<lambda>c. \<not> is_crlf c) v" "eol = crlf \<or> eol = [LF]"
    and "find_map (strip_prefix IDENTITY_PREFIX) (sdp_text_lines answer) = None"
  defines "out \<equiv> augment_lines ((IDENTITY_PREFIX @ v) @ eol) (split_inclusive LF answer)"
  shows "find_map (strip_prefix IDENTITY_PREFIX) (sdp_text_lines out) = Some v"
    and "List.map_filter (strip_prefix FINGERPRINT_PREFIX) (sdp_text_lines out) =
      List.map_filter (strip_prefix FINGERPRINT_PREFIX) (sdp_text_lines answer)"
    and "sdp_fingerprints out = sdp_fingerprints answer"
proof -
  let ?attr = "IDENTITY_PREFIX @ v"
  obtain pre post where "answer = pre @ post" "pre = [] \<or> is_crlf (last pre)"
    and "augment_lines (?attr @ eol) (split_inclusive LF answer) = pre @ (?attr @ eol) @ post"
    by (rule augment_text [OF assms(1)])
  note pp = this [folded out_def]
  have attr: "list_all (\<lambda>c. \<not> is_crlf c) ?attr"
    using assms(2) by (simp add: IDENTITY_PREFIX_def is_crlf_def)
  obtain L1 E L2 where "sdp_text_lines (pre @ (?attr @ eol) @ post) = L1 @ ?attr # E @ L2"
    and "sdp_text_lines (pre @ post) = L1 @ L2" "set E \<subseteq> {[]}"
    by (rule text_lines_insert [OF pp(2) attr assms(3)])
  note lines = this [folded pp(3) pp(1)]
  from assms(4) lines(2) have "find_map (strip_prefix IDENTITY_PREFIX) L1 = None"
    by (auto simp: find_map_none)
  with lines(1) show "find_map (strip_prefix IDENTITY_PREFIX) (sdp_text_lines out) = Some v"
    by (simp add: find_map_append)
  have "strip_prefix FINGERPRINT_PREFIX ?attr = None" "\<forall>x \<in> set E. strip_prefix FINGERPRINT_PREFIX x = None"
    using lines(3) by (auto simp: strip_prefix_def FINGERPRINT_PREFIX_def IDENTITY_PREFIX_def)
  then show "List.map_filter (strip_prefix FINGERPRINT_PREFIX) (sdp_text_lines out) =
      List.map_filter (strip_prefix FINGERPRINT_PREFIX) (sdp_text_lines answer)"
    unfolding lines(1,2) by (simp add: map_filter_append map_filter_none)
  then show "sdp_fingerprints out = sdp_fingerprints answer"
    by (simp add: sdp_fingerprints_def)
qed


subsection \<open>Signatures and tokens\<close>

lemma b64_char_graphic: "b64_char c \<Longrightarrow> is_graphic c \<and> \<not> is_crlf c \<and> c \<noteq> CHR ''.''"
proof -
  assume c: "b64_char c"
  then have "is_graphic c"
    by (auto simp: b64_char_def is_graphic_def Let_def)
  moreover have "\<not> b64_char (CHR ''.'')" "\<not> b64_char (CHR 0x0D)" "\<not> b64_char (CHR 0x0A)"
    by (simp_all add: b64_char_def)
  ultimately show ?thesis
    using c by (auto simp: is_crlf_def)
qed

lemma b64_laws:
  assumes "identity_laws X"
  shows "b64_decode X (b64_encode X b) = Some b" "b64url_decode X (b64url_encode X b) = Some b"
    and "list_all is_graphic (b64_encode X b)" "list_all (\<lambda>c. \<not> is_crlf c) (b64_encode X b)"
    and "CHR ''.'' \<notin> set (b64url_encode X b)"
proof -
  from assms show "b64_decode X (b64_encode X b) = Some b" "b64url_decode X (b64url_encode X b) = Some b"
    by (auto simp: identity_laws_def)
  from assms have "list_all b64_char (b64_encode X b)" "list_all b64_char (b64url_encode X b)"
    by (auto simp: identity_laws_def)
  then show "list_all is_graphic (b64_encode X b)" "list_all (\<lambda>c. \<not> is_crlf c) (b64_encode X b)"
    and "CHR ''.'' \<notin> set (b64url_encode X b)"
    using b64_char_graphic by (auto simp: list_all_iff)
qed

lemma sign_laws:
  assumes "identity_laws X" "ec_try_sign X k m = Some s"
  shows "ec_verify X (ec_verifying_key X k) m s" "ec_signature X (ec_signature_bytes X s) = Some s"
  using assms by (auto simp: identity_laws_def)

lemma parse_own_header:
  "identity_laws X \<Longrightarrow> parse_head X (b64url_encode X (as_bytes ES384_HEADER)) = Inr \<lparr>alg = ''ES384'', header_kid = None\<rparr>"
  by (simp add: parse_head_def decode_part_def b64_laws) (simp add: identity_laws_def)

lemma jws_sign_parse:
  assumes "identity_laws X" "jws_sign X key payload = Inr t"
  obtains j where "jws_parse X t = Inr j" "jws_payload j = as_bytes payload"
proof -
  let ?h = "b64url_encode X (as_bytes ES384_HEADER)" and ?p = "b64url_encode X (as_bytes payload)"
  from assms(2) obtain s where t: "t = ?h @ ''.'' @ ?p @ ''.'' @ b64url_encode X (ec_signature_bytes X s)"
    by (auto simp: jws_sign_def sign_parts_def res_simps Let_def)
  have "split_on CHR ''.'' t = [?h, ?p, b64url_encode X (ec_signature_bytes X s)]"
    using b64_laws(5) [OF assms(1)] by (simp add: t split_on_append split_on_single)
  then have "jws_parse X t = Inr \<lparr>jws_head = \<lparr>alg = ''ES384'', header_kid = None\<rparr>, signing_input = ?h @ ''.'' @ ?p,
      jws_payload = as_bytes payload, jws_signature = ec_signature_bytes X s\<rparr>"
    using assms(1) by (simp add: jws_parse_def parse_own_header decode_part_def b64_laws)
  then show thesis
    by (rule that) simp
qed

lemma jws_detached_verifies:
  assumes "identity_laws X" "jws_sign_detached X key payload = Inr t"
  obtains j where "jws_parse_detached X t payload = Inr j" "verify_es384 X j (ec_verifying_key X key) = Inr ()"
proof -
  let ?h = "b64url_encode X (as_bytes ES384_HEADER)" and ?p = "b64url_encode X (as_bytes payload)"
  from assms(2) obtain s where t: "t = ?h @ ''..'' @ b64url_encode X (ec_signature_bytes X s)"
    and s: "ec_try_sign X key (as_bytes (?h @ ''.'' @ ?p)) = Some s"
    by (auto simp: jws_sign_detached_def sign_parts_def res_simps Let_def)
  have "split_on CHR ''.'' t = [?h, [], b64url_encode X (ec_signature_bytes X s)]"
    using b64_laws(5) [OF assms(1)] by (simp add: t split_on_append split_on_single)
  then have "jws_parse_detached X t payload = Inr \<lparr>jws_head = \<lparr>alg = ''ES384'', header_kid = None\<rparr>,
      signing_input = ?h @ ''.'' @ ?p, jws_payload = as_bytes payload, jws_signature = ec_signature_bytes X s\<rparr>"
    using assms(1) by (simp add: jws_parse_detached_def parse_own_header decode_part_def b64_laws Let_def)
  then show thesis
    by (rule that) (use sign_laws [OF assms(1) s] in \<open>simp add: verify_es384_def\<close>)
qed

lemma seconds_unat:
  assumes "0 \<le> t" "t < SYSTEM_TIME_END"
  shows "int (unat (seconds t)) = t div int second"
proof -
  have "t div int second < 2 ^ 63"
    using assms(2) by (simp add: SYSTEM_TIME_END_def second_def)
  moreover have "0 \<le> t div int second"
    using assms(1) by (simp add: pos_imp_zdiv_nonneg_iff)
  ultimately have "uint (seconds t) = t div int second"
    using assms(1) by (simp add: seconds_def UNIX_EPOCH_def uint_word_of_int_eq take_bit_int_eq_self)
  then show ?thesis
    by simp
qed

lemma own_claims:
  assumes "identity_laws X"
  defines "c jwk iat domain exp \<equiv> \<lparr>claim_values = token_claims jwk iat domain exp\<rparr>"
  shows "json_claims X (as_bytes (value_to_json X (JObject (token_claims jwk iat domain exp)))) =
      Some (token_claims jwk iat domain exp)"
    and "hm_get (claim_values (c jwk iat domain (Some e))) ''exp'' = Some (JNumber (JUnsigned e))"
    and "domain \<noteq> [] \<Longrightarrow> issuer (c jwk iat domain exp) = Some domain"
    and "client_public_key X (c (jwk_of_ec_key X vk) iat domain exp) = Inr vk"
proof -
  show "json_claims X (as_bytes (value_to_json X (JObject (token_claims jwk iat domain exp)))) =
      Some (token_claims jwk iat domain exp)"
    using assms(1) by (auto simp: identity_laws_def Let_def)
  show "hm_get (claim_values (c jwk iat domain (Some e))) ''exp'' = Some (JNumber (JUnsigned e))"
    by (simp add: c_def token_claims_def hm_get_def)
  show "domain \<noteq> [] \<Longrightarrow> issuer (c jwk iat domain exp) = Some domain"
    by (simp add: c_def token_claims_def hm_get_def issuer_def claim_string_def split: option.splits)
  have "\<forall>k. \<exists>x y. ec_point X k = (Some x, Some y) \<and> length x = 48 \<and> length y = 48 \<and> ec_from_sec1 X (4 # x @ y) = Some k"
    using assms(1) unfolding identity_laws_def by - (elim conjE, assumption)
  then obtain x y where "ec_point X vk = (Some x, Some y)" "length x = 48" "length y = 48"
      "ec_from_sec1 X (4 # x @ y) = Some vk"
    by metis
  then have key: "ec_key_of_jwk X (jwk_of_ec_key X vk) = Inr vk"
    using assms(1) by (simp add: ec_key_of_jwk_def jwk_of_ec_key_def coordinate_def b64_laws P384_COORDINATE_LEN_def)
  have "json_ec_jwk X (snd (hd (token_claims (jwk_of_ec_key X vk) iat domain exp))) = Some (jwk_of_ec_key X vk)"
    using assms(1) by (auto simp: identity_laws_def Let_def)
  with key show "client_public_key X (c (jwk_of_ec_key X vk) iat domain exp) = Inr vk"
    by (simp add: c_def client_public_key_def token_claims_def hm_get_def)
qed

lemma identity_base64_back:
  assumes "identity_laws X" "identity_to_base64 X i = Inr v"
  shows "identity_from_base64 X v = Inr i" "list_all (\<lambda>c. \<not> is_crlf c) v"
proof -
  have docs: "\<forall>a. \<exists>t. assertion_to_json X a = Some t \<and> json_assertion X t = Some a"
    using assms(1) unfolding identity_laws_def by - (elim conjE, assumption)
  have raws: "\<forall>r. \<exists>t. raw_to_json X r = Some t \<and> json_raw X t = Some r \<and> is_str t"
    using assms(1) unfolding identity_laws_def by - (elim conjE, assumption)
  from docs obtain a where a: "assertion_to_json X (id_assertion i) = Some a" "json_assertion X a = Some (id_assertion i)"
    by metis
  from raws obtain t where t: "raw_to_json X \<lparr>raw_idp = id_idp i, raw_assertion = a\<rparr> = Some t"
    and rd: "json_raw X t = Some \<lparr>raw_idp = id_idp i, raw_assertion = a\<rparr>" "is_str t"
    by metis
  from assms(2) a t have v: "v = b64_encode X (as_bytes t)"
    by (simp add: identity_to_base64_def identity_to_json_def)
  then show "identity_from_base64 X v = Inr i"
    using a rd assms(1) trim_graphic [OF b64_laws(3) [OF assms(1)]]
    by (simp add: identity_from_base64_def identity_from_json_def b64_laws)
  from v assms(1) show "list_all (\<lambda>c. \<not> is_crlf c) v"
    by (simp add: b64_laws)
qed


subsection \<open>A signed answer is accepted\<close>

lemma mint_token_trusted:
  assumes laws: "identity_laws X" and mint: "mint_token X key vk domain now (Some l) = Inr token"
    and time: "0 \<le> now" "now + int l + int LEEWAY < SYSTEM_TIME_END" "now' \<le> now + int l"
    and i: "as_token (id_assertion i) = token"
  obtains c where "trust_claims X AnyToken i now' = (AnyToken, Inr c)"
    and "c = \<lparr>claim_values = token_claims (jwk_of_ec_key X vk) (seconds now) domain (Some (seconds (now + int l)))\<rparr>"
proof -
  let ?e = "seconds (now + int l)"
  define m where "m = token_claims (jwk_of_ec_key X vk) (seconds now) domain (Some ?e)"
  have "now + int l < SYSTEM_TIME_END"
    using time(2) by simp
  then have "system_time_add now l = Some (now + int l)"
    by (simp add: system_time_add_def)
  with mint have "jws_sign X key (value_to_json X (JObject m)) = Inr token"
    by (simp add: mint_token_def m_def)
  then obtain j where j: "jws_parse X token = Inr j" "jws_payload j = as_bytes (value_to_json X (JObject m))"
    by (rule jws_sign_parse [OF laws])
  have e: "int (unat ?e) = (now + int l) div int second"
    using time \<open>now + int l < SYSTEM_TIME_END\<close> by (intro seconds_unat) simp_all
  have "now + int l < (int (unat ?e) + 1) * int second"
    unfolding e by (simp add: second_def)
  then have later: "now' \<le> int ((unat ?e + 60) * second)"
    using time(3) by (simp add: second_def algebra_simps)
  have "int (unat ?e) * int second \<le> now + int l"
    unfolding e by (simp add: second_def)
  then have "int (unat ?e) + 60 < 2 ^ 63"
    using time(2) by (simp add: LEEWAY_def SYSTEM_TIME_END_def second_def)
  then have "int (unat ?e + 60) < int (2 ^ 63)"
    by (simp only: of_nat_add of_nat_power of_nat_numeral)
  then have room: "\<not> 2 ^ 63 \<le> unat ?e + 60"
    by (simp only: of_nat_less_iff not_le)
  have "check_expiry \<lparr>claim_values = m\<rparr> now' = Inr ()"
    unfolding m_def check_expiry_seconds [OF own_claims(2) [OF laws]] using room later by simp
  then have "trust_claims X AnyToken i now' = (AnyToken, Inr \<lparr>claim_values = m\<rparr>)"
    using j own_claims(1) [OF laws] by (simp add: trust_claims_def i jws_claims_def m_def)
  then show thesis
    by (rule that) (simp add: m_def)
qed

lemma from_key_parts:
  assumes "from_key X key domain now lifetime = Inr si"
  shows "si_signing si = key" "si_verifying si = ec_verifying_key X key" "si_lifetime si = lifetime" "si_domain si \<noteq> []"
  using assms by (auto simp: from_key_def res_simps DEFAULT_DOMAIN_def Let_def split: if_splits)

lemma fingerprint_payload_empty:
  assumes "identity_laws X"
  shows "fingerprint_payload X f = EMPTY_FINGERPRINTS \<longleftrightarrow> f = []"
proof -
  have "\<forall>f. value_to_json X (JObject [(''fingerprint'', JArray f)]) = EMPTY_FINGERPRINTS \<longleftrightarrow> f = []"
    using assms unfolding identity_laws_def by - (elim conjE, assumption)
  then show ?thesis
    by (simp add: fingerprint_payload_def)
qed

lemma augment_parts:
  assumes "augment X si answer now = Inr out"
  obtains v f token signature eol where "sdp_fingerprints answer = Inr f"
    and "mint_token X (si_signing si) (si_verifying si) (si_domain si) now (si_lifetime si) = Inr token"
    and "jws_sign_detached X (si_signing si) (fingerprint_payload X f) = Inr signature"
    and "identity_to_base64 X \<lparr>id_idp = \<lparr>idp_domain = si_domain si, idp_protocol = ''default''\<rparr>,
           id_assertion = \<lparr>as_token = token, as_fingerprints = signature\<rparr>\<rparr> = Inr v"
    and "eol = crlf \<or> eol = [LF]"
    and "out = augment_lines ((IDENTITY_PREFIX @ v) @ eol) (split_inclusive LF answer)"
proof -
  define eol where "eol = (if contains_crlf answer then crlf else [LF])"
  have "eol = crlf \<or> eol = [LF]"
    by (simp add: eol_def)
  moreover obtain v where v: "identity_value X si answer now = Inr v"
    and "out = augment_lines ((IDENTITY_PREFIX @ v) @ eol) (split_inclusive LF answer)"
    using assms by (auto simp: augment_def res_simps eol_def)
  moreover from v obtain f token signature where "sdp_fingerprints answer = Inr f"
    and "mint_token X (si_signing si) (si_verifying si) (si_domain si) now (si_lifetime si) = Inr token"
    and "jws_sign_detached X (si_signing si) (fingerprint_payload X f) = Inr signature"
    and "identity_to_base64 X \<lparr>id_idp = \<lparr>idp_domain = si_domain si, idp_protocol = ''default''\<rparr>,
           id_assertion = \<lparr>as_token = token, as_fingerprints = signature\<rparr>\<rparr> = Inr v"
    by (auto simp: identity_value_def identity_for_fingerprints_def token_at_def res_simps Let_def)
  ultimately show thesis
    by - (rule that)
qed

lemma augmented_valid:
  assumes laws: "identity_laws X" and si: "from_key X key domain t0 (Some l) = Inr si"
    and aug: "augment X si answer now = Inr out" and place: "has_place answer"
    and none: "find_map (strip_prefix IDENTITY_PREFIX) (sdp_text_lines answer) = None"
    and fp: "sdp_fingerprints answer \<noteq> Inr []"
    and time: "0 \<le> now" "now + int l + int LEEWAY < SYSTEM_TIME_END" "now' \<le> now + int l"
  shows "\<exists>c. validate_sdp X out AnyToken now' = (AnyToken, Inr c) \<and> issuer c = Some (si_domain si) \<and>
    client_public_key X c = Inr (si_verifying si)"
proof -
  note key = from_key_parts [OF si]
  obtain v f token signature eol where f: "sdp_fingerprints answer = Inr f"
    and mint: "mint_token X (si_signing si) (si_verifying si) (si_domain si) now (si_lifetime si) = Inr token"
    and det: "jws_sign_detached X (si_signing si) (fingerprint_payload X f) = Inr signature"
    and v: "identity_to_base64 X \<lparr>id_idp = \<lparr>idp_domain = si_domain si, idp_protocol = ''default''\<rparr>,
           id_assertion = \<lparr>as_token = token, as_fingerprints = signature\<rparr>\<rparr> = Inr v" (is "identity_to_base64 X ?i = _")
    and eol: "eol = crlf \<or> eol = [LF]"
    and out: "out = augment_lines ((IDENTITY_PREFIX @ v) @ eol) (split_inclusive LF answer)"
    by (rule augment_parts [OF aug])
  note b64 = identity_base64_back [OF laws v]
  note tx = signed_text [OF place b64(2) eol none, folded out]
  have ident: "identity_from_sdp X out = Inr ?i"
    by (simp add: identity_from_sdp_def tx b64)
  obtain c where c: "trust_claims X AnyToken ?i now' = (AnyToken, Inr c)"
    and cv: "c = \<lparr>claim_values = token_claims (jwk_of_ec_key X (si_verifying si)) (seconds now) (si_domain si)
      (Some (seconds (now + int l)))\<rparr>"
    by (rule mint_token_trusted [OF laws mint [unfolded key(3)] time, of ?i]) simp_all
  have cpk: "client_public_key X c = Inr (si_verifying si)"
    unfolding cv by (rule own_claims(4) [OF laws])
  obtain j where j: "jws_parse_detached X signature (fingerprint_payload X f) = Inr j"
    and ver: "verify_es384 X j (ec_verifying_key X (si_signing si)) = Inr ()"
    by (rule jws_detached_verifies [OF laws det])
  have "fingerprint_payload X f \<noteq> EMPTY_FINGERPRINTS"
    using fp f fingerprint_payload_empty [OF laws] by simp
  then have "fingerprints_signed X out ?i c = Inr ()"
    using f j ver key(1,2) by (simp add: fingerprints_signed_def canonical_fingerprint_json_def tx cpk)
  then have "validate_sdp X out AnyToken now' = (AnyToken, Inr c)"
    by (simp add: validate_sdp_def ident c)
  moreover have "issuer c = Some (si_domain si)"
    unfolding cv using own_claims(3) [OF laws key(4)] by simp
  ultimately show ?thesis
    using cpk by blast
qed

text \<open>Signing keeps the fingerprint lines as they are.\<close>

lemma augment_keeps_fingerprints:
  assumes "identity_laws X" "augment X si answer now = Inr out" "has_place answer"
    and "find_map (strip_prefix IDENTITY_PREFIX) (sdp_text_lines answer) = None"
  shows "List.map_filter (strip_prefix FINGERPRINT_PREFIX) (sdp_text_lines out) =
    List.map_filter (strip_prefix FINGERPRINT_PREFIX) (sdp_text_lines answer)"
proof (rule augment_parts [OF assms(2)])
  fix v f token signature eol
  assume v: "identity_to_base64 X \<lparr>id_idp = \<lparr>idp_domain = si_domain si, idp_protocol = ''default''\<rparr>,
      id_assertion = \<lparr>as_token = token, as_fingerprints = signature\<rparr>\<rparr> = Inr v"
    and eol: "eol = crlf \<or> eol = [LF]"
    and out: "out = augment_lines ((IDENTITY_PREFIX @ v) @ eol) (split_inclusive LF answer)"
  show ?thesis
    unfolding out by (rule signed_text(2) [OF assms(3) identity_base64_back(2) [OF assms(1) v] eol assms(4)])
qed

end
