(* ===== verification/Identity_Trust.thy ===== *)
theory Identity_Trust
  imports Server_Identity
begin

text \<open>
  The guarantees of \<open>nethernet/src/identity\<close>: what a description that passes \<open>validate_sdp\<close> is known to satisfy, that a server's
  signed answer passes it, and which token makes it panic; with a concrete instance of the libraries at which the
  theorems apply.
\<close>

subsection \<open>A concrete instance of the libraries\<close>

text \<open>Base 16 in place of base 64, a tagged text format in place of JSON, and a signature that repeats its key and
  message: enough to satisfy the laws, used where a theorem is applied to a concrete input.\<close>

definition hex_text :: "bytes \<Rightarrow> string" where
  "hex_text b = str_of (base16_encode b)"

definition unhex_text :: "string \<Rightarrow> bytes option" where
  "unhex_text s = base16_decode (as_bytes s)"

definition hex_field :: "string \<Rightarrow> string" where
  "hex_field s = hex_text (as_bytes s) @ '';''"

fun tagged :: "json_value \<Rightarrow> string" where
  "tagged JNull = ''n''"
| "tagged (JBool b) = (if b then ''t'' else ''f'')"
| "tagged (JNumber (JUnsigned w)) = ''u'' @ u64_to_string w @ '';''"
| "tagged (JNumber (JOtherNumber s)) = ''o'' @ hex_field s"
| "tagged (JString s) = ''s'' @ hex_field s"
| "tagged (JArray vs) = ''a'' @ concat (map tagged vs) @ '']''"
| "tagged (JObject m) = ''m'' @ concat (map (\<lambda>p. hex_field (fst p) @ tagged (snd p)) m) @ '']''"

definition unhex_field :: "string \<Rightarrow> (string \<times> string) option" where
  "unhex_field s = opt_bind (split_once CHR '';'' s) (\<lambda>(h, rest).
     map_option (\<lambda>b. (str_of b, rest)) (unhex_text h))"

fun untag :: "nat \<Rightarrow> string \<Rightarrow> (json_value \<times> string) option"
  and untag_list :: "nat \<Rightarrow> string \<Rightarrow> (json_value list \<times> string) option"
  and untag_map :: "nat \<Rightarrow> string \<Rightarrow> (json_map \<times> string) option" where
  "untag (Suc n) (c # r) =
     (if c = CHR ''n'' then Some (JNull, r)
      else if c = CHR ''t'' then Some (JBool True, r)
      else if c = CHR ''f'' then Some (JBool False, r)
      else if c = CHR ''u'' then opt_bind (split_once CHR '';'' r) (\<lambda>(d, rest).
        map_option (\<lambda>k. (JNumber (JUnsigned k), rest)) (parse_u64 d))
      else if c = CHR ''o'' then map_option (\<lambda>(s, rest). (JNumber (JOtherNumber s), rest)) (unhex_field r)
      else if c = CHR ''s'' then map_option (\<lambda>(s, rest). (JString s, rest)) (unhex_field r)
      else if c = CHR ''a'' then map_option (\<lambda>(vs, rest). (JArray vs, rest)) (untag_list n r)
      else if c = CHR ''m'' then map_option (\<lambda>(m, rest). (JObject m, rest)) (untag_map n r)
      else None)"
| "untag n s = None"
| "untag_list (Suc n) s =
     (case s of
        [] \<Rightarrow> None
      | c # r \<Rightarrow> if c = CHR '']'' then Some ([], r)
          else opt_bind (untag n s) (\<lambda>(v, rest). map_option (\<lambda>(vs, rest). (v # vs, rest)) (untag_list n rest)))"
| "untag_list 0 s = None"
| "untag_map (Suc n) s =
     (case s of
        [] \<Rightarrow> None
      | c # r \<Rightarrow> if c = CHR '']'' then Some ([], r)
          else opt_bind (unhex_field s) (\<lambda>(k, rest). opt_bind (untag n rest) (\<lambda>(v, rest).
            map_option (\<lambda>(m, rest). ((k, v) # m, rest)) (untag_map n rest))))"
| "untag_map 0 s = None"

fun untag_jwk :: "json_value \<Rightarrow> ec_jwk option" where
  "untag_jwk (JObject [(_, JString crv), (_, JString kty), (_, JString x), (_, JString y)]) =
     Some \<lparr>ec_kty = kty, ec_crv = crv, ec_x = x, ec_y = y\<rparr>"
| "untag_jwk _ = None"

definition sample_identity :: "(u8, u8, bytes, unit) identity_ops" where
  "sample_identity = \<lparr>
     b64_encode = hex_text, b64_decode = unhex_text, b64url_encode = hex_text, b64url_decode = unhex_text,
     json_header = (\<lambda>b. if b = as_bytes ES384_HEADER then Some \<lparr>alg = ''ES384'', header_kid = None\<rparr> else None),
     json_claims = (\<lambda>b. case untag (length b) (str_of b) of Some (JObject m, []) \<Rightarrow> Some m | _ \<Rightarrow> None),
     json_raw = (\<lambda>s. opt_bind (unhex_field s) (\<lambda>(d, s). opt_bind (unhex_field s) (\<lambda>(p, s).
        map_option (\<lambda>(a, _). \<lparr>raw_idp = \<lparr>idp_domain = d, idp_protocol = p\<rparr>, raw_assertion = a\<rparr>) (unhex_field s)))),
     json_assertion = (\<lambda>s. opt_bind (unhex_field s) (\<lambda>(t, s).
        map_option (\<lambda>(f, _). \<lparr>as_token = t, as_fingerprints = f\<rparr>) (unhex_field s))),
     json_ec_jwk = untag_jwk,
     raw_to_json = (\<lambda>r. Some (hex_field (idp_domain (raw_idp r)) @ hex_field (idp_protocol (raw_idp r)) @
        hex_field (raw_assertion r))),
     assertion_to_json = (\<lambda>a. Some (hex_field (as_token a) @ hex_field (as_fingerprints a))),
     value_to_json = (\<lambda>v. if v = JObject [(''fingerprint'', JArray [])] then EMPTY_FINGERPRINTS else tagged v),
     ec_signature = Some, ec_signature_bytes = (\<lambda>s. s),
     ec_verify = (\<lambda>k m s. s = k # m), ec_try_sign = (\<lambda>k m. Some (k # m)), ec_verifying_key = (\<lambda>k. k),
     ec_from_der = (\<lambda>_. None), ec_to_der = (\<lambda>k. Some [k]),
     ec_from_sec1 = (\<lambda>p. if length p = 97 then Some (p ! 1) else None),
     ec_point = (\<lambda>k. (Some (replicate 48 k), Some (replicate 48 0))),
     ec_from_pem = (\<lambda>_. None), ec_to_pem = (\<lambda>_. None),
     rsa_public_key = (\<lambda>_ _. None), rsa_signature = (\<lambda>_. None), rsa_verify = (\<lambda>_ _ _. False)\<rparr>"

lemma hex_digit_char: "n < 16 \<Longrightarrow> b64_char (char_of_byte (hex_digit n)) \<and> char_of_byte (hex_digit n) \<noteq> CHR '';''"
proof -
  assume n: "n < 16"
  then have "unat (hex_digit n) = (if n < 10 then 48 + n else 87 + n)"
    by (simp add: hex_digit_def unat_of_nat)
  moreover have "of_char (char_of_byte b) = (unat b :: nat)" for b
    using unat_bound [of b] by (simp add: char_of_byte_def)
  ultimately have c: "of_char (char_of_byte (hex_digit n)) = (if n < 10 then 48 + n else 87 + n)"
    by simp
  then have "of_char (char_of_byte (hex_digit n)) \<noteq> (of_char CHR '';'' :: nat)"
    using n by (simp split: if_splits)
  with n c show ?thesis
    by (auto simp: b64_char_def Let_def)
qed

lemma hex_text_chars: "list_all b64_char (hex_text b)" "CHR '';'' \<notin> set (hex_text b)"
proof -
  have "list_all (\<lambda>c. b64_char c \<and> c \<noteq> CHR '';'') (hex_text b)"
  proof (induction b)
    case (Cons x b)
    have "unat x < 256"
      using unat_bound [of x] by simp
    then have "unat x div 16 < 16" "unat x mod 16 < 16"
      by simp_all
    with Cons show ?case
      using hex_digit_char by (simp add: hex_text_def str_of_def)
  qed (simp add: hex_text_def str_of_def)
  then show "list_all b64_char (hex_text b)" "CHR '';'' \<notin> set (hex_text b)"
    by (auto simp: list_all_iff)
qed

lemma unhex_hex_text [simp]: "unhex_text (hex_text b) = Some b"
  by (simp add: unhex_text_def hex_text_def base16_decode_encode)

lemma unhex_hex_field [simp]: "unhex_field (hex_field s @ rest) = Some (s, rest)"
  using split_once_append [OF hex_text_chars(2), of "as_bytes s" rest]
  by (simp add: unhex_field_def hex_field_def)


lemma tagged_head: "\<exists>c r. tagged v = c # r \<and> c \<noteq> CHR '']''"
  by (cases v rule: tagged.cases) simp_all

lemma hex_field_head: "\<exists>c r. hex_field s = c # r \<and> c \<noteq> CHR '']''"
proof (cases "hex_text (as_bytes s)")
  case (Cons c r)
  then have "b64_char c"
    using hex_text_chars(1) [of "as_bytes s"] by simp
  moreover have "\<not> b64_char CHR '']''"
    by (simp add: b64_char_def)
  ultimately have "c \<noteq> CHR '']''"
    by auto
  with Cons show ?thesis
    by (simp add: hex_field_def)
qed (simp add: hex_field_def)

lemma untag_list_tagged:
  assumes "\<And>v n rest. v \<in> set vs \<Longrightarrow> length (tagged v) \<le> n \<Longrightarrow> untag n (tagged v @ rest) = Some (v, rest)"
    and "length (concat (map tagged vs)) < n"
  shows "untag_list n (concat (map tagged vs) @ CHR '']'' # rest) = Some (vs, rest)"
  using assms
proof (induction vs arbitrary: n)
  case Nil
  then show ?case
    by (cases n) simp_all
next
  case (Cons v vs)
  from Cons.prems(2) obtain k where n: "n = Suc k"
    by (cases n) simp_all
  obtain c r where v: "tagged v = c # r" "c \<noteq> CHR '']''"
    using tagged_head by blast
  have "untag k (tagged v @ concat (map tagged vs) @ CHR '']'' # rest) = Some (v, concat (map tagged vs) @ CHR '']'' # rest)"
    using Cons.prems n by (intro Cons.prems(1)) simp_all
  moreover have "untag_list k (concat (map tagged vs) @ CHR '']'' # rest) = Some (vs, rest)"
    using Cons.prems n v by (intro Cons.IH) simp_all
  ultimately show ?case
    using v by (simp add: n)
qed

lemma untag_map_tagged:
  assumes "\<And>p n rest. p \<in> set m \<Longrightarrow> length (tagged (snd p)) \<le> n \<Longrightarrow> untag n (tagged (snd p) @ rest) = Some (snd p, rest)"
    and "length (concat (map (\<lambda>p. hex_field (fst p) @ tagged (snd p)) m)) < n"
  shows "untag_map n (concat (map (\<lambda>p. hex_field (fst p) @ tagged (snd p)) m) @ CHR '']'' # rest) = Some (m, rest)"
  using assms
proof (induction m arbitrary: n)
  case Nil
  then show ?case
    by (cases n) simp_all
next
  case (Cons p m)
  let ?f = "\<lambda>m. concat (map (\<lambda>p. hex_field (fst p) @ tagged (snd p)) m) @ CHR '']'' # rest"
  from Cons.prems(2) obtain k where n: "n = Suc k"
    by (cases n) simp_all
  obtain c r where h: "hex_field (fst p) = c # r" "c \<noteq> CHR '']''"
    using hex_field_head by blast
  have "?f (p # m) = hex_field (fst p) @ tagged (snd p) @ ?f m"
    by simp
  moreover have "untag k (tagged (snd p) @ ?f m) = Some (snd p, ?f m)"
    using Cons.prems n by (intro Cons.prems(1)) simp_all
  moreover have "untag_map k (?f m) = Some (m, rest)"
    using Cons.prems n h by (intro Cons.IH) simp_all
  moreover have "untag_map n (hex_field (fst p) @ s) = opt_bind (unhex_field (hex_field (fst p) @ s)) (\<lambda>(k', rest).
      opt_bind (untag k rest) (\<lambda>(v, rest). map_option (\<lambda>(m, rest). ((k', v) # m, rest)) (untag_map k rest)))" for s
    by (simp add: n h)
  ultimately show ?case
    by simp
qed

lemma untag_tagged: "length (tagged v) \<le> n \<Longrightarrow> untag n (tagged v @ rest) = Some (v, rest)"
proof (induction v arbitrary: n rest)
  case (JNumber x)
  have "CHR '';'' \<notin> set (u64_to_string w)" for w
    by (simp add: u64_to_string_def dec_no_sep is_digit_def)
  with JNumber show ?case
    by (cases x; cases n) simp_all
next
  case (JArray vs)
  then obtain k where n: "n = Suc k"
    by (cases n) simp_all
  have "untag_list k (concat (map tagged vs) @ CHR '']'' # rest) = Some (vs, rest)"
    by (rule untag_list_tagged) (use JArray n in simp_all)
  then show ?case
    by (simp add: n)
next
  case (JObject m)
  then obtain k where n: "n = Suc k"
    by (cases n) simp_all
  have "untag_map k (concat (map (\<lambda>p. hex_field (fst p) @ tagged (snd p)) m) @ CHR '']'' # rest) = Some (m, rest)"
    by (rule untag_map_tagged) (use JObject.IH [OF _ snds.intros] JObject.prems n in simp_all)
  then show ?case
    by (simp add: n)
next
  case JNull
  then show ?case
    by (cases n) simp_all
next
  case (JBool b)
  then show ?case
    by (cases n; cases b) simp_all
next
  case (JString s)
  then show ?case
    by (cases n) simp_all
qed


lemma hex_field_is_str: "is_str (hex_field s)"
proof -
  have "is_ascii (hex_text b)" for b
    using hex_text_chars(1) [of b] b64_char_graphic by (force simp: is_ascii_def is_graphic_def list_all_iff)
  then show ?thesis
    by (intro is_ascii_is_str) (simp add: hex_field_def)
qed

lemma sample_claims:
  fixes jwk iat domain exp
  defines "m \<equiv> token_claims jwk iat domain exp"
  shows "json_claims sample_identity (as_bytes (value_to_json sample_identity (JObject m))) = Some m"
    and "json_ec_jwk sample_identity (snd (hd m)) = Some jwk"
proof -
  have "JObject m \<noteq> JObject [(''fingerprint'', JArray [])]"
    by (simp add: m_def token_claims_def)
  moreover define t where "t = tagged (JObject m)"
  ultimately have "value_to_json sample_identity (JObject m) = t"
    by (simp add: sample_identity_def)
  moreover have "untag (length t) t = Some (JObject m, [])"
    using untag_tagged [of "JObject m" "length t" "[]"] unfolding t_def by (simp only: append_Nil2 order_refl)
  ultimately show "json_claims sample_identity (as_bytes (value_to_json sample_identity (JObject m))) = Some m"
    by (simp add: sample_identity_def)
  show "json_ec_jwk sample_identity (snd (hd m)) = Some jwk"
    by (simp add: sample_identity_def m_def token_claims_def)
qed

lemma sample_empty: "value_to_json sample_identity (JObject [(''fingerprint'', JArray f)]) = EMPTY_FINGERPRINTS \<longleftrightarrow> f = []"
  by (simp add: sample_identity_def EMPTY_FINGERPRINTS_def)

lemma sample_identity_laws: "identity_laws sample_identity"
  unfolding identity_laws_def
proof (intro conjI)
  show "\<forall>jwk iat domain exp. let m = token_claims jwk iat domain exp
     in json_claims sample_identity (as_bytes (value_to_json sample_identity (JObject m))) = Some m \<and>
        json_ec_jwk sample_identity (snd (hd m)) = Some jwk"
    by (simp only: Let_def sample_claims simp_thms)
  show "\<forall>a. \<exists>t. assertion_to_json sample_identity a = Some t \<and> json_assertion sample_identity t = Some a"
    using unhex_hex_field [of _ "[]"] by (simp add: sample_identity_def)
  show "\<forall>r. \<exists>t. raw_to_json sample_identity r = Some t \<and> json_raw sample_identity t = Some r \<and> is_str t"
    using unhex_hex_field [of _ "[]"] by (simp add: sample_identity_def is_str_append hex_field_is_str)
  show "\<forall>f. value_to_json sample_identity (JObject [(''fingerprint'', JArray f)]) = EMPTY_FINGERPRINTS \<longleftrightarrow> f = []"
    using sample_empty by blast
qed (simp_all add: sample_identity_def hex_text_chars nth_append)

text \<open>An answer and the identity used in examples.\<close>

definition sample_answer :: string where
  "sample_answer = ''v=0'' @ crlf @ ''a=fingerprint:sha-256 AB:CD'' @ crlf @ ''m=application'' @ crlf"

lemma sample_answer_facts:
  "has_place sample_answer" "find_map (strip_prefix IDENTITY_PREFIX) (sdp_text_lines sample_answer) = None"
  "sdp_fingerprints sample_answer = Inr [(''sha-256'', ''AB:CD'')]"
proof -
  have lines: "sdp_text_lines sample_answer = [''v=0'', [], ''a=fingerprint:sha-256 AB:CD'', [], ''m=application'', [], []]"
    by (simp add: sample_answer_def crlf_def sdp_text_lines_def is_crlf_def)
  then show "find_map (strip_prefix IDENTITY_PREFIX) (sdp_text_lines sample_answer) = None"
    by (simp add: strip_prefix_def IDENTITY_PREFIX_def)
  show "has_place sample_answer"
    by (simp add: has_place_def sample_answer_def crlf_def is_crlf_def)
  have "trim ''sha-256 AB:CD'' = ''sha-256 AB:CD''"
    by (rule trim_edges) (simp add: is_graphic_def)
  with lines show "sdp_fingerprints sample_answer = Inr [(''sha-256'', ''AB:CD'')]"
    by (simp add: sdp_fingerprints_def strip_prefix_def FINGERPRINT_PREFIX_def split_once_def)
qed


section \<open>Properties\<close>

text \<open>C4: What an accepted description is known to satisfy, under either trust.  It has an \<open>a=identity\<close> line that decodes; the
  token in it has three parts and its payload holds exactly the returned claims; the token has an expiry that is not
  more than 60 seconds past; the description has fingerprints, and the key of the token's \<open>cpk\<close> claim verifies the
  detached signature over exactly those fingerprints.  Under a key set the token is also signed with RS256 by a key
  of the set with the token's key id, and names a subject, the issuer and the audience.\<close>

theorem accepted_description:
  assumes "validate_sdp X sdp trust now = (trust', Inr c)"
  shows "trust' = trust \<and> (\<exists>v i j e f header signature key s.
    find_map (strip_prefix IDENTITY_PREFIX) (sdp_text_lines sdp) = Some v \<and> identity_from_base64 X v = Inr i \<and>
    jws_parse X (as_token (id_assertion i)) = Inr j \<and> json_claims X (jws_payload j) = Some (claim_values c) \<and>
    hm_get (claim_values c) ''exp'' = Some (JNumber (JUnsigned e)) \<and> now \<le> int ((unat e + 60) * second) \<and>
    sdp_fingerprints sdp = Inr f \<and> fingerprint_payload X f \<noteq> EMPTY_FINGERPRINTS \<and>
    as_fingerprints (id_assertion i) = header @ ''..'' @ signature \<and>
    client_public_key X c = Inr key \<and> opt_bind (b64url_decode X signature) (ec_signature X) = Some s \<and>
    ec_verify X key (as_bytes (header @ ''.'' @ b64url_encode X (as_bytes (fingerprint_payload X f)))) s \<and>
    (case trust of AnyToken \<Rightarrow> True | Minecraft keys \<Rightarrow> minecraft_token X keys j c))"
proof -
  obtain i where i: "identity_from_sdp X sdp = Inr i" and t: "trust_claims X trust i now = (trust', Inr c)"
    and f: "fingerprints_signed X sdp i c = Inr ()"
    using validate_sdp_ok [OF assms] .
  from i obtain v where v: "find_map (strip_prefix IDENTITY_PREFIX) (sdp_text_lines sdp) = Some v"
    "identity_from_base64 X v = Inr i"
    by (auto simp: identity_from_sdp_def res_simps)
  obtain j where j: "jws_parse X (as_token (id_assertion i)) = Inr j"
    "json_claims X (jws_payload j) = Some (claim_values c)"
    and e: "check_expiry c now = Inr ()" and tt: "trust' = trust"
    and m: "\<And>keys. trust = Minecraft keys \<Longrightarrow> minecraft_token X keys j c"
    using trust_claims_ok [OF t] by blast
  obtain e where "hm_get (claim_values c) ''exp'' = Some (JNumber (JUnsigned e))" "now \<le> int ((unat e + 60) * second)"
    using check_expiry_ok [OF e] .
  moreover obtain f header signature key s where "sdp_fingerprints sdp = Inr f"
    "fingerprint_payload X f \<noteq> EMPTY_FINGERPRINTS" "as_fingerprints (id_assertion i) = header @ ''..'' @ signature"
    "client_public_key X c = Inr key" "opt_bind (b64url_decode X signature) (ec_signature X) = Some s"
    "ec_verify X key (as_bytes (header @ ''.'' @ b64url_encode X (as_bytes (fingerprint_payload X f)))) s"
    using fingerprints_signed_ok [OF f] .
  moreover have "case trust of AnyToken \<Rightarrow> True | Minecraft keys \<Rightarrow> minecraft_token X keys j c"
    using m by (cases trust) simp_all
  ultimately show ?thesis
    using v j tt by blast
qed

lemma sample_signed:
  obtains si out where "from_key sample_identity 7 ''srv'' 0 (Some second) = Inr si"
    and "augment sample_identity si sample_answer 0 = Inr out"
proof -
  have sign: "\<exists>t. jws_sign sample_identity k p = Inr t" "\<exists>t. jws_sign_detached sample_identity k p = Inr t" for k p
    by (simp_all add: jws_sign_def jws_sign_detached_def sign_parts_def Let_def) (simp_all add: sample_identity_def)
  have b64: "\<exists>t. identity_to_base64 sample_identity i = Inr t" for i
    by (simp add: identity_to_base64_def identity_to_json_def) (simp add: sample_identity_def)
  have mint: "\<exists>t. mint_token sample_identity k vk d 0 (Some second) = Inr t" for k vk d
  proof -
    have "system_time_add 0 second = Some (int second)"
      by (simp add: system_time_add_def SYSTEM_TIME_END_def second_def)
    with sign(1) show ?thesis
      by (simp add: mint_token_def)
  qed
  then obtain si where si: "from_key sample_identity 7 ''srv'' 0 (Some second) = Inr si"
    by (auto simp: from_key_def Let_def res_bind_eq_Inr) metis
  then have "si_lifetime si = Some second"
    by (rule from_key_parts)
  then obtain v where "identity_value sample_identity si sample_answer 0 = Inr v"
    using mint sign(2) b64
    by (simp add: identity_value_def sample_answer_facts identity_for_fingerprints_def token_at_def Let_def res_bind_eq_Inr)
      metis
  then have "\<exists>out. augment sample_identity si sample_answer 0 = Inr out"
    by (simp add: augment_def)
  with si that show thesis
    by blast
qed


lemma sample_accepted:
  assumes "from_key sample_identity 7 ''srv'' 0 (Some second) = Inr si" "augment sample_identity si sample_answer 0 = Inr out"
  shows "\<exists>c. validate_sdp sample_identity out AnyToken 0 = (AnyToken, Inr c) \<and> issuer c = Some (si_domain si) \<and>
    client_public_key sample_identity c = Inr (si_verifying si)"
  by (rule augmented_valid [OF sample_identity_laws assms])
    (simp_all add: sample_answer_facts LEEWAY_def SYSTEM_TIME_END_def second_def)

theorem accepted_description_witness:
  "\<exists>sdp c. validate_sdp sample_identity sdp AnyToken 0 = (AnyToken, Inr c) \<and>
     (\<exists>f key. sdp_fingerprints sdp = Inr f \<and> fingerprint_payload sample_identity f \<noteq> EMPTY_FINGERPRINTS \<and>
        client_public_key sample_identity c = Inr key)"
proof -
  obtain si out where "from_key sample_identity 7 ''srv'' 0 (Some second) = Inr si"
    "augment sample_identity si sample_answer 0 = Inr out"
    using sample_signed .
  from sample_accepted [OF this] obtain c where c: "validate_sdp sample_identity out AnyToken 0 = (AnyToken, Inr c)"
    by blast
  from accepted_description [OF c] c show ?thesis
    by blast
qed



text \<open>C24: A token can crash the check.  For a description whose token parses and has an expiry claim, validation panics,
  under either trust and before any signature is looked at, exactly when the claim plus the leeway is not below
  two to the power of 63 seconds.\<close>

theorem expiry_panics:
  assumes "identity_from_sdp X sdp = Inr i" "jws_parse X (as_token (id_assertion i)) = Inr j"
    and "json_claims X (jws_payload j) = Some m" "hm_get m ''exp'' = Some (JNumber (JUnsigned e))"
  shows "snd (validate_sdp X sdp trust now) = Inl Panics \<longleftrightarrow> 2 ^ 63 \<le> unat e + 60"
proof -
  define c where "c = \<lparr>claim_values = m\<rparr>"
  have chk: "check_expiry c now = (if 2 ^ 63 \<le> unat e + 60 then Inl Panics
     else if now \<le> int ((unat e + 60) * second) then Inr ()
     else Inl (Fails (Untrusted ''the token has expired'')))"
    by (rule check_expiry_seconds) (simp add: c_def assms(4))
  have claims: "jws_claims X j = Inr c"
    by (simp add: jws_claims_def assms(3) c_def)
  show ?thesis
  proof (cases "check_expiry c now")
    case (Inl x)
    then have "validate_sdp X sdp trust now = (trust, Inl x)"
      by (simp add: validate_sdp_def assms(1,2) trust_claims_def claims)
    with chk Inl show ?thesis
      by (auto split: if_splits)
  next
    case (Inr u)
    then have "snd (trust_claims X trust i now) \<noteq> Inl Panics"
      by (cases trust) (simp_all add: trust_claims_def assms(2) claims split: prod.splits)
    then have "snd (validate_sdp X sdp trust now) \<noteq> Inl Panics"
      by (auto simp: validate_sdp_def assms(1) res_bind_eq_Inl split: prod.splits sum.splits)
    with chk Inr show ?thesis
      by (auto split: if_splits)
  qed
qed

theorem expiry_panics_witness:
  "\<exists>sdp. snd (validate_sdp sample_identity sdp AnyToken 0) = Inl Panics"
proof -
  let ?m = "token_claims \<lparr>ec_kty = [], ec_crv = [], ec_x = [], ec_y = []\<rparr> 0 [] (Some (2 ^ 63))"
  obtain token where "jws_sign sample_identity 7 (value_to_json sample_identity (JObject ?m)) = Inr token"
    by (simp add: jws_sign_def sign_parts_def Let_def) (simp add: sample_identity_def)
  then obtain j where j: "jws_parse sample_identity token = Inr j"
    "jws_payload j = as_bytes (value_to_json sample_identity (JObject ?m))"
    by (rule jws_sign_parse [OF sample_identity_laws])
  let ?i = "\<lparr>id_idp = \<lparr>idp_domain = [], idp_protocol = []\<rparr>, id_assertion = \<lparr>as_token = token, as_fingerprints = []\<rparr>\<rparr>"
  obtain v where v: "identity_to_base64 sample_identity ?i = Inr v"
    by (simp add: identity_to_base64_def identity_to_json_def) (simp add: sample_identity_def)
  note b64 = identity_base64_back [OF sample_identity_laws v]
  have "list_all (\<lambda>c. \<not> is_crlf c) (IDENTITY_PREFIX @ v)"
    using b64(2) by (simp add: IDENTITY_PREFIX_def is_crlf_def)
  then have "sdp_text_lines (IDENTITY_PREFIX @ v) = [IDENTITY_PREFIX @ v]"
    unfolding sdp_text_lines_def by (rule split_where_single)
  then have i: "identity_from_sdp sample_identity (IDENTITY_PREFIX @ v) = Inr ?i"
    by (simp add: identity_from_sdp_def b64(1))
  have tok: "jws_parse sample_identity (as_token (id_assertion ?i)) = Inr j"
    by (simp add: j(1))
  have claims: "json_claims sample_identity (jws_payload j) = Some ?m"
    unfolding j by (rule sample_claims)
  have "hm_get ?m ''exp'' = Some (JNumber (JUnsigned (2 ^ 63)))"
    by (simp add: token_claims_def hm_get_def)
  from expiry_panics [OF i tok claims this, of AnyToken 0] show ?thesis
    by auto
qed

end
