(* ===== verification/Http_Signaler.thy ===== *)
theory Http_Signaler
  imports Sans Identity_Trust Ip_Range Candidate_Lines Server_Data Signal
begin

text \<open>
  \<open>nethernet/src/signaling/http\<close>: the HTTP signaling server, a state machine that limits connections per address, serves the
  server's status, authenticates offers and holds joins until they are answered; and the client's reading of the
  responses (\<open>join.rs\<close>).  Proved here: its invariant in every reachable state, the outcome of every request, that an
  offer is passed on only after its identity was checked, and that no join waits past its deadline.
\<close>

subsection \<open>Requests and responses\<close>

text \<open>A request of the http crate as the code reads it: \<open>req_header name\<close> is the value of \<open>headers().get(name)\<close> when
  \<open>to_str\<close> accepts it.\<close>

datatype http_version = Http10 | HttpOtherVersion

record http_request =
  req_method :: string
  req_path :: string
  req_version :: http_version
  req_header :: "string \<Rightarrow> string option"
  req_body :: string

type_synonym status_code = nat

record http_response =
  resp_status :: status_code
  resp_headers :: "(string \<times> string) list"
  resp_body :: string

definition FORWARDED_FOR :: string where "FORWARDED_FOR = ''x-forwarded-for''"

definition JOIN_PATH :: string where "JOIN_PATH = ''/v1/join''"

datatype reject_reason = Rejected | Timeout | Unavailable

fun reject_reason_from :: "signal_error_code \<Rightarrow> reject_reason" where
  "reject_reason_from NegotiationTimeout = Timeout"
| "reject_reason_from NegotiationTimeoutWaitingForAccept = Timeout"
| "reject_reason_from NegotiationTimeoutWaitingForResponse = Timeout"
| "reject_reason_from InactivityTimeout = Timeout"
| "reject_reason_from IncomingConnectionIgnored = Rejected"
| "reject_reason_from NotLoggedIn = Rejected"
| "reject_reason_from _ = Unavailable"

fun reject_status :: "reject_reason \<Rightarrow> status_code" where
  "reject_status Rejected = 403"
| "reject_status Timeout = 504"
| "reject_status Unavailable = 503"

subsection \<open>State, inputs and outputs\<close>

record 'net http_signaler_config =
  max_connections_per_address :: nat
  max_pending_joins :: nat
  answer_timeout :: duration
  trusted_proxies :: "'net ip_range_set"
  advertised_addresses :: "string list"
  hs_token_trust :: "token_trust option"
  serve_motd :: bool

definition http_config_default :: "'net http_signaler_config" where
  "http_config_default = \<lparr>
     max_connections_per_address = 16,
     max_pending_joins = 64,
     answer_timeout = 10 * second,
     trusted_proxies = ip_range_empty,
     advertised_addresses = [],
     hs_token_trust = Some AnyToken,
     serve_motd = True\<rparr>"

record http_connection =
  hc_addr :: socket_addr
  counted :: bool

record pending_join =
  pj_connection :: u64
  pj_keep_alive :: bool
  deadline :: instant

record http_offer =
  of_connection_id :: u64
  of_network_id :: string
  of_sdp :: string
  of_client_address :: "socket_addr option"
  of_host :: "string option"
  of_player :: "player_info option"

text \<open>The library errors of building a response do not arise: its headers are literals and numbers.  The last
  constructor is a panic of the handler.\<close>

datatype http_signaler_error = UnknownConnection u64 | HandlerPanics

text \<open>What a request reads from outside: the random number for a join, the wall clock and the monotonic clock.\<close>

record clock_and_random =
  random_id :: u64
  wall_now :: system_time
  instant_now :: instant

datatype http_signaler_input =
    Connected u64 socket_addr instant
  | HttpRequest u64 http_request instant clock_and_random
  | Answered u64 string
  | Reject u64 reject_reason
  | SetHttpServerData server_data
  | SetTokenTrust "token_trust option"
  | Closed u64
  | HttpUpdate instant

datatype http_signaler_output =
    OutResponse u64 http_response bool
  | OutClose u64
  | OutOffer http_offer
  | OutHttpWait duration

record 'net http_signaler =
  hs_config :: "'net http_signaler_config"
  hs_connections :: "(u64, http_connection) hash_map"
  hs_per_address :: "(ip_addr, nat) hash_map"
  hs_pending :: "(u64, pending_join) hash_map"
  hs_server_data :: "server_data option"
  hs_output :: "http_signaler_output list"

type_synonym 'net http_step = "('net http_signaler, http_signaler_error, unit) step"

definition offer_signal :: "http_offer \<Rightarrow> signal" where
  "offer_signal o' = signal_new Offer (of_connection_id o') (of_sdp o') (of_network_id o')"

definition http_signaler_new :: "'net http_signaler_config \<Rightarrow> 'net http_signaler" where
  "http_signaler_new config = \<lparr>hs_config = config, hs_connections = [], hs_per_address = [], hs_pending = [],
     hs_server_data = None, hs_output = []\<rparr>"

definition pending_joins :: "'net http_signaler \<Rightarrow> nat" where
  "pending_joins s = hm_len (hs_pending s)"

definition connection_count :: "'net http_signaler \<Rightarrow> nat" where
  "connection_count s = hm_len (hs_connections s)"

definition push_out :: "http_signaler_output \<Rightarrow> 'net http_signaler \<Rightarrow> 'net http_signaler" where
  "push_out out s = s\<lparr>hs_output := hs_output s @ [out]\<rparr>"

definition push_response :: "u64 \<Rightarrow> http_response \<Rightarrow> bool \<Rightarrow> 'net http_signaler \<Rightarrow> 'net http_signaler" where
  "push_response connection response keep s = push_out (OutResponse connection response keep) s"

definition respond :: "u64 \<Rightarrow> status_code \<Rightarrow> bool \<Rightarrow> 'net http_signaler \<Rightarrow> 'net http_step" where
  "respond connection status keep s =
     st_ok (push_response connection
       \<lparr>resp_status = status, resp_headers = [(''content-length'', ''0'')], resp_body = []\<rparr> keep s)"

definition respond_with :: "u64 \<Rightarrow> string \<Rightarrow> string \<Rightarrow> bool \<Rightarrow> 'net http_signaler \<Rightarrow> 'net http_step" where
  "respond_with connection body content_type keep s =
     st_ok (push_response connection
       \<lparr>resp_status = 200,
        resp_headers = [(''content-type'', content_type), (''content-length'', dec (length body))],
        resp_body = body\<rparr> keep s)"

section \<open>Operations\<close>

definition keep_alive :: "http_request \<Rightarrow> bool" where
  "keep_alive request =
     (let connection = (case req_header request ''connection'' of None \<Rightarrow> [] | Some v \<Rightarrow> v) in
      case req_version request of
        Http10 \<Rightarrow> eq_ignore_ascii_case connection ''keep-alive''
      | _ \<Rightarrow> \<not> eq_ignore_ascii_case connection ''close'')"

text \<open>The wall-clock time of an instant: \<open>SystemTime::now() - (Instant::now() - now)\<close>.\<close>

definition systemtime :: "clock_and_random \<Rightarrow> instant \<Rightarrow> system_time" where
  "systemtime env now = wall_now env - int (instant_now env - now)"

definition http_connected :: "'net ipnet_ops \<Rightarrow> u64 \<Rightarrow> socket_addr \<Rightarrow> 'net http_signaler \<Rightarrow> 'net http_signaler" where
  "http_connected N connection addr s =
     (let peer = normalize (sock_ip addr) in
      if ip_range_contains N (trusted_proxies (hs_config s)) peer then
        s\<lparr>hs_connections := hm_insert connection \<lparr>hc_addr = addr, counted = False\<rparr> (hs_connections s)\<rparr>
      else
        let held = (case hm_get (hs_per_address s) peer of None \<Rightarrow> 0 | Some n \<Rightarrow> n) + 1 in
        if held > max_connections_per_address (hs_config s) then
          push_out (OutClose connection) (s\<lparr>hs_per_address := hm_insert peer (held - 1) (hs_per_address s)\<rparr>)
        else
          s\<lparr>hs_per_address := hm_insert peer held (hs_per_address s),
            hs_connections := hm_insert connection \<lparr>hc_addr = addr, counted = True\<rparr> (hs_connections s)\<rparr>)"

definition release_address :: "ip_addr \<Rightarrow> (ip_addr, nat) hash_map \<Rightarrow> (ip_addr, nat) hash_map" where
  "release_address peer m =
     (case hm_get m peer of
        None \<Rightarrow> m
      | Some held \<Rightarrow> if held - 1 = 0 then hm_remove peer m else hm_insert peer (held - 1) m)"

definition http_closed :: "u64 \<Rightarrow> 'net http_signaler \<Rightarrow> 'net http_signaler" where
  "http_closed connection s =
     (case hm_get (hs_connections s) connection of
        None \<Rightarrow> s
      | Some entry \<Rightarrow>
          s\<lparr>hs_connections := hm_remove connection (hs_connections s),
            hs_per_address := (if counted entry then release_address (normalize (sock_ip (hc_addr entry))) (hs_per_address s)
              else hs_per_address s),
            hs_pending := hm_retain (\<lambda>_ p. pj_connection p \<noteq> connection) (hs_pending s)\<rparr>)"

definition http_status :: "u64 \<Rightarrow> http_request \<Rightarrow> bool \<Rightarrow> 'net http_signaler \<Rightarrow> 'net http_step" where
  "http_status connection request keep s =
     (if req_method request \<noteq> ''GET'' then respond connection 405 keep s
      else case hs_server_data s of
        Some data \<Rightarrow>
          if serve_motd (hs_config s) then respond_with connection (server_data_to_json data) ''application/json'' keep s
          else respond connection 404 keep s
      | None \<Rightarrow> respond connection 404 keep s)"

definition unbracket :: "string \<Rightarrow> string" where
  "unbracket first =
     (let first = (case strip_prefix ''['' first of None \<Rightarrow> first | Some r \<Rightarrow> r)
      in case strip_suffix '']'' first of None \<Rightarrow> first | Some r \<Rightarrow> r)"

definition client_address :: "'net ipnet_ops \<Rightarrow> 'net http_signaler \<Rightarrow> u64 \<Rightarrow> http_request \<Rightarrow> socket_addr option" where
  "client_address N s connection request =
     (case hm_get (hs_connections s) connection of
        None \<Rightarrow> None
      | Some entry \<Rightarrow>
          (let remote = hc_addr entry in
           if \<not> ip_range_contains N (trusted_proxies (hs_config s)) (normalize (sock_ip remote)) then Some remote
           else opt_bind (req_header request FORWARDED_FOR) (\<lambda>forwarded.
             map_option (\<lambda>ip. \<lparr>sock_ip = ip, sock_port = sock_port remote\<rparr>)
               (endpoint_parse (unbracket (trim (hd (split_on CHR '','' forwarded))))))))"


definition register_join ::
  "u64 \<Rightarrow> string \<Rightarrow> http_request \<Rightarrow> bool \<Rightarrow> instant \<Rightarrow> u64 \<Rightarrow> socket_addr option \<Rightarrow> player_info option \<Rightarrow>
     'net http_signaler \<Rightarrow> 'net http_signaler" where
  "register_join connection nid request keep now cid addr player s =
     push_out (OutOffer \<lparr>of_connection_id = cid, of_network_id = nid, of_sdp = req_body request,
         of_client_address = addr, of_host = req_header request ''host'', of_player = player\<rparr>)
       (s\<lparr>hs_pending := hm_insert cid
          \<lparr>pj_connection = connection, pj_keep_alive = keep, deadline = now + answer_timeout (hs_config s)\<rparr>
          (hs_pending s)\<rparr>)"

definition join ::
  "('sk, 'vk, 'sig, 'rsa) identity_ops \<Rightarrow> 'net ipnet_ops \<Rightarrow> u64 \<Rightarrow> string \<Rightarrow> http_request \<Rightarrow> bool \<Rightarrow> instant \<Rightarrow>
     clock_and_random \<Rightarrow> 'net http_signaler \<Rightarrow> 'net http_step" where
  "join X N connection nid request keep now env s =
     (if hm_len (hs_pending s) \<ge> max_pending_joins (hs_config s) then respond connection 503 keep s
      else let addr = client_address N s connection request in
        case hs_token_trust (hs_config s) of
          None \<Rightarrow> st_ok (register_join connection nid request keep now (random_id env) addr None s)
        | Some trust \<Rightarrow>
            (case validate_sdp X (req_body request) trust (systemtime env now) of
               (trust', verdict) \<Rightarrow>
                 let s1 = s\<lparr>hs_config := (hs_config s)\<lparr>hs_token_trust := Some trust'\<rparr>\<rparr> in
                 (case verdict of
                    Inr claims \<Rightarrow> st_ok (register_join connection nid request keep now (random_id env) addr
                      (Some (player_info_new claims nid addr)) s1)
                  | Inl (Fails e) \<Rightarrow> respond connection 401 keep s1
                  | Inl Panics \<Rightarrow> (s1, Inl HandlerPanics))))"

definition answer :: "u64 \<Rightarrow> string \<Rightarrow> 'net http_signaler \<Rightarrow> 'net http_step" where
  "answer cid sdp s =
     (case hm_get (hs_pending s) cid of
        None \<Rightarrow> (s, Inl (UnknownConnection cid))
      | Some p \<Rightarrow>
          respond_with (pj_connection p) (with_advertised_candidates sdp (advertised_addresses (hs_config s)))
            ''application/sdp'' (pj_keep_alive p) (s\<lparr>hs_pending := hm_remove cid (hs_pending s)\<rparr>))"

definition reject :: "u64 \<Rightarrow> reject_reason \<Rightarrow> 'net http_signaler \<Rightarrow> 'net http_step" where
  "reject cid reason s =
     (case hm_get (hs_pending s) cid of
        None \<Rightarrow> (s, Inl (UnknownConnection cid))
      | Some p \<Rightarrow>
          respond (pj_connection p) (reject_status reason) (pj_keep_alive p)
            (s\<lparr>hs_pending := hm_remove cid (hs_pending s)\<rparr>))"

fun reject_all :: "u64 list \<Rightarrow> 'net http_signaler \<Rightarrow> 'net http_step" where
  "reject_all [] s = st_ok s"
| "reject_all (c # cs) s = st_bind (reject c Timeout s) (\<lambda>_ s1. reject_all cs s1)"

definition expired_joins :: "instant \<Rightarrow> 'net http_signaler \<Rightarrow> u64 list" where
  "expired_joins now s = map fst (filter (\<lambda>(_, p). deadline p \<le> now) (hs_pending s))"

definition next_deadline :: "instant \<Rightarrow> 'net http_signaler \<Rightarrow> duration" where
  "next_deadline now s =
     (case map (\<lambda>(_, p). deadline p - now) (hs_pending s) of
        [] \<Rightarrow> answer_timeout (hs_config s)
      | w # ws \<Rightarrow> foldl min w ws)"

definition http_update :: "instant \<Rightarrow> 'net http_signaler \<Rightarrow> 'net http_step" where
  "http_update now s =
     st_bind (reject_all (expired_joins now s) s) (\<lambda>_ s1.
       st_ok (push_out (OutHttpWait (next_deadline now s1)) s1))"

definition JOIN_PREFIX :: string where "JOIN_PREFIX = ''/v1/join/''"

definition path_network_id :: "string \<Rightarrow> string option" where
  "path_network_id path =
     opt_bind (strip_prefix JOIN_PREFIX path) (\<lambda>nid. if nid \<noteq> [] \<and> CHR ''/'' \<notin> set nid then Some nid else None)"

definition handle_request ::
  "('sk, 'vk, 'sig, 'rsa) identity_ops \<Rightarrow> 'net ipnet_ops \<Rightarrow> u64 \<Rightarrow> http_request \<Rightarrow> instant \<Rightarrow> clock_and_random \<Rightarrow>
     'net http_signaler \<Rightarrow> 'net http_step" where
  "handle_request X N connection request now env s =
     (let keep = keep_alive request; path = req_path request in
      if path = JOIN_PATH then http_status connection request keep s
      else case path_network_id path of
        None \<Rightarrow> respond connection 404 keep s
      | Some nid \<Rightarrow>
          if req_method request \<noteq> ''POST'' then respond connection 405 keep s
          else join X N connection nid request keep now env s)"

fun http_handle ::
  "('sk, 'vk, 'sig, 'rsa) identity_ops \<Rightarrow> 'net ipnet_ops \<Rightarrow> 'net http_signaler \<Rightarrow> http_signaler_input \<Rightarrow> 'net http_step" where
  "http_handle X N s (Connected connection addr _) = st_ok (http_connected N connection addr s)"
| "http_handle X N s (HttpRequest connection request now env) = handle_request X N connection request now env s"
| "http_handle X N s (Answered cid sdp) = answer cid sdp s"
| "http_handle X N s (Reject cid reason) = reject cid reason s"
| "http_handle X N s (SetHttpServerData data) = st_ok (s\<lparr>hs_server_data := Some data\<rparr>)"
| "http_handle X N s (SetTokenTrust trust) = st_ok (s\<lparr>hs_config := (hs_config s)\<lparr>hs_token_trust := trust\<rparr>\<rparr>)"
| "http_handle X N s (Closed connection) = st_ok (http_closed connection s)"
| "http_handle X N s (HttpUpdate now) = http_update now s"

definition http_poll :: "'net http_signaler \<Rightarrow> (http_signaler_output \<times> 'net http_signaler) option" where
  "http_poll = pop_front hs_output (\<lambda>q s. s\<lparr>hs_output := q\<rparr>)"

section \<open>The client's side\<close>

definition SDP_CONTENT_TYPE :: string where "SDP_CONTENT_TYPE = ''application/sdp''"

definition MAX_ANSWER_SIZE :: nat where "MAX_ANSWER_SIZE = 2 ^ 20"

definition join_path :: "string \<Rightarrow> string" where
  "join_path nid = JOIN_PATH @ ''/'' @ nid"

datatype join_response_error =
    JoinStatus u16
  | JoinEmpty
  | BodySizeExceeded nat
  | JoinRejected signal_error_code

datatype status_response_error =
    StatusCode u16
  | StatusMalformed protocol_error

definition validate_status_response ::
  "(string \<Rightarrow> json_status option) \<Rightarrow> u16 \<Rightarrow> bytes \<Rightarrow> (status_response_error, server_data) result" where
  "validate_status_response serde_status code body =
     (if \<not> (200 \<le> code \<and> code < 300) then Inl (StatusCode code)
      else map_err StatusMalformed (server_data_from_json serde_status (from_utf8_lossy body)))"

definition validate_join_response :: "u16 \<Rightarrow> string \<Rightarrow> (join_response_error, unit) result" where
  "validate_join_response code body =
     (if \<not> (200 \<le> code \<and> code < 300) then Inl (JoinStatus code)
      else if body = [] then Inl JoinEmpty
      else if length body > MAX_ANSWER_SIZE then Inl (BodySizeExceeded (length body))
      else case parse_u32 (trim body) of
        Some n \<Rightarrow> Inl (JoinRejected (code_from_u32 n))
      | None \<Rightarrow> Inr ())"


section \<open>Lemmas\<close>

subsection \<open>Counting the entries of a table\<close>

definition hm_count :: "('v \<Rightarrow> bool) \<Rightarrow> ('k, 'v) hash_map \<Rightarrow> nat" where
  "hm_count P m = length (filter (\<lambda>kv. P (snd kv)) m)"

lemma hm_count_Nil [simp]: "hm_count P [] = 0"
  by (simp add: hm_count_def)

lemma hm_count_insert_new: "hm_get m k = None \<Longrightarrow> hm_count P (hm_insert k v m) = hm_count P m + (if P v then 1 else 0)"
  by (simp add: hm_insert_new hm_count_def)

lemma hm_count_remove:
  assumes "hm_wf m" "hm_get m k = Some v"
  shows "hm_count P m = hm_count P (hm_remove k m) + (if P v then 1 else 0)"
  using assms
proof (induction m)
  case (Cons x m)
  show ?case
  proof (cases "fst x = k")
    case True
    with Cons.prems(1) have "hm_get m k = None"
      by (auto simp: hm_wf_def hm_get_def map_of_eq_None_iff)
    then have "hm_remove k m = m"
      unfolding hm_get_def hm_remove_def by (simp add: delete_id map_of_eq_None_iff)
    with True Cons.prems(2) show ?thesis
      by (cases x) (auto simp: hm_count_def hm_get_def hm_remove_def)
  next
    case False
    with Cons show ?thesis
      by (cases x) (auto simp: hm_count_def hm_get_def hm_remove_def hm_wf_def)
  qed
qed (simp add: hm_get_def)

lemma hm_count_insert_le:
  assumes "hm_wf m"
  shows "hm_count P (hm_insert k v m) \<le> hm_count P m + (if P v then 1 else 0)"
proof (cases "hm_get m k")
  case (Some w)
  have "hm_count P (hm_insert k v m) = hm_count P (hm_remove k (hm_insert k v m)) + (if P v then 1 else 0)"
    using assms by (intro hm_count_remove) (simp_all add: hm_simps)
  moreover have "hm_remove k (hm_insert k v m) = hm_remove k m"
    unfolding hm_remove_def hm_insert_def by (induction m) auto
  moreover have "hm_count P m = hm_count P (hm_remove k m) + (if P w then 1 else 0)"
    using assms Some by (rule hm_count_remove)
  ultimately show ?thesis
    by simp
qed (simp add: hm_count_insert_new)

subsection \<open>Invariants\<close>

definition addr_count :: "'net http_signaler \<Rightarrow> ip_addr \<Rightarrow> nat" where
  "addr_count s ip = (case hm_get (hs_per_address s) ip of None \<Rightarrow> 0 | Some n \<Rightarrow> n)"

text \<open>The connections held for an address: those that are counted, from that address.\<close>

definition held_count :: "'net http_signaler \<Rightarrow> ip_addr \<Rightarrow> nat" where
  "held_count s ip = hm_count (\<lambda>c. counted c \<and> normalize (sock_ip (hc_addr c)) = ip) (hs_connections s)"

definition http_inv :: "'net ipnet_ops \<Rightarrow> 'net http_signaler \<Rightarrow> bool" where
  "http_inv N s \<longleftrightarrow>
     hm_wf (hs_connections s) \<and> hm_wf (hs_per_address s) \<and> hm_wf (hs_pending s) \<and>
     (\<forall>ip. held_count s ip \<le> addr_count s ip \<and> addr_count s ip \<le> max_connections_per_address (hs_config s)) \<and>
     hm_len (hs_pending s) \<le> max_pending_joins (hs_config s) \<and>
     (\<forall>c entry. hm_get (hs_connections s) c = Some entry \<longrightarrow>
        (counted entry \<longleftrightarrow> \<not> ip_range_contains N (trusted_proxies (hs_config s)) (normalize (sock_ip (hc_addr entry)))))"

lemma push_out_simps [simp]:
  "hs_config (push_out out s) = hs_config s" "hs_connections (push_out out s) = hs_connections s"
  "hs_per_address (push_out out s) = hs_per_address s" "hs_pending (push_out out s) = hs_pending s"
  "hs_server_data (push_out out s) = hs_server_data s" "hs_output (push_out out s) = hs_output s @ [out]"
  by (simp_all add: push_out_def)

lemma count_push [simp]: "addr_count (push_out out s) ip = addr_count s ip" "held_count (push_out out s) ip = held_count s ip"
  by (simp_all add: addr_count_def held_count_def)

lemma http_inv_push [simp]: "http_inv N (push_out out s) = http_inv N s"
  by (simp add: http_inv_def)

lemma respond_state: "fst (respond c st k s) = push_out (OutResponse c
    \<lparr>resp_status = st, resp_headers = [(''content-length'', ''0'')], resp_body = []\<rparr> k) s" "snd (respond c st k s) = Inr ()"
  by (simp_all add: respond_def push_response_def)

lemma respond_with_state: "\<exists>r. fst (respond_with c b t k s) = push_out (OutResponse c r k) s \<and> resp_status r = 200 \<and>
    resp_body r = b" "snd (respond_with c b t k s) = Inr ()"
  by (auto simp: respond_with_def push_response_def)

lemma http_inv_pending_remove: "http_inv N s \<Longrightarrow> http_inv N (s\<lparr>hs_pending := hm_remove c (hs_pending s)\<rparr>)"
  using hm_len_remove_le [of c "hs_pending s"] by (auto simp: http_inv_def addr_count_def held_count_def)

lemma http_inv_pending_retain: "http_inv N s \<Longrightarrow> http_inv N (s\<lparr>hs_pending := hm_retain P (hs_pending s)\<rparr>)"
  using hm_len_retain_le [of P "hs_pending s"] by (auto simp: http_inv_def addr_count_def held_count_def)

lemma http_inv_pending_insert:
  "http_inv N s \<Longrightarrow> hm_len (hs_pending s) < max_pending_joins (hs_config s) \<Longrightarrow>
   http_inv N (s\<lparr>hs_pending := hm_insert c p (hs_pending s)\<rparr>)"
  using hm.len_ins_le [of "hs_pending s" c p] by (auto simp: http_inv_def addr_count_def held_count_def)

lemma http_inv_trust: "http_inv N (s\<lparr>hs_config := (hs_config s)\<lparr>hs_token_trust := t\<rparr>\<rparr>) = http_inv N s"
  by (simp add: http_inv_def addr_count_def held_count_def)

lemma http_connected_inv: "http_inv N s \<Longrightarrow> http_inv N (http_connected N c addr s)"
proof -
  assume inv: "http_inv N s"
  let ?ip = "normalize (sock_ip addr)"
  have held: "held_count (s\<lparr>hs_connections := hm_insert c entry (hs_connections s)\<rparr>) ip \<le>
      held_count s ip + (if counted entry \<and> normalize (sock_ip (hc_addr entry)) = ip then 1 else 0)" for entry ip
    using hm_count_insert_le [of "hs_connections s" "\<lambda>c. counted c \<and> normalize (sock_ip (hc_addr c)) = ip" c entry] inv
    by (simp add: held_count_def http_inv_def)
  consider (proxy) "ip_range_contains N (trusted_proxies (hs_config s)) ?ip"
    | (full) "\<not> ip_range_contains N (trusted_proxies (hs_config s)) ?ip"
        "addr_count s ?ip + 1 > max_connections_per_address (hs_config s)"
    | (room) "\<not> ip_range_contains N (trusted_proxies (hs_config s)) ?ip"
        "addr_count s ?ip + 1 \<le> max_connections_per_address (hs_config s)"
    by linarith
  then show ?thesis
  proof cases
    case proxy
    with inv held [of "\<lparr>hc_addr = addr, counted = False\<rparr>"] show ?thesis
      by (auto simp: http_connected_def http_inv_def addr_count_def hm_simps Let_def intro: order_trans)
  next
    case full
    then have "http_connected N c addr s =
        push_out (OutClose c) (s\<lparr>hs_per_address := hm_insert ?ip (addr_count s ?ip) (hs_per_address s)\<rparr>)"
      by (simp add: http_connected_def addr_count_def Let_def)
    moreover have "addr_count (s\<lparr>hs_per_address := hm_insert ?ip (addr_count s ?ip) (hs_per_address s)\<rparr>) ip =
        addr_count s ip" for ip
      by (simp add: addr_count_def hm_simps)
    ultimately show ?thesis
      using inv by (simp add: http_inv_def held_count_def)
  next
    case room
    let ?s = "s\<lparr>hs_per_address := hm_insert ?ip (addr_count s ?ip + 1) (hs_per_address s),
        hs_connections := hm_insert c \<lparr>hc_addr = addr, counted = True\<rparr> (hs_connections s)\<rparr>"
    from room have "http_connected N c addr s = ?s"
      by (simp add: http_connected_def addr_count_def Let_def)
    moreover have count: "addr_count ?s ip = addr_count s ip + (if ip = ?ip then 1 else 0)" for ip
      by (simp add: addr_count_def hm_simps)
    moreover have "held_count ?s ip \<le> addr_count ?s ip" for ip
      using held [of "\<lparr>hc_addr = addr, counted = True\<rparr>" ip] inv unfolding count
      by (auto simp: held_count_def http_inv_def intro: order_trans split: if_splits)
    ultimately show ?thesis
      using inv room by (auto simp: http_inv_def hm_simps)
  qed
qed


lemma release_address_get:
  "hm_wf m \<Longrightarrow> hm_get (release_address peer m) ip =
     (if ip = peer then (case hm_get m peer of None \<Rightarrow> None | Some n \<Rightarrow> if n - 1 = 0 then None else Some (n - 1)) else hm_get m ip)"
  by (simp add: release_address_def hm_simps split: option.splits)

lemma release_address_wf [simp]: "hm_wf m \<Longrightarrow> hm_wf (release_address peer m)"
  by (simp add: release_address_def split: option.splits)

lemma http_closed_counts:
  assumes "hm_wf (hs_connections s)" "hm_wf (hs_per_address s)" "hm_get (hs_connections s) c = Some entry"
  defines "own ip \<equiv> if counted entry \<and> normalize (sock_ip (hc_addr entry)) = ip then 1 else 0"
  shows "held_count (http_closed c s) ip = held_count s ip - own ip"
    and "addr_count (http_closed c s) ip = addr_count s ip - own ip"
  using hm_count_remove [OF assms(1,3), of "\<lambda>c. counted c \<and> normalize (sock_ip (hc_addr c)) = ip"] assms(2,3)
  by (auto simp: own_def held_count_def addr_count_def http_closed_def release_address_get split: option.splits)

lemma http_closed_inv:
  assumes "http_inv N s"
  shows "http_inv N (http_closed c s)"
proof (cases "hm_get (hs_connections s) c")
  case None
  with assms show ?thesis
    by (simp add: http_closed_def)
next
  case (Some entry)
  have wf: "hm_wf (hs_connections s)" "hm_wf (hs_per_address s)" "hm_wf (hs_pending s)"
    using assms by (simp_all add: http_inv_def)
  have "held_count (http_closed c s) ip \<le> addr_count (http_closed c s) ip \<and>
      addr_count (http_closed c s) ip \<le> max_connections_per_address (hs_config s)" for ip
  proof -
    have "held_count s ip \<le> addr_count s ip" "addr_count s ip \<le> max_connections_per_address (hs_config s)"
      using assms by (simp_all add: http_inv_def)
    then show ?thesis
      unfolding http_closed_counts [OF wf(1,2) Some] by (auto intro: diff_le_mono)
  qed
  moreover have "hm_len (hm_retain (\<lambda>_ p. pj_connection p \<noteq> c) (hs_pending s)) \<le> max_pending_joins (hs_config s)"
    using assms order_trans [OF hm_len_retain_le] by (auto simp: http_inv_def)
  ultimately show ?thesis
    using assms wf Some by (auto simp: http_inv_def http_closed_def hm_simps)
qed

lemma http_status_inv: "http_inv N s \<Longrightarrow> http_inv N (fst (http_status c r k s))"
proof -
  assume inv: "http_inv N s"
  have "http_inv N (fst (respond_with c b t k s))" for b t
    using inv respond_with_state(1) [of c b t k s] by auto
  with inv show ?thesis
    by (auto simp: http_status_def respond_state split: option.splits)
qed

lemma answer_inv: "http_inv N s \<Longrightarrow> http_inv N (fst (answer c sdp s))"
  using http_inv_pending_remove [of N s c]
  by (auto simp: answer_def respond_with_def push_response_def split: option.splits)

lemma reject_inv: "http_inv N s \<Longrightarrow> http_inv N (fst (reject c reason s))"
  using http_inv_pending_remove [of N s c] by (auto simp: reject_def respond_state split: option.splits)

lemma reject_all_inv: "http_inv N s \<Longrightarrow> http_inv N (fst (reject_all cs s))"
proof (induction cs arbitrary: s)
  case (Cons c cs)
  then show ?case
    unfolding reject_all.simps by (intro st_bind_fst [where P = "http_inv N"] reject_inv) auto
qed simp

lemma register_join_inv:
  "http_inv N s \<Longrightarrow> hm_len (hs_pending s) < max_pending_joins (hs_config s) \<Longrightarrow>
   http_inv N (register_join c nid r k now cid addr player s)"
  by (simp add: register_join_def http_inv_pending_insert)

lemma join_inv: "http_inv N s \<Longrightarrow> http_inv N (fst (join X N c nid r k now env s))"
proof -
  assume inv: "http_inv N s"
  have "http_inv N (register_join c nid r k now cid addr player (s\<lparr>hs_config := (hs_config s)\<lparr>hs_token_trust := t\<rparr>\<rparr>))"
    if "hm_len (hs_pending s) < max_pending_joins (hs_config s)" for cid addr player t
    using that inv by (intro register_join_inv) (simp_all add: http_inv_trust)
  with inv show ?thesis
    by (auto simp: join_def respond_state http_inv_trust register_join_inv Let_def
        split: option.splits prod.splits sum.splits identity_failure.splits)
qed

lemma handle_request_inv: "http_inv N s \<Longrightarrow> http_inv N (fst (handle_request X N c r now env s))"
  by (simp add: handle_request_def http_status_inv join_inv respond_state Let_def split: option.splits)

lemma http_update_inv: "http_inv N s \<Longrightarrow> http_inv N (fst (http_update now s))"
  unfolding http_update_def by (intro st_bind_fst [where P = "http_inv N"] reject_all_inv) simp_all

lemma http_handle_inv: "http_inv N s \<Longrightarrow> http_inv N (fst (http_handle X N s i))"
  by (cases i)
    (simp_all add: http_connected_inv http_closed_inv handle_request_inv answer_inv reject_inv http_update_inv http_inv_trust,
      simp add: http_inv_def held_count_def addr_count_def)

lemma http_inv_new: "http_inv N (http_signaler_new config)"
  by (simp add: http_inv_def http_signaler_new_def held_count_def addr_count_def)


subsection \<open>Outputs\<close>

definition timeout_response :: "pending_join \<Rightarrow> http_signaler_output" where
  "timeout_response p = OutResponse (pj_connection p)
     \<lparr>resp_status = 504, resp_headers = [(''content-length'', ''0'')], resp_body = []\<rparr> (pj_keep_alive p)"

text \<open>Rejecting distinct pending joins removes each and answers each, in order.\<close>

lemma reject_all_state:
  assumes "hm_wf (hs_pending s)" "distinct cs" "\<forall>c \<in> set cs. hm_get (hs_pending s) c \<noteq> None"
  shows "reject_all cs s =
    (s\<lparr>hs_pending := hm_retain (\<lambda>k _. k \<notin> set cs) (hs_pending s),
       hs_output := hs_output s @ map (\<lambda>c. timeout_response (the (hm_get (hs_pending s) c))) cs\<rparr>, Inr ())"
  using assms
proof (induction cs arbitrary: s)
  case Nil
  then show ?case
    by (simp add: st_ok_def hm_retain_def case_prod_unfold)
next
  case (Cons c cs)
  then obtain p where p: "hm_get (hs_pending s) c = Some p"
    by auto
  let ?s = "s\<lparr>hs_pending := hm_remove c (hs_pending s), hs_output := hs_output s @ [timeout_response p]\<rparr>"
  have "reject c Timeout s = (?s, Inr ())"
    by (simp add: reject_def p respond_def push_response_def push_out_def st_ok_def timeout_response_def)
  then have "reject_all (c # cs) s = reject_all cs ?s"
    by simp
  also have "\<dots> = (?s\<lparr>hs_pending := hm_retain (\<lambda>k _. k \<notin> set cs) (hs_pending ?s),
       hs_output := hs_output ?s @ map (\<lambda>c. timeout_response (the (hm_get (hs_pending ?s) c))) cs\<rparr>, Inr ())"
    using Cons.prems by (intro Cons.IH) (auto simp: hm_simps)
  also have "map (\<lambda>c. timeout_response (the (hm_get (hs_pending ?s) c))) cs =
      map (\<lambda>c. timeout_response (the (hm_get (hs_pending s) c))) cs"
    using Cons.prems(2) by (auto simp: hm_simps)
  finally show ?case
    by (simp add: p hm_remove_retain hm_retain_retain)
qed

lemma http_update_state:
  fixes now :: instant
  assumes "hm_wf (hs_pending s)"
  defines "s1 \<equiv> s\<lparr>hs_pending := hm_retain (\<lambda>_ p. now < deadline p) (hs_pending s),
      hs_output := hs_output s @ map (\<lambda>c. timeout_response (the (hm_get (hs_pending s) c))) (expired_joins now s)\<rparr>"
  shows "http_update now s = (push_out (OutHttpWait (next_deadline now s1)) s1, Inr ())"
proof -
  have "distinct (expired_joins now s)"
    using assms(1) by (simp add: expired_joins_def hm_wf_def distinct_map_filter)
  moreover have mem: "c \<in> set (expired_joins now s) \<longleftrightarrow> (\<exists>p. hm_get (hs_pending s) c = Some p \<and> deadline p \<le> now)" for c
    using hm_get_mem [OF assms(1), of c] by (force simp: expired_joins_def)
  then have "\<forall>c \<in> set (expired_joins now s). hm_get (hs_pending s) c \<noteq> None"
    by auto
  moreover have "hm_retain (\<lambda>k _. k \<notin> set (expired_joins now s)) (hs_pending s) =
      hm_retain (\<lambda>_ p. now < deadline p) (hs_pending s)"
    unfolding hm_retain_def
    by (rule filter_cong) (auto simp: mem hm_get_mem [OF assms(1)] not_le split: prod.splits)
  ultimately have "reject_all (expired_joins now s) s = (s1, Inr ())"
    using reject_all_state [OF assms(1)] by (simp add: s1_def)
  then show ?thesis
    by (simp add: http_update_def st_ok_def)
qed

lemma reject_all_output: "\<exists>new. hs_output (fst (reject_all cs s)) = hs_output s @ new"
proof (induction cs arbitrary: s)
  case (Cons c cs)
  obtain s1 r where step: "reject c Timeout s = (s1, r)"
    by fastforce
  then have "\<exists>new. hs_output s1 = hs_output s @ new"
    by (auto simp: reject_def respond_def push_response_def st_ok_def split: option.splits)
  with Cons [of s1] step show ?case
    by (cases r) auto
qed simp

lemma http_handle_output: "\<exists>new. hs_output (fst (http_handle X N s i)) = hs_output s @ new"
proof (cases i)
  case (HttpUpdate now)
  obtain s1 r where "reject_all (expired_joins now s) s = (s1, r)"
    by fastforce
  with reject_all_output [of "expired_joins now s" s] show ?thesis
    by (cases r) (auto simp: HttpUpdate http_update_def)
qed (auto simp: http_connected_def http_closed_def handle_request_def http_status_def join_def register_join_def answer_def
    reject_def respond_def respond_with_def push_response_def Let_def
    split: option.splits prod.splits sum.splits identity_failure.splits)

lemma http_poll_Some:
  "http_poll s = Some (out, s') \<longleftrightarrow> (\<exists>rest. hs_output s = out # rest \<and> s' = s\<lparr>hs_output := rest\<rparr>)"
  by (simp add: http_poll_def pop_front_Some)

interpretation web: sans_machine "http_handle X N" http_poll hs_output "http_inv N"
  for X :: "('sk, 'vk, 'sig, 'rsa) identity_ops" and N :: "'net ipnet_ops"
proof unfold_locales
  show "http_poll s = None \<longleftrightarrow> hs_output s = []" for s :: "'net http_signaler"
    by (simp add: http_poll_def)
  show "http_inv N s \<Longrightarrow> http_poll s = Some (out, s') \<Longrightarrow> http_inv N s'" for s out s'
    by (auto simp: http_poll_Some http_inv_def held_count_def addr_count_def)
qed (auto simp: http_poll_Some http_handle_inv http_handle_output)

lemma http_feed_inv: "http_inv N (feed (http_handle X N) (http_signaler_new config) inputs)"
  by (intro web.feed_inv http_inv_new)


subsection \<open>Reachable states\<close>

text \<open>Runs in which the driver does not reuse the id of a connection it still holds.\<close>

fun admissible :: "'net http_signaler \<Rightarrow> http_signaler_input \<Rightarrow> bool" where
  "admissible s (Connected c _ _) \<longleftrightarrow> hm_get (hs_connections s) c = None"
| "admissible s _ \<longleftrightarrow> True"

inductive http_reachable ::
  "('sk, 'vk, 'sig, 'rsa) identity_ops \<Rightarrow> 'net ipnet_ops \<Rightarrow> 'net http_signaler_config \<Rightarrow> 'net http_signaler \<Rightarrow> bool"
  for X N config where
  start: "http_reachable X N config (http_signaler_new config)"
| handle: "http_reachable X N config s \<Longrightarrow> admissible s i \<Longrightarrow> http_reachable X N config (fst (http_handle X N s i))"
| poll: "http_reachable X N config s \<Longrightarrow> http_poll s = Some (out, s') \<Longrightarrow> http_reachable X N config s'"

lemma http_reachable_inv: "http_reachable X N config s \<Longrightarrow> http_inv N s"
  by (induction rule: http_reachable.induct) (auto intro: http_inv_new http_handle_inv web.poll_inv)

text \<open>Requests, answers, rejections and updates leave the connections alone.\<close>

lemma reject_all_connections:
  "hs_connections (fst (reject_all cs s)) = hs_connections s \<and> hs_per_address (fst (reject_all cs s)) = hs_per_address s"
proof (induction cs arbitrary: s)
  case (Cons c cs)
  obtain s1 r where step: "reject c Timeout s = (s1, r)"
    by fastforce
  then have "hs_connections s1 = hs_connections s" "hs_per_address s1 = hs_per_address s"
    by (auto simp: reject_def respond_def push_response_def st_ok_def split: option.splits)
  with Cons [of s1] step show ?case
    by (cases r) auto
qed simp

lemma http_handle_connections:
  assumes "\<And>c a t. i \<noteq> Connected c a t" "\<And>c. i \<noteq> Closed c"
  shows "hs_connections (fst (http_handle X N s i)) = hs_connections s \<and>
    hs_per_address (fst (http_handle X N s i)) = hs_per_address s"
proof (cases i)
  case (HttpUpdate now)
  obtain s1 r where "reject_all (expired_joins now s) s = (s1, r)"
    by fastforce
  with reject_all_connections [of "expired_joins now s" s] show ?thesis
    by (cases r) (auto simp: HttpUpdate http_update_def)
qed (use assms in \<open>auto simp: handle_request_def http_status_def join_def register_join_def answer_def reject_def
    respond_def respond_with_def push_response_def Let_def
    split: option.splits prod.splits sum.splits identity_failure.splits\<close>)

lemma http_counts_step:
  assumes "http_inv N s" "\<forall>ip. addr_count s ip = held_count s ip" "admissible s i"
  shows "addr_count (fst (http_handle X N s i)) ip = held_count (fst (http_handle X N s i)) ip"
proof -
  have wf: "hm_wf (hs_connections s)" "hm_wf (hs_per_address s)"
    using assms(1) by (simp_all add: http_inv_def)
  show ?thesis
  proof (cases i)
    case (Connected c addr t)
    with assms(3) have new: "hm_get (hs_connections s) c = None"
      by simp
    have "held_count (s\<lparr>hs_connections := hm_insert c entry (hs_connections s)\<rparr>) ip =
        held_count s ip + (if counted entry \<and> normalize (sock_ip (hc_addr entry)) = ip then 1 else 0)" for entry
      using new by (simp add: held_count_def hm_count_insert_new)
    with assms(2) show ?thesis
      by (auto simp: Connected http_connected_def addr_count_def held_count_def hm_simps Let_def split: option.splits)
  next
    case (Closed c)
    show ?thesis
    proof (cases "hm_get (hs_connections s) c")
      case None
      with assms(2) show ?thesis
        by (simp add: Closed http_closed_def)
    next
      case (Some entry)
      with assms(2) show ?thesis
        by (simp add: Closed http_closed_counts [OF wf])
    qed
  qed (use assms(2) http_handle_connections [of i X N s] in \<open>simp_all add: addr_count_def held_count_def\<close>)
qed

lemma http_reachable_counts: "http_reachable X N config s \<Longrightarrow> addr_count s ip = held_count s ip"
proof (induction arbitrary: ip rule: http_reachable.induct)
  case start
  show ?case
    by (simp add: addr_count_def held_count_def http_signaler_new_def)
next
  case (handle s i)
  then show ?case
    using http_counts_step http_reachable_inv by blast
next
  case (poll s out s')
  then show ?case
    by (auto simp: http_poll_Some addr_count_def held_count_def)
qed

section \<open>Properties\<close>

text \<open>C11: Limits hold whatever arrives.  After any sequence of inputs, refused or not, each table holds a key once, no
  address has more than \<open>max_connections_per_address\<close> counted connections, exactly the connections of peers that are not
  trusted proxies are counted, and at most \<open>max_pending_joins\<close> joins wait.  Draining returns every output in
  order.\<close>

theorem http_limits:
  "let s = feed (http_handle X N) (http_signaler_new config) inputs in
   http_inv N s \<and> held_count s ip \<le> max_connections_per_address (hs_config s) \<and>
   (\<exists>s'. drain http_poll (length (hs_output s)) s = (hs_output s, s') \<and> hs_output s' = [] \<and> http_inv N s')"
proof -
  let ?s = "feed (http_handle X N) (http_signaler_new config) inputs"
  have inv: "http_inv N ?s"
    by (rule http_feed_inv)
  then have "held_count ?s ip \<le> max_connections_per_address (hs_config ?s)"
    unfolding http_inv_def by (meson order_trans)
  moreover obtain s' where s': "drain http_poll (length (hs_output ?s)) ?s = (hs_output ?s, s')" "hs_output s' = []"
    using web.drain_all by blast
  moreover have "http_inv N s'"
    using web.drain_inv [OF inv, of "length (hs_output ?s)"] s' by simp
  ultimately show ?thesis
    using inv by (simp add: Let_def)
qed

text \<open>C10: No slot is lost: as long as connection ids are not reused while held, the count kept for an address is exactly
  the number of its counted connections, so that an address with none can connect again.\<close>

theorem connection_slots_exact:
  assumes "http_reachable X N config s"
  shows "addr_count s ip = held_count s ip \<and>
    (hs_connections s = [] \<longrightarrow> (\<forall>c addr. \<not> ip_range_contains N (trusted_proxies (hs_config s)) (normalize (sock_ip addr)) \<longrightarrow>
       0 < max_connections_per_address (hs_config s) \<longrightarrow>
       hm_get (hs_connections (http_connected N c addr s)) c = Some \<lparr>hc_addr = addr, counted = True\<rparr>))"
proof (intro conjI impI allI)
  show "addr_count s ip = held_count s ip"
    using assms by (rule http_reachable_counts)
  fix c and addr :: socket_addr
  assume "hs_connections s = []" "0 < max_connections_per_address (hs_config s)"
    "\<not> ip_range_contains N (trusted_proxies (hs_config s)) (normalize (sock_ip addr))"
  moreover have "addr_count s (normalize (sock_ip addr)) = held_count s (normalize (sock_ip addr))"
    using assms by (rule http_reachable_counts)
  ultimately show "hm_get (hs_connections (http_connected N c addr s)) c = Some \<lparr>hc_addr = addr, counted = True\<rparr>"
    by (simp add: http_connected_def addr_count_def held_count_def hm_simps Let_def)
qed

theorem connection_slots_exact_witness:
  "\<exists>s. http_reachable sample_identity sample_ipnet http_config_default s \<and>
     held_count s (IpV4 (Ipv4 10 0 0 1)) = 1 \<and> addr_count s (IpV4 (Ipv4 10 0 0 1)) = 1"
proof -
  let ?s = "http_connected sample_ipnet 1 \<lparr>sock_ip = IpV4 (Ipv4 10 0 0 1), sock_port = 9\<rparr> (http_signaler_new http_config_default)"
  have "http_reachable sample_identity sample_ipnet http_config_default (fst (http_handle sample_identity sample_ipnet
      (http_signaler_new http_config_default) (Connected 1 \<lparr>sock_ip = IpV4 (Ipv4 10 0 0 1), sock_port = 9\<rparr> 0)))"
    by (rule http_reachable.handle [OF http_reachable.start]) (simp add: http_signaler_new_def)
  then have r: "http_reachable sample_identity sample_ipnet http_config_default ?s"
    by simp
  moreover have "addr_count ?s (IpV4 (Ipv4 10 0 0 1)) = 1"
    by (simp add: http_connected_def http_signaler_new_def http_config_default_def ip_range_contains_def ip_range_empty_def
        addr_count_def hm_simps Let_def)
  ultimately show ?thesis
    using connection_slots_exact [OF r, of "IpV4 (Ipv4 10 0 0 1)"] by (intro exI [of _ ?s]) simp
qed


text \<open>C8: Every request has one outcome.  Unless validating its identity panics, a request adds exactly one output: a
  response to its connection, with no join added, or an offer, with the join waiting under the offer's id.  An
  offer comes only from a POST on the join path of its network id, carries the request's body, and, when a trust is
  configured, only after that body passed the identity check under it; the player named with it has the claims
  of that check.  The client address of an offer from a counted peer is the peer's address, whatever the headers
  say.\<close>

theorem request_outcome:
  fixes X N config inputs c r now env
  defines "s \<equiv> feed (http_handle X N) (http_signaler_new config) inputs"
  defines "s' \<equiv> fst (http_handle X N s (HttpRequest c r now env))"
  shows "snd (http_handle X N s (HttpRequest c r now env)) = Inl HandlerPanics \<and> hs_output s' = hs_output s \<or>
    (\<exists>resp k. hs_output s' = hs_output s @ [OutResponse c resp k] \<and> hs_pending s' = hs_pending s) \<or>
    (\<exists>off. hs_output s' = hs_output s @ [OutOffer off] \<and>
       hs_pending s' = hm_insert (random_id env) \<lparr>pj_connection = c, pj_keep_alive = keep_alive r,
         deadline = now + answer_timeout (hs_config s)\<rparr> (hs_pending s) \<and>
       of_connection_id off = random_id env \<and> of_sdp off = req_body r \<and>
       req_method r = ''POST'' \<and> req_path r = join_path (of_network_id off) \<and>
       (case hs_token_trust (hs_config s) of
          None \<Rightarrow> of_player off = None
        | Some trust \<Rightarrow> \<exists>trust' claims. validate_sdp X (req_body r) trust (systemtime env now) = (trust', Inr claims) \<and>
            of_player off = Some (player_info_new claims (of_network_id off) (of_client_address off))) \<and>
       (\<forall>entry. hm_get (hs_connections s) c = Some entry \<longrightarrow> counted entry \<longrightarrow>
          of_client_address off = Some (hc_addr entry)))"
proof -
  have inv: "http_inv N s"
    unfolding s_def by (rule http_feed_inv)
  have stat: "\<exists>resp k'. hs_output (fst (http_status c r k s)) = hs_output s @ [OutResponse c resp k'] \<and>
      hs_pending (fst (http_status c r k s)) = hs_pending s" for k
    by (simp add: http_status_def respond_def respond_with_def push_response_def split: option.splits)
  consider (status) "req_path r = JOIN_PATH" | (unknown) "req_path r \<noteq> JOIN_PATH" "path_network_id (req_path r) = None"
    | (verb) nid where "req_path r \<noteq> JOIN_PATH" "path_network_id (req_path r) = Some nid" "req_method r \<noteq> ''POST''"
    | (join) nid where "req_path r \<noteq> JOIN_PATH" "path_network_id (req_path r) = Some nid" "req_method r = ''POST''"
    by blast
  then show ?thesis
  proof cases
    case status
    with stat show ?thesis
      by (simp add: s'_def handle_request_def Let_def)
  next
    case unknown
    then show ?thesis
      by (simp add: s'_def handle_request_def respond_state Let_def)
  next
    case verb
    then show ?thesis
      by (simp add: s'_def handle_request_def respond_state Let_def)
  next
    case (join nid)
    then have path: "req_path r = join_path nid"
      by (auto simp: path_network_id_def strip_prefix_Some JOIN_PREFIX_def join_path_def JOIN_PATH_def split: if_splits)
    have addr: "client_address N s c r = Some (hc_addr entry)"
      if "hm_get (hs_connections s) c = Some entry" "counted entry" for entry
      using that inv by (simp add: client_address_def http_inv_def)
    have "http_handle X N s (HttpRequest c r now env) = join X N c nid r (keep_alive r) now env s"
      using join by (simp add: handle_request_def)
    with join path addr show ?thesis
      unfolding s'_def
      by (auto simp: join_def register_join_def respond_state Let_def split: option.splits prod.splits sum.splits identity_failure.splits)
  qed
qed


definition sample_request :: http_request where
  "sample_request = \<lparr>req_method = ''POST'', req_path = ''/v1/join/5'', req_version = HttpOtherVersion,
     req_header = (\<lambda>name. if name = FORWARDED_FOR then Some ''8.8.8.8'' else None), req_body = ''v=0''\<rparr>"

definition sample_peer :: socket_addr where
  "sample_peer = \<lparr>sock_ip = IpV4 (Ipv4 10 0 0 1), sock_port = 9\<rparr>"

definition sample_env :: clock_and_random where
  "sample_env = \<lparr>random_id = 77, wall_now = 0, instant_now = 0\<rparr>"

theorem request_outcome_witness:
  "let s = feed (http_handle sample_identity sample_ipnet)
         (http_signaler_new (http_config_default\<lparr>hs_token_trust := None\<rparr>)) [Connected 1 sample_peer 0];
       s' = fst (http_handle sample_identity sample_ipnet s (HttpRequest 1 sample_request 3 sample_env)) in
   \<exists>off. hs_output s' = [OutOffer off] \<and> of_client_address off = Some sample_peer \<and> of_network_id off = ''5'' \<and>
     hm_get (hs_pending s') 77 = Some \<lparr>pj_connection = 1, pj_keep_alive = True, deadline = 3 + 10 * second\<rparr>"
proof -
  let ?cfg = "http_config_default\<lparr>hs_token_trust := None\<rparr> :: (ip_addr \<times> nat) http_signaler_config"
  define s where "s = feed (http_handle sample_identity sample_ipnet) (http_signaler_new ?cfg) [Connected 1 sample_peer 0]"
  define s' where "s' = fst (http_handle sample_identity sample_ipnet s (HttpRequest 1 sample_request 3 sample_env))"
  have s: "hs_output s = []" "hm_get (hs_connections s) 1 = Some \<lparr>hc_addr = sample_peer, counted = True\<rparr>"
    "hs_config s = ?cfg" "hs_pending s = []"
    by (simp_all add: s_def feed_def http_connected_def http_signaler_new_def http_config_default_def sample_peer_def
        ip_range_contains_def ip_range_empty_def hm_simps Let_def)
  have keep: "keep_alive sample_request"
    by (simp add: keep_alive_def sample_request_def FORWARDED_FOR_def eq_ignore_ascii_case_def to_ascii_lowercase_def Let_def)
  have "path_network_id (req_path sample_request) = Some ''5''" "req_path sample_request \<noteq> JOIN_PATH" "req_method sample_request = ''POST''"
    by (simp_all add: path_network_id_def sample_request_def JOIN_PREFIX_def JOIN_PATH_def strip_prefix_def)
  then have out: "\<exists>off. hs_output s' = [OutOffer off]"
    using s by (simp add: s'_def handle_request_def join_def register_join_def http_config_default_def Let_def)
  note outcome = request_outcome [where X = sample_identity and N = sample_ipnet and config = ?cfg
      and inputs = "[Connected 1 sample_peer 0]" and c = 1 and r = sample_request and now = 3 and env = sample_env,
      folded s_def, folded s'_def]
  from outcome out s obtain off where "hs_output s' = [OutOffer off]" "of_client_address off = Some sample_peer"
    "req_path sample_request = join_path (of_network_id off)"
    "hs_pending s' = hm_insert (random_id sample_env) \<lparr>pj_connection = 1, pj_keep_alive = keep_alive sample_request,
         deadline = 3 + answer_timeout (hs_config s)\<rparr> (hs_pending s)"
    by auto
  moreover from this(3) have "of_network_id off = ''5''"
    by (simp add: sample_request_def join_path_def JOIN_PATH_def)
  ultimately show ?thesis
    unfolding Let_def s_def [symmetric] s'_def [symmetric]
    by (intro exI [of _ off]) (simp add: s keep sample_env_def hm_simps http_config_default_def)
qed

text \<open>A join is answered once.  An answer or a rejection for a join that waits adds exactly one response, to the
  connection that asked and with its keep-alive, and ends the wait; for an id under which nothing waits it is an
  error and changes nothing.\<close>

lemma answered_once:
  fixes i cid
  assumes "i = Answered cid sdp \<or> i = Reject cid reason"
  shows "case hm_get (hs_pending s) cid of
      None \<Rightarrow> http_handle X N s i = (s, Inl (UnknownConnection cid))
    | Some p \<Rightarrow> (\<exists>resp. http_handle X N s i = (s\<lparr>hs_pending := hm_remove cid (hs_pending s),
          hs_output := hs_output s @ [OutResponse (pj_connection p) resp (pj_keep_alive p)]\<rparr>, Inr ()) \<and>
        resp_status resp = (if i = Answered cid sdp then 200 else reject_status reason)) \<and>
        http_handle X N (fst (http_handle X N s i)) i = (fst (http_handle X N s i), Inl (UnknownConnection cid))"
  using assms
  by (auto simp: answer_def reject_def respond_def respond_with_def push_response_def push_out_def st_ok_def hm_simps
      split: option.splits)

lemma answered_once_witness:
  "\<exists>resp. http_handle sample_identity sample_ipnet ((http_signaler_new http_config_default)\<lparr>hs_pending :=
       [(77, \<lparr>pj_connection = 1, pj_keep_alive = True, deadline = 5\<rparr>)]\<rparr>) (Reject 77 Unavailable) =
     ((http_signaler_new http_config_default)\<lparr>hs_output := [OutResponse 1 resp True]\<rparr>, Inr ()) \<and> resp_status resp = 503"
proof -
  let ?s = "(http_signaler_new http_config_default)\<lparr>hs_pending := [(77, \<lparr>pj_connection = 1, pj_keep_alive = True, deadline = 5\<rparr>)]\<rparr>
    :: (ip_addr \<times> nat) http_signaler"
  have "hm_get (hs_pending ?s) 77 = Some \<lparr>pj_connection = 1, pj_keep_alive = True, deadline = 5\<rparr>"
    by (simp add: hm_get_def)
  with answered_once [where i = "Reject 77 Unavailable" and cid = 77 and reason = Unavailable and s = ?s
      and X = sample_identity and N = sample_ipnet]
  show ?thesis
    by (auto simp: http_signaler_new_def hm_remove_def)
qed


text \<open>C31: No join waits past its deadline.  In any state the signaler can be in, an update succeeds, keeps exactly the
  joins whose deadline is still ahead, answers every other one with 504 on its connection, and ends with a wait
  that is over before the first deadline that is left.\<close>

theorem joins_expire:
  fixes X N config inputs now
  defines "s \<equiv> feed (http_handle X N) (http_signaler_new config) inputs"
  shows "\<exists>s' new w. http_handle X N s (HttpUpdate now) = (s', Inr ()) \<and>
    (\<forall>cid p. hm_get (hs_pending s') cid = Some p \<longleftrightarrow> hm_get (hs_pending s) cid = Some p \<and> now < deadline p) \<and>
    hs_output s' = hs_output s @ new @ [OutHttpWait w] \<and>
    set new = {timeout_response p |p cid. hm_get (hs_pending s) cid = Some p \<and> deadline p \<le> now} \<and>
    length new + hm_len (hs_pending s') = hm_len (hs_pending s) \<and>
    (\<forall>cid p. hm_get (hs_pending s') cid = Some p \<longrightarrow> now + w \<le> deadline p)"
proof -
  have wf: "hm_wf (hs_pending s)"
    using http_feed_inv [of N X config inputs] by (simp add: s_def http_inv_def)
  define new where "new = map (\<lambda>c. timeout_response (the (hm_get (hs_pending s) c))) (expired_joins now s)"
  define s1 where "s1 = s\<lparr>hs_pending := hm_retain (\<lambda>_ p. now < deadline p) (hs_pending s), hs_output := hs_output s @ new\<rparr>"
  have step: "http_handle X N s (HttpUpdate now) = (push_out (OutHttpWait (next_deadline now s1)) s1, Inr ())"
    using http_update_state [OF wf, of now] by (simp add: s1_def new_def)
  have left: "hm_get (hs_pending s1) cid = Some p \<longleftrightarrow> hm_get (hs_pending s) cid = Some p \<and> now < deadline p" for cid p
    using wf by (auto simp: s1_def hm_simps split: option.splits)
  have "c \<in> set (expired_joins now s) \<longleftrightarrow> (\<exists>p. hm_get (hs_pending s) c = Some p \<and> deadline p \<le> now)" for c
    using hm_get_mem [OF wf, of c] by (force simp: expired_joins_def)
  then have "set new = {timeout_response p |p cid. hm_get (hs_pending s) cid = Some p \<and> deadline p \<le> now}"
    by (force simp: new_def)
  moreover have "length new + hm_len (hs_pending s1) = hm_len (hs_pending s)"
    using sum_length_filter_compl [of "\<lambda>(_, p). deadline p \<le> now" "hs_pending s"]
    by (simp add: new_def expired_joins_def s1_def hm_len_def hm_retain_def case_prod_unfold not_le)
  moreover have "now + next_deadline now s1 \<le> deadline p" if p: "hm_get (hs_pending s1) cid = Some p" for cid p
  proof -
    have "(cid, p) \<in> set (hs_pending s1)"
      using p unfolding hm_get_def by (rule map_of_SomeD)
    then have "deadline p - now \<in> set (map (\<lambda>(_, p). deadline p - now) (hs_pending s1))"
      by force
    then have "next_deadline now s1 \<le> deadline p - now"
      by (cases "map (\<lambda>(_, p). deadline p - now) (hs_pending s1)")
        (auto simp: next_deadline_def foldl_min_start [of "\<lambda>x. x"] foldl_min_member [where f = "\<lambda>x. x"])
    with p left show ?thesis
      by force
  qed
  ultimately show ?thesis
    using step left by (intro exI [of _ "push_out (OutHttpWait (next_deadline now s1)) s1"] exI [of _ new]
        exI [of _ "next_deadline now s1"]) (auto simp: s1_def)
qed

theorem joins_expire_witness:
  "\<exists>s' new w. http_handle sample_identity sample_ipnet (feed (http_handle sample_identity sample_ipnet)
        (http_signaler_new (http_config_default\<lparr>hs_token_trust := None\<rparr>))
        [Connected 1 sample_peer 0, HttpRequest 1 sample_request 3 sample_env]) (HttpUpdate (11 * second)) = (s', Inr ()) \<and>
     hs_pending s' = [] \<and> new = [timeout_response \<lparr>pj_connection = 1, pj_keep_alive = True, deadline = 3 + 10 * second\<rparr>] \<and>
     (\<exists>old. hs_output s' = old @ new @ [OutHttpWait w])"
proof -
  let ?cfg = "http_config_default\<lparr>hs_token_trust := None\<rparr> :: (ip_addr \<times> nat) http_signaler_config"
  define s where "s = feed (http_handle sample_identity sample_ipnet) (http_signaler_new ?cfg)
      [Connected 1 sample_peer 0, HttpRequest 1 sample_request 3 sample_env]"
  have keep: "keep_alive sample_request"
    by (simp add: keep_alive_def sample_request_def FORWARDED_FOR_def eq_ignore_ascii_case_def to_ascii_lowercase_def Let_def)
  have "path_network_id (req_path sample_request) = Some ''5''" "req_path sample_request \<noteq> JOIN_PATH" "req_method sample_request = ''POST''"
    by (simp_all add: path_network_id_def sample_request_def JOIN_PREFIX_def JOIN_PATH_def strip_prefix_def)
  then have p: "hs_pending s = [(77, \<lparr>pj_connection = 1, pj_keep_alive = True, deadline = 3 + 10 * second\<rparr>)]"
    by (simp add: s_def feed_def http_connected_def http_signaler_new_def http_config_default_def sample_peer_def keep
        ip_range_contains_def ip_range_empty_def handle_request_def join_def register_join_def sample_env_def hm_insert_def
        hm_get_def hm_len_def Let_def)
  obtain s' new w where step: "http_handle sample_identity sample_ipnet s (HttpUpdate (11 * second)) = (s', Inr ())"
    and left: "\<forall>cid p. hm_get (hs_pending s') cid = Some p \<longleftrightarrow> hm_get (hs_pending s) cid = Some p \<and> 11 * second < deadline p"
    and out: "hs_output s' = hs_output s @ new @ [OutHttpWait w]"
    and new: "set new = {timeout_response p |p cid. hm_get (hs_pending s) cid = Some p \<and> deadline p \<le> 11 * second}"
    and len: "length new + hm_len (hs_pending s') = hm_len (hs_pending s)"
    using joins_expire [of sample_identity sample_ipnet ?cfg "[Connected 1 sample_peer 0, HttpRequest 1 sample_request 3 sample_env]"
        "11 * second", folded s_def] by blast
  have "hm_get (hs_pending s') cid \<noteq> Some q" for cid q
    using left by (auto simp: p hm_get_def second_def split: if_splits)
  then have "hm_get (hs_pending s') cid = None" for cid
    by (cases "hm_get (hs_pending s') cid") auto
  then have "map_of (hs_pending s') = Map.empty"
    by (intro ext) (simp add: hm_get_def)
  then have none: "hs_pending s' = []"
    by simp
  with len p have "length new = 1"
    by (simp add: hm_len_def)
  moreover have "set new = {timeout_response \<lparr>pj_connection = 1, pj_keep_alive = True, deadline = 3 + 10 * second\<rparr>}"
    unfolding new by (auto simp: p hm_get_def second_def split: if_splits)
  ultimately have "new = [timeout_response \<lparr>pj_connection = 1, pj_keep_alive = True, deadline = 3 + 10 * second\<rparr>]"
    by (cases new) auto
  with step none out show ?thesis
    unfolding s_def by blast
qed

end
