(* ===== verification/Poll_Loop.thy ===== *)
theory Poll_Loop
  imports Sans
begin

text \<open>
  The loops \<open>while let Some(x) = machine.poll() \<dots>\<close> with which the session drains the state machines of other crates.
  Nothing in the program bounds them: whether they end is up to the machine polled.  A computation that may
  not return is therefore an option of a step, \<open>None\<close> standing for one that never returns.  Proved here: what
  holds of every state a loop passes through, and that a loop returns when each item polled lowers a
  well-founded measure the body does not raise.
\<close>

type_synonym ('s, 'e, 'a) run = "('s, 'e, 'a) step option"

definition run_ok :: "'s \<Rightarrow> ('s, 'e, unit) run" where
  "run_ok s = Some (s, Inr ())"

fun run_bind :: "('s, 'e, 'a) run \<Rightarrow> ('a \<Rightarrow> 's \<Rightarrow> ('s, 'e, 'b) run) \<Rightarrow> ('s, 'e, 'b) run" where
  "run_bind None f = None"
| "run_bind (Some (s, Inl e)) f = Some (s, Inl e)"
| "run_bind (Some (s, Inr a)) f = f a s"

partial_function (option) while_poll ::
  "('s \<Rightarrow> 'x option \<times> 's) \<Rightarrow> ('x \<Rightarrow> 's \<Rightarrow> ('s, 'e, unit) step) \<Rightarrow> 's \<Rightarrow> ('s, 'e, unit) run" where
  "while_poll poll body s =
     (case poll s of
        (None, s') \<Rightarrow> Some (s', Inr ())
      | (Some x, s') \<Rightarrow>
          (case body x s' of
             (s'', Inl e) \<Rightarrow> Some (s'', Inl e)
           | (s'', Inr _) \<Rightarrow> while_poll poll body s''))"

declare while_poll.simps [code]

text \<open>A poll on a part of the state.\<close>

definition poll_part :: "('s \<Rightarrow> 'p) \<Rightarrow> ('p \<Rightarrow> 's \<Rightarrow> 's) \<Rightarrow> ('p \<Rightarrow> 'x option \<times> 'p) \<Rightarrow> 's \<Rightarrow> 'x option \<times> 's" where
  "poll_part part set_part poll s = (case poll (part s) of (x, p) \<Rightarrow> (x, set_part p s))"


section \<open>Lemmas\<close>

lemma run_ok_bind [simp]: "run_bind (run_ok s) f = f () s"
  by (simp add: run_ok_def)

lemma run_bind_eq_Some:
  "run_bind r f = Some (t, x) \<longleftrightarrow>
     (\<exists>e. r = Some (t, Inl e) \<and> x = Inl e) \<or> (\<exists>s a. r = Some (s, Inr a) \<and> f a s = Some (t, x))"
  by (cases "(r, f)" rule: run_bind.cases) auto

text \<open>Whatever the outcome, the state a sequence of runs ends in has what each of them keeps.\<close>

definition keeps :: "('s \<Rightarrow> bool) \<Rightarrow> ('s, 'e, 'a) run \<Rightarrow> bool" where
  "keeps P r \<longleftrightarrow> (\<forall>s x. r = Some (s, x) \<longrightarrow> P s)"

lemma keeps_None [simp]: "keeps P None"
  by (simp add: keeps_def)

lemma keeps_Some [simp]: "keeps P (Some (s, x)) \<longleftrightarrow> P s"
  by (simp add: keeps_def)

lemma keeps_ok [simp]: "keeps P (run_ok s) \<longleftrightarrow> P s"
  by (simp add: run_ok_def)

lemma keeps_bind:
  "keeps P r \<Longrightarrow> (\<And>a s. r = Some (s, Inr a) \<Longrightarrow> P s \<Longrightarrow> keeps P (f a s)) \<Longrightarrow> keeps P (run_bind r f)"
  by (cases "(r, f)" rule: run_bind.cases) auto

text \<open>Induction over a loop that returns.\<close>

lemma while_poll_induct [consumes 1, case_names finish stop again]:
  assumes returns: "while_poll poll body s = Some r"
    and finish: "\<And>s s'. poll s = (None, s') \<Longrightarrow> Q s (s', Inr ())"
    and stop: "\<And>s x s' s'' e. poll s = (Some x, s') \<Longrightarrow> body x s' = (s'', Inl e) \<Longrightarrow> Q s (s'', Inl e)"
    and again: "\<And>s x s' s'' r. poll s = (Some x, s') \<Longrightarrow> body x s' = (s'', Inr ()) \<Longrightarrow> Q s'' r \<Longrightarrow> Q s r"
  shows "Q s r"
proof -
  have "poll' = poll \<and> body' = body \<longrightarrow> Q s r" if "while_poll poll' body' s = Some r" for poll' body' s r
    using that
    by (rule while_poll.raw_induct [where P = "\<lambda>poll' body' s r. poll' = poll \<and> body' = body \<longrightarrow> Q s r", rotated])
      (auto split: prod.splits option.splits sum.splits intro: finish stop again)
  with returns show ?thesis
    by simp
qed

text \<open>What polling and the body keep holds at the end.\<close>

lemma while_poll_keeps:
  assumes start: "P s"
    and poll: "\<And>s x s'. P s \<Longrightarrow> poll s = (x, s') \<Longrightarrow> P s'"
    and body: "\<And>s x. P s \<Longrightarrow> P (fst (body x s))"
  shows "keeps P (while_poll poll body s)"
  unfolding keeps_def
proof (intro allI impI)
  fix t r
  assume "while_poll poll body s = Some (t, r)"
  then have "P s \<longrightarrow> P (fst (t, r))"
    by (induction rule: while_poll_induct) (metis poll body fst_conv)+
  with start show "P t"
    by simp
qed

text \<open>A loop returns when a well-founded relation descends with every item.\<close>

lemma while_poll_returns:
  assumes "wf R"
    and poll: "\<And>s x s'. P s \<Longrightarrow> poll s = (Some x, s') \<Longrightarrow> P (fst (body x s')) \<and> (fst (body x s'), s) \<in> R"
    and start: "P s"
  shows "\<exists>r. while_poll poll body s = Some r"
  using \<open>wf R\<close> start
proof (induction s rule: wf_induct_rule)
  case (less s)
  show ?case
  proof (cases "poll s")
    case (Pair o' s')
    show ?thesis
    proof (cases o')
      case None
      with Pair show ?thesis
        by (simp add: while_poll.simps)
    next
      case (Some x)
      with Pair less.prems poll have next_ok: "P (fst (body x s'))" "(fst (body x s'), s) \<in> R"
        by blast+
      from less.IH [OF next_ok(2,1)] show ?thesis
        using Pair Some by (cases "body x s'") (auto simp: while_poll.simps [of poll body s] split: sum.splits)
    qed
  qed
qed

lemma while_poll_returns_measure:
  assumes "\<And>s x s'. poll s = (Some x, s') \<Longrightarrow> (m (fst (body x s')) :: nat) < m s"
  shows "\<exists>r. while_poll poll body s = Some r"
  by (rule while_poll_returns [where R = "measure m" and P = "\<lambda>_. True"]) (use assms in auto)

lemma run_bind_returns:
  "\<exists>r'. r = Some r' \<Longrightarrow> (\<And>a s. r = Some (s, Inr a) \<Longrightarrow> \<exists>r'. f a s = Some r') \<Longrightarrow> \<exists>r'. run_bind r f = Some r'"
  by (cases "(r, f)" rule: run_bind.cases) auto



section \<open>Relations every step respects\<close>

text \<open>A reflexive and transitive relation between the state before and the state after is kept by sequencing, by
  loops and by folds whose parts keep it, on every outcome.\<close>

locale run_order =
  fixes rel :: "'s \<Rightarrow> 's \<Rightarrow> bool"
  assumes rel_refl: "rel s s"
    and rel_trans: "rel s t \<Longrightarrow> rel t u \<Longrightarrow> rel s u"
begin

lemma ok_rel: "rel s t \<Longrightarrow> keeps (rel s) (run_ok t)"
  by simp

lemma some_rel: "rel s (fst r) \<Longrightarrow> keeps (rel s) (Some r)"
  by (cases r) simp

lemma keeps_rel_trans: "rel s t \<Longrightarrow> keeps (rel t) r \<Longrightarrow> keeps (rel s) r"
  by (auto simp: keeps_def intro: rel_trans)

lemma bind_rel: "keeps (rel s) r \<Longrightarrow> (\<And>a t. keeps (rel t) (f a t)) \<Longrightarrow> keeps (rel s) (run_bind r f)"
  by (rule keeps_bind) (auto intro: keeps_rel_trans)

lemma while_rel:
  assumes "\<And>t x t'. poll t = (x, t') \<Longrightarrow> rel t t'" "\<And>t x. rel t (fst (body x t))"
  shows "keeps (rel s) (while_poll poll body s)"
  by (rule while_poll_keeps) (use assms in \<open>auto intro: rel_refl rel_trans\<close>)

lemma step_rel: "rel s (fst r) \<Longrightarrow> (\<And>a t. rel t (fst (f a t))) \<Longrightarrow> rel s (fst (st_bind r f))"
  by (rule st_bind_fst) (auto intro: rel_trans)

lemma fold_rel: "(\<And>x t. rel t (g t x)) \<Longrightarrow> rel s (foldl g s xs)"
  by (induction xs arbitrary: s) (auto intro: rel_refl rel_trans)

end

end
