(* ===== verification/Webrtc.thy ===== *)
theory Webrtc
  imports Errors
begin

text \<open>
  \<open>nethernet/src/protocol/webrtc\<close>: the SDP description peers exchange (\<open>description.rs\<close>), candidate attributes
  (\<open>candidate.rs\<close>), certificates and their fingerprints (\<open>certificate.rs\<close>), and \<open>nethernet/src/util/stun.rs\<close>.  The SDP
  types, the candidate codec, the certificate generator, SHA-256 and the STUN parser belong to other crates:
  they are the fields of \<open>sdp_ops\<close>, \<open>candidate_ops\<close>, \<open>certificate_ops\<close> and \<open>stun_ops\<close>, and \<open>sdp_laws\<close> names what
  is documented of the SDP builder.  A foreign error is its display text.  Proved here: a description that is
  encoded and parsed again is the same description with the announced role, and the candidates are those
  that parse, in order.
\<close>

definition SCTP_MAX_MESSAGE_SIZE :: u32 where "SCTP_MAX_MESSAGE_SIZE = 65536"
definition LOCAL_SCTP_MAX_MESSAGE_SIZE :: u32 where "LOCAL_SCTP_MAX_MESSAGE_SIZE = 262144"
definition SCTP_PORT :: u16 where "SCTP_PORT = 5000"


section \<open>Candidates\<close>

record 'k candidate_ops =
  cand_marshal :: "'k \<Rightarrow> string"
  cand_unmarshal :: "string \<Rightarrow> (string, 'k) result"

definition attribute_value :: "'k candidate_ops \<Rightarrow> nat \<Rightarrow> 'k \<Rightarrow> string \<Rightarrow> string" where
  "attribute_value K index c fragment =
     cand_marshal K c @ '' generation 0 ufrag '' @ fragment @ '' network-id '' @ dec index @ '' network-cost 0''"

definition format_ice_candidate :: "'k candidate_ops \<Rightarrow> nat \<Rightarrow> 'k \<Rightarrow> string \<Rightarrow> string" where
  "format_ice_candidate K index c fragment = ''candidate:'' @ attribute_value K index c fragment"

definition parse_ice_candidate :: "'k candidate_ops \<Rightarrow> string \<Rightarrow> (protocol_error, 'k) result" where
  "parse_ice_candidate K data =
     (let raw = (case strip_prefix ''candidate:'' data of Some r \<Rightarrow> r | None \<Rightarrow> data)
      in map_err (\<lambda>e. Other (''decode candidate: '' @ e)) (cand_unmarshal K raw))"


section \<open>Certificates\<close>

text \<open>The outcome of one key generation is a value of the record, as it differs from call to call.\<close>

record 'c certificate_ops =
  default_provider :: "(string, unit) result"
  generate_self_signed :: "string list \<Rightarrow> (string, 'c) result"
  certificate_der :: "'c \<Rightarrow> bytes list"
  sha256_digest :: "bytes \<Rightarrow> bytes"

definition crypto_provider :: "'c certificate_ops \<Rightarrow> (protocol_error, unit) result" where
  "crypto_provider C = map_err (\<lambda>e. Other (''crypto provider: '' @ e)) (default_provider C)"

definition certificate_generate :: "'c certificate_ops \<Rightarrow> (protocol_error, 'c) result" where
  "certificate_generate C =
     res_bind (crypto_provider C) (\<lambda>_.
       map_err (\<lambda>e. Other (''generate certificate: '' @ e)) (generate_self_signed C [''nethernet'']))"

definition upper_hex_digit :: "nat \<Rightarrow> char" where
  "upper_hex_digit n = char_of (if n < 10 then 48 + n else 55 + n)"

definition hex_byte :: "u8 \<Rightarrow> string" where
  "hex_byte b = [upper_hex_digit (unat b div 16), upper_hex_digit (unat b mod 16)]"

definition colon_hex :: "bytes \<Rightarrow> string" where
  "colon_hex digest = join_with '':'' (map hex_byte digest)"

definition certificate_fingerprint :: "'c certificate_ops \<Rightarrow> 'c \<Rightarrow> (protocol_error, string \<times> string) result" where
  "certificate_fingerprint C certificate =
     (case certificate_der C certificate of
        [] \<Rightarrow> Inl (Other ''certificate has no DER bytes'')
      | der # _ \<Rightarrow> Inr (''sha-256'', colon_hex (sha256_digest C der)))"


section \<open>Descriptions\<close>

record credentials =
  ice_ufrag :: string
  ice_pwd :: string

datatype dtls_role = DtlsClient | DtlsServer | DtlsAuto

record description =
  desc_ice :: credentials
  desc_role :: dtls_role
  desc_fingerprint :: "string \<times> string"
  desc_max_message_size :: u32
  desc_identity :: "string option"

datatype connection_role = Active | Actpass

record media_name =
  name_media :: string
  name_port :: int
  name_protos :: "string list"
  name_formats :: "string list"

record connection_information =
  info_network_type :: string
  info_address_type :: string
  info_address :: string

record origin =
  origin_username :: string
  origin_session_id :: u64
  origin_session_version :: u64
  origin_network_type :: string
  origin_address_type :: string
  origin_unicast_address :: string

type_synonym attribute = "string \<times> string option"

text \<open>The SDP crate: its attribute keys, the builder of a media section (\<open>sdp_media\<close> is the struct literal with
  the other fields at their defaults), a session with one default time description and one media section, and the
  text form.\<close>

record ('m, 's) sdp_ops =
  key_setup :: string
  key_mid :: string
  key_max_message_size :: string
  key_end_of_candidates :: string
  key_group :: string
  key_extmap_allow_mixed :: string
  key_msid_semantic :: string
  key_identity :: string
  role_text :: "connection_role \<Rightarrow> string"
  sdp_media :: "media_name \<Rightarrow> connection_information \<Rightarrow> 'm"
  with_ice_credentials :: "string \<Rightarrow> string \<Rightarrow> 'm \<Rightarrow> 'm"
  with_fingerprint :: "string \<Rightarrow> string \<Rightarrow> 'm \<Rightarrow> 'm"
  with_value_attribute :: "string \<Rightarrow> string \<Rightarrow> 'm \<Rightarrow> 'm"
  with_candidate :: "string \<Rightarrow> 'm \<Rightarrow> 'm"
  media_attribute :: "'m \<Rightarrow> string \<Rightarrow> string option option"
  media_attributes :: "'m \<Rightarrow> attribute list"
  sdp_session :: "origin \<Rightarrow> string \<Rightarrow> attribute list \<Rightarrow> 'm \<Rightarrow> 's"
  session_attribute :: "'s \<Rightarrow> string \<Rightarrow> string option"
  session_media :: "'s \<Rightarrow> 'm list"
  sdp_marshal :: "'s \<Rightarrow> string"
  sdp_unmarshal :: "string \<Rightarrow> (string, 's) result"

definition media_attr :: "('m, 's) sdp_ops \<Rightarrow> 'm \<Rightarrow> string \<Rightarrow> (protocol_error, string) result" where
  "media_attr S media key =
     (case media_attribute S media key of
        Some (Some v) \<Rightarrow> Inr v
      | Some None \<Rightarrow> Inl (Other (''empty '' @ key @ '' attribute''))
      | None \<Rightarrow> Inl (Other (''missing '' @ key @ '' attribute'')))"

definition connection_role_of :: "dtls_role \<Rightarrow> connection_role" where
  "connection_role_of role = (case role of DtlsServer \<Rightarrow> Actpass | _ \<Rightarrow> Active)"

text \<open>The clock in nanoseconds since the epoch, \<open>None\<close> when it stands before it.\<close>

definition session_id :: "nat option \<Rightarrow> u64" where
  "session_id since_epoch = (case since_epoch of Some d \<Rightarrow> of_nat d | None \<Rightarrow> 1)"

definition base_media :: "('m, 's) sdp_ops \<Rightarrow> description \<Rightarrow> 'm" where
  "base_media S d =
     (let media = sdp_media S
            \<lparr>name_media = ''application'', name_port = 9, name_protos = [''UDP'', ''DTLS'', ''SCTP''],
             name_formats = [''webrtc-datachannel'']\<rparr>
            \<lparr>info_network_type = ''IN'', info_address_type = ''IP4'', info_address = ''0.0.0.0''\<rparr>;
          media = with_ice_credentials S (ice_ufrag (desc_ice d)) (ice_pwd (desc_ice d)) media;
          media = with_fingerprint S (fst (desc_fingerprint d)) (snd (desc_fingerprint d)) media;
          media = with_value_attribute S (key_setup S) (role_text S (connection_role_of (desc_role d))) media;
          media = with_value_attribute S (key_mid S) ''0'' media;
          media = with_value_attribute S ''sctp-port'' (dec (unat SCTP_PORT)) media
      in with_value_attribute S (key_max_message_size S) (u32_to_string (desc_max_message_size d)) media)"

definition sdp_session_of :: "('m, 's) sdp_ops \<Rightarrow> nat option \<Rightarrow> 'm \<Rightarrow> string option \<Rightarrow> 's" where
  "sdp_session_of S clock media ident =
     sdp_session S
       \<lparr>origin_username = ''-'', origin_session_id = session_id clock, origin_session_version = 2,
        origin_network_type = ''IN'', origin_address_type = ''IP4'', origin_unicast_address = ''127.0.0.1''\<rparr>
       ''-''
       ([(key_group S, Some ''BUNDLE 0''), (key_extmap_allow_mixed S, None), (key_msid_semantic S, Some '' WMS'')] @
        (case ident of Some v \<Rightarrow> [(key_identity S, Some v)] | None \<Rightarrow> []))
       media"

definition trickle_media :: "('m, 's) sdp_ops \<Rightarrow> description \<Rightarrow> 'm" where
  "trickle_media S d = with_value_attribute S ''ice-options'' ''trickle'' (base_media S d)"

definition encode_trickle :: "('m, 's) sdp_ops \<Rightarrow> nat option \<Rightarrow> description \<Rightarrow> string" where
  "encode_trickle S clock d = sdp_marshal S (sdp_session_of S clock (trickle_media S d) (desc_identity d))"

definition full_media :: "('m, 's) sdp_ops \<Rightarrow> 'k candidate_ops \<Rightarrow> description \<Rightarrow> 'k list \<Rightarrow> 'm" where
  "full_media S K d cs =
     with_value_attribute S (key_end_of_candidates S) ''''
       (foldl (\<lambda>media (index, c). with_candidate S (attribute_value K index c (ice_ufrag (desc_ice d))) media)
          (base_media S d) (enumerate 0 cs))"

definition encode_full :: "('m, 's) sdp_ops \<Rightarrow> 'k candidate_ops \<Rightarrow> nat option \<Rightarrow> description \<Rightarrow> 'k list \<Rightarrow> string" where
  "encode_full S K clock d cs =
     sdp_marshal S (sdp_session_of S clock (full_media S K d cs) (desc_identity d))"

definition parse_setup :: "string \<Rightarrow> (protocol_error, dtls_role) result" where
  "parse_setup setup =
     (if setup = ''active'' then Inr DtlsClient
      else if setup = ''actpass'' then Inr DtlsServer
      else Inl (Other (''invalid setup attribute: '' @ setup)))"

definition parse_max_message_size :: "('m, 's) sdp_ops \<Rightarrow> 'm \<Rightarrow> (protocol_error, u32) result" where
  "parse_max_message_size S media =
     (case media_attr S media (key_max_message_size S) of
        Inr v \<Rightarrow> ok_or (Other ''parse max-message-size attribute: '') (parse_u32 v)
      | Inl _ \<Rightarrow> Inr SCTP_MAX_MESSAGE_SIZE)"

definition parse_fingerprint :: "string \<Rightarrow> (protocol_error, string \<times> string) result" where
  "parse_fingerprint v = ok_or (Other (''invalid fingerprint: '' @ v)) (split_once (CHR '' '') v)"

text \<open>Candidates that do not parse are left out.\<close>

definition media_candidates :: "('m, 's) sdp_ops \<Rightarrow> 'k candidate_ops \<Rightarrow> 'm \<Rightarrow> 'k list" where
  "media_candidates S K media =
     List.map_filter (\<lambda>(key, v).
       if key = ''candidate'' then opt_bind v (\<lambda>v. res_ok (parse_ice_candidate K v)) else None)
       (media_attributes S media)"

definition parse_media ::
  "('m, 's) sdp_ops \<Rightarrow> 'k candidate_ops \<Rightarrow> string option \<Rightarrow> 'm \<Rightarrow> (protocol_error, description \<times> 'k list) result" where
  "parse_media S K ident media =
     res_bind (media_attr S media ''ice-ufrag'') (\<lambda>fragment.
     res_bind (media_attr S media ''ice-pwd'') (\<lambda>password.
     res_bind (media_attr S media ''fingerprint'') (\<lambda>fp.
     res_bind (parse_fingerprint fp) (\<lambda>fingerprint.
     res_bind (media_attr S media (key_setup S)) (\<lambda>setup.
     res_bind (parse_setup setup) (\<lambda>role.
     res_bind (parse_max_message_size S media) (\<lambda>size.
       Inr (\<lparr>desc_ice = \<lparr>ice_ufrag = fragment, ice_pwd = password\<rparr>, desc_role = role,
             desc_fingerprint = fingerprint, desc_max_message_size = size, desc_identity = ident\<rparr>,
            media_candidates S K media))))))))"

definition description_parse ::
  "('m, 's) sdp_ops \<Rightarrow> 'k candidate_ops \<Rightarrow> string \<Rightarrow> (protocol_error, description \<times> 'k list) result" where
  "description_parse S K sdp =
     res_bind (map_err (\<lambda>e. Other (''decode session description: '' @ e)) (sdp_unmarshal S sdp)) (\<lambda>session.
       case session_media S session of
         [media] \<Rightarrow> parse_media S K (session_attribute S session (key_identity S)) media
       | ms \<Rightarrow> Inl (Other (''unexpected number of media descriptions: '' @ dec (length ms) @ '', expected 1'')))"


section \<open>STUN\<close>

record 'g stun_ops =
  is_stun_message :: "bytes \<Rightarrow> bool"
  unmarshal_binary :: "bytes \<Rightarrow> (string, 'g) result"
  get_username :: "'g \<Rightarrow> (string, string) result"

definition is_stun :: "'g stun_ops \<Rightarrow> bytes \<Rightarrow> bool" where
  "is_stun U datagram = is_stun_message U datagram"

definition local_ufrag :: "'g stun_ops \<Rightarrow> bytes \<Rightarrow> string option" where
  "local_ufrag U datagram =
     (if \<not> is_stun_message U datagram then None
      else opt_bind (res_ok (unmarshal_binary U datagram)) (\<lambda>message.
        opt_bind (res_ok (get_username U message)) (\<lambda>username.
          map_option fst (split_once (CHR '':'') username))))"


section \<open>What is documented of the SDP crate\<close>

text \<open>The keys are those of the RFCs; a builder appends one attribute per value; a lookup finds the first
  attribute of that key; a session keeps its attributes and its media section.\<close>

fun first_attribute :: "attribute list \<Rightarrow> string \<Rightarrow> string option option" where
  "first_attribute [] key = None"
| "first_attribute ((k, v) # rest) key = (if k = key then Some v else first_attribute rest key)"

definition sdp_laws :: "('m, 's) sdp_ops \<Rightarrow> bool" where
  "sdp_laws S \<longleftrightarrow>
     (key_setup S = ''setup'' \<and> key_mid S = ''mid'' \<and> key_max_message_size S = ''max-message-size'' \<and>
      key_end_of_candidates S = ''end-of-candidates'' \<and> key_group S = ''group'' \<and>
      key_extmap_allow_mixed S = ''extmap-allow-mixed'' \<and> key_msid_semantic S = ''msid-semantic'' \<and>
      key_identity S = ''identity'' \<and> role_text S Active = ''active'' \<and> role_text S Actpass = ''actpass'') \<and>
     (\<forall>n i. media_attributes S (sdp_media S n i) = []) \<and>
     (\<forall>u p m. media_attributes S (with_ice_credentials S u p m) =
        media_attributes S m @ [(''ice-ufrag'', Some u), (''ice-pwd'', Some p)]) \<and>
     (\<forall>a v m. media_attributes S (with_fingerprint S a v m) =
        media_attributes S m @ [(''fingerprint'', Some (a @ '' '' @ v))]) \<and>
     (\<forall>k v m. media_attributes S (with_value_attribute S k v m) = media_attributes S m @ [(k, Some v)]) \<and>
     (\<forall>v m. media_attributes S (with_candidate S v m) = media_attributes S m @ [(''candidate'', Some v)]) \<and>
     (\<forall>m k. media_attribute S m k = first_attribute (media_attributes S m) k) \<and>
     (\<forall>or n as m. session_media S (sdp_session S or n as m) = [m]) \<and>
     (\<forall>or n as m k. session_attribute S (sdp_session S or n as m) k = Option.bind (first_attribute as k) id)"

text \<open>The text form of a session is read back.\<close>

definition reads_back :: "('m, 's) sdp_ops \<Rightarrow> 's \<Rightarrow> bool" where
  "reads_back S session \<longleftrightarrow> sdp_unmarshal S (sdp_marshal S session) = Inr session"


section \<open>Lemmas\<close>

definition announced :: "dtls_role \<Rightarrow> dtls_role" where
  "announced role = (case role of DtlsServer \<Rightarrow> DtlsServer | _ \<Rightarrow> DtlsClient)"

lemma parse_setup_role:
  "sdp_laws S \<Longrightarrow> parse_setup (role_text S (connection_role_of role)) = Inr (announced role)"
  by (cases role) (simp_all add: sdp_laws_def parse_setup_def connection_role_of_def announced_def)

lemma first_attribute_append:
  "first_attribute (xs @ ys) key =
     (case first_attribute xs key of Some v \<Rightarrow> Some v | None \<Rightarrow> first_attribute ys key)"
  by (induction xs) auto

lemma base_media_attributes:
  assumes "sdp_laws S"
  shows "media_attributes S (base_media S d) =
    [(''ice-ufrag'', Some (ice_ufrag (desc_ice d))), (''ice-pwd'', Some (ice_pwd (desc_ice d))),
     (''fingerprint'', Some (fst (desc_fingerprint d) @ '' '' @ snd (desc_fingerprint d))),
     (''setup'', Some (role_text S (connection_role_of (desc_role d)))), (''mid'', Some ''0''),
     (''sctp-port'', Some (dec (unat SCTP_PORT))),
     (''max-message-size'', Some (u32_to_string (desc_max_message_size d)))]"
  using assms by (simp add: base_media_def Let_def sdp_laws_def)

lemma candidate_attributes:
  assumes "sdp_laws S"
  shows "media_attributes S
      (foldl (\<lambda>media (index, c). with_candidate S (attribute_value K index c u) media) m ics) =
    media_attributes S m @ map (\<lambda>(index, c). (''candidate'', Some (attribute_value K index c u))) ics"
  using assms by (induction ics arbitrary: m) (auto simp: sdp_laws_def)

text \<open>A media section that starts with the base attributes and adds none of their keys is parsed to the
  description it was built from.\<close>

lemma parse_media_base:
  assumes "sdp_laws S" "CHR '' '' \<notin> set (fst (desc_fingerprint d))"
    and "media_attributes S m = media_attributes S (base_media S d) @ extra"
  shows "parse_media S K (desc_identity d) m = Inr (d\<lparr>desc_role := announced (desc_role d)\<rparr>,
    List.map_filter (\<lambda>(key, v).
       if key = ''candidate'' then opt_bind v (\<lambda>v. res_ok (parse_ice_candidate K v)) else None) extra)"
proof -
  have "media_attribute S m = first_attribute (media_attributes S (base_media S d) @ extra)"
    using assms by (auto simp: sdp_laws_def)
  moreover have "split_once (CHR '' '') (fst (desc_fingerprint d) @ CHR '' '' # snd (desc_fingerprint d)) =
      Some (desc_fingerprint d)"
    using assms(2) by simp
  moreover have "key_setup S = ''setup''" "key_max_message_size S = ''max-message-size''"
    using assms(1) by (simp_all add: sdp_laws_def)
  ultimately show ?thesis
    using assms parse_setup_role [OF assms(1), of "desc_role d"]
    by (cases d) (simp add: parse_media_def media_attr_def base_media_attributes parse_fingerprint_def
        parse_max_message_size_def media_candidates_def map_filter_simps)
qed

lemma session_of_parts:
  assumes "sdp_laws S"
  shows "session_media S (sdp_session_of S clock m ident) = [m]"
    and "session_attribute S (sdp_session_of S clock m ident) (key_identity S) = ident"
  using assms by (simp_all add: sdp_session_of_def sdp_laws_def split: option.splits)

lemma description_parse_session:
  assumes "sdp_laws S" "reads_back S (sdp_session_of S clock m ident)"
  shows "description_parse S K (sdp_marshal S (sdp_session_of S clock m ident)) = parse_media S K ident m"
  using assms by (simp add: description_parse_def reads_back_def session_of_parts)


lemma parse_media_role: "parse_media S K ident m = Inr (d, cs) \<Longrightarrow> desc_role d \<noteq> DtlsAuto"
  by (auto simp: parse_media_def parse_setup_def res_simps split: if_splits)

lemma parsed_role: "description_parse S K sdp = Inr (d, cs) \<Longrightarrow> desc_role d \<noteq> DtlsAuto"
  unfolding description_parse_def res_bind_eq_Inr
  by (elim exE conjE) (auto dest: parse_media_role split: list.splits)


text \<open>Encoding, then parsing.\<close>

lemma parse_encode_full:
  assumes "sdp_laws S" "CHR '' '' \<notin> set (fst (desc_fingerprint d))"
    and "reads_back S (sdp_session_of S clock (full_media S K d cs) (desc_identity d))"
  shows "description_parse S K (encode_full S K clock d cs) =
    Inr (d\<lparr>desc_role := announced (desc_role d)\<rparr>,
      List.map_filter (\<lambda>(index, c). res_ok (parse_ice_candidate K (attribute_value K index c (ice_ufrag (desc_ice d)))))
        (enumerate 0 cs))"
proof -
  let ?u = "ice_ufrag (desc_ice d)"
  have "media_attributes S (full_media S K d cs) = media_attributes S (base_media S d) @
      map (\<lambda>(index, c). (''candidate'', Some (attribute_value K index c ?u))) (enumerate 0 cs) @
      [(''end-of-candidates'', Some '''')]"
    using candidate_attributes [OF assms(1)] assms(1) by (simp add: full_media_def) (simp add: sdp_laws_def)
  from parse_media_base [OF assms(1,2) this, of K] show ?thesis
    unfolding encode_full_def description_parse_session [OF assms(1,3)]
    by (simp add: List.map_filter_def filter_map comp_def case_prod_unfold)
qed

lemma parse_encode_trickle:
  assumes "sdp_laws S" "CHR '' '' \<notin> set (fst (desc_fingerprint d))"
    and "reads_back S (sdp_session_of S clock (trickle_media S d) (desc_identity d))"
  shows "description_parse S K (encode_trickle S clock d) = Inr (d\<lparr>desc_role := announced (desc_role d)\<rparr>, [])"
proof -
  have "media_attributes S (trickle_media S d) = media_attributes S (base_media S d) @ [(''ice-options'', Some ''trickle'')]"
    using assms(1) by (simp add: trickle_media_def sdp_laws_def)
  from parse_media_base [OF assms(1,2) this, of K] show ?thesis
    unfolding encode_trickle_def description_parse_session [OF assms(1,3)]
    by (simp add: map_filter_simps)
qed


section \<open>An instance\<close>

text \<open>A media section is its attributes, a session its attributes and its media section; the text form has a
  line for each attribute and a line \<open>m\<close> between the two.\<close>

definition attribute_line :: "attribute \<Rightarrow> string" where
  "attribute_line a = (case a of (k, Some v) \<Rightarrow> ''='' @ k @ '':'' @ v | (k, None) \<Rightarrow> ''='' @ k)"

definition line_attribute :: "string \<Rightarrow> attribute" where
  "line_attribute l = (case split_once (CHR '':'') (tl l) of Some (k, v) \<Rightarrow> (k, Some v) | None \<Rightarrow> (tl l, None))"

definition sample_sdp :: "(attribute list, attribute list \<times> attribute list) sdp_ops" where
  "sample_sdp =
    \<lparr>key_setup = ''setup'', key_mid = ''mid'', key_max_message_size = ''max-message-size'',
     key_end_of_candidates = ''end-of-candidates'', key_group = ''group'',
     key_extmap_allow_mixed = ''extmap-allow-mixed'', key_msid_semantic = ''msid-semantic'',
     key_identity = ''identity'', role_text = (\<lambda>r. case r of Active \<Rightarrow> ''active'' | Actpass \<Rightarrow> ''actpass''),
     sdp_media = (\<lambda>n i. []),
     with_ice_credentials = (\<lambda>u p m. m @ [(''ice-ufrag'', Some u), (''ice-pwd'', Some p)]),
     with_fingerprint = (\<lambda>a v m. m @ [(''fingerprint'', Some (a @ '' '' @ v))]),
     with_value_attribute = (\<lambda>k v m. m @ [(k, Some v)]),
     with_candidate = (\<lambda>v m. m @ [(''candidate'', Some v)]),
     media_attribute = first_attribute, media_attributes = id,
     sdp_session = (\<lambda>or n as m. (as, m)),
     session_attribute = (\<lambda>s k. Option.bind (first_attribute (fst s) k) id),
     session_media = (\<lambda>s. [snd s]),
     sdp_marshal = (\<lambda>s. join_with [CHR 0x0A] (map attribute_line (fst s) @ [''m''] @ map attribute_line (snd s))),
     sdp_unmarshal = (\<lambda>t. let ls = split_on (CHR 0x0A) t in
       Inr (map line_attribute (takeWhile (\<lambda>l. l \<noteq> ''m'') ls),
            map line_attribute (tl (dropWhile (\<lambda>l. l \<noteq> ''m'') ls))))\<rparr>"

definition sample_candidates :: "string candidate_ops" where
  "sample_candidates = \<lparr>cand_marshal = id, cand_unmarshal = (\<lambda>t. if t = '''' then Inl ''empty'' else Inr t)\<rparr>"

lemma sample_sdp_laws: "sdp_laws sample_sdp"
  by (simp add: sdp_laws_def sample_sdp_def)

definition sample_description :: description where
  "sample_description =
    \<lparr>desc_ice = \<lparr>ice_ufrag = ''u'', ice_pwd = ''p''\<rparr>, desc_role = DtlsAuto, desc_fingerprint = (''sha-256'', ''AB:CD''),
     desc_max_message_size = 7, desc_identity = Some ''me''\<rparr>"

lemma dec_small: "n < 10 \<Longrightarrow> dec n = [digit_char n]"
  by (simp add: dec.simps)

lemma digit_texts: "char_of (48 :: nat) = CHR ''0''"
  by code_simp

lemma split_join_lines:
  "ls \<noteq> [] \<Longrightarrow> \<forall>l \<in> set ls. c \<notin> set l \<Longrightarrow> split_on c (join_with [c] ls) = ls"
proof (induction ls rule: induct_list012)
  case (2 x)
  then show ?case
    by (simp add: split_on_single)
next
  case (3 x y ys)
  then show ?case
    by (simp add: split_on_append)
qed simp

text \<open>Attributes without line ends are read back.\<close>

definition plain_attribute :: "attribute \<Rightarrow> bool" where
  "plain_attribute a \<longleftrightarrow> CHR '':'' \<notin> set (fst a) \<and> CHR 0x0A \<notin> set (fst a) \<and>
     (case snd a of None \<Rightarrow> True | Some v \<Rightarrow> CHR 0x0A \<notin> set v)"

lemma attribute_line_read:
  "plain_attribute a \<Longrightarrow> line_attribute (attribute_line a) = a \<and> CHR 0x0A \<notin> set (attribute_line a) \<and> attribute_line a \<noteq> ''m''"
proof -
  assume plain: "plain_attribute a"
  obtain k v where a: "a = (k, v)"
    by (cases a)
  show ?thesis
  proof (cases v)
    case None
    with plain a show ?thesis
      by (simp add: plain_attribute_def attribute_line_def line_attribute_def split_once_def)
  next
    case (Some w)
    with plain a show ?thesis
      by (simp add: plain_attribute_def attribute_line_def line_attribute_def)
  qed
qed

lemma sample_reads_back:
  assumes "list_all plain_attribute (fst session)" "list_all plain_attribute (snd session)"
  shows "reads_back sample_sdp session"
proof -
  let ?ls = "map attribute_line (fst session) @ [''m''] @ map attribute_line (snd session)"
  have "split_on (CHR 0x0A) (join_with [CHR 0x0A] ?ls) = ?ls"
    using assms attribute_line_read by (intro split_join_lines) (auto simp: list_all_iff)
  moreover have "takeWhile (\<lambda>l. l \<noteq> ''m'') ?ls = map attribute_line (fst session)"
    "dropWhile (\<lambda>l. l \<noteq> ''m'') ?ls = ''m'' # map attribute_line (snd session)"
    by (subst takeWhile_append2 dropWhile_append2; use assms attribute_line_read in \<open>force simp: list_all_iff\<close>)+
  moreover have "map line_attribute (map attribute_line as) = as" if "list_all plain_attribute as" for as
    using that attribute_line_read by (auto simp: list_all_iff intro: map_idI)
  ultimately show ?thesis
    using assms by (simp add: reads_back_def sample_sdp_def Let_def)
qed

lemma dec_plain: "CHR 0x0A \<notin> set (dec n)"
  by (rule dec_no_sep) (simp add: is_digit_def)

lemma sample_base_plain:
  assumes "CHR 0x0A \<notin> set (ice_ufrag (desc_ice d))" "CHR 0x0A \<notin> set (ice_pwd (desc_ice d))"
    and "CHR 0x0A \<notin> set (fst (desc_fingerprint d))" "CHR 0x0A \<notin> set (snd (desc_fingerprint d))"
  shows "list_all plain_attribute (base_media sample_sdp d)"
  using assms base_media_attributes [OF sample_sdp_laws, of d]
  by (auto simp: sample_sdp_def plain_attribute_def u32_to_string_def dec_plain split: connection_role.splits)

lemma sample_description_reads_back:
  assumes "CHR 0x0A \<notin> set (ice_ufrag (desc_ice d))" "CHR 0x0A \<notin> set (ice_pwd (desc_ice d))"
    and "CHR 0x0A \<notin> set (fst (desc_fingerprint d))" "CHR 0x0A \<notin> set (snd (desc_fingerprint d))"
    and "\<forall>v. desc_identity d = Some v \<longrightarrow> CHR 0x0A \<notin> set v"
    and "\<forall>c \<in> set cs. CHR 0x0A \<notin> set (cand_marshal K c)"
  shows "reads_back sample_sdp (sdp_session_of sample_sdp clock (full_media sample_sdp K d cs) (desc_identity d))"
    and "reads_back sample_sdp (sdp_session_of sample_sdp clock (trickle_media sample_sdp d) (desc_identity d))"
proof -
  have "media_attributes sample_sdp (full_media sample_sdp K d cs) = base_media sample_sdp d @
      map (\<lambda>(index, c). (''candidate'', Some (attribute_value K index c (ice_ufrag (desc_ice d))))) (enumerate 0 cs) @
      [(''end-of-candidates'', Some '''')]"
    using candidate_attributes [OF sample_sdp_laws, of K "ice_ufrag (desc_ice d)" "base_media sample_sdp d" "enumerate 0 cs"]
    by (simp add: full_media_def sample_sdp_def)
  moreover have "list_all plain_attribute
      (map (\<lambda>(index, c). (''candidate'', Some (attribute_value K index c (ice_ufrag (desc_ice d))))) (enumerate 0 cs))"
    using assms(1,6) by (auto simp: list_all_iff plain_attribute_def attribute_value_def dec_plain in_set_enumerate_eq)
  ultimately have full: "list_all plain_attribute (full_media sample_sdp K d cs)"
    using sample_base_plain [OF assms(1-4)] by (simp add: sample_sdp_def plain_attribute_def)
  have trickle: "list_all plain_attribute (trickle_media sample_sdp d)"
    using sample_base_plain [OF assms(1-4)] by (simp add: trickle_media_def sample_sdp_def plain_attribute_def)
  have "list_all plain_attribute (fst (sdp_session_of sample_sdp clock m (desc_identity d)))"
    "snd (sdp_session_of sample_sdp clock m (desc_identity d)) = m" for m
    using assms(5) by (auto simp: sdp_session_of_def sample_sdp_def plain_attribute_def split: option.splits)
  with full trickle show
    "reads_back sample_sdp (sdp_session_of sample_sdp clock (full_media sample_sdp K d cs) (desc_identity d))"
    "reads_back sample_sdp (sdp_session_of sample_sdp clock (trickle_media sample_sdp d) (desc_identity d))"
    by (auto intro: sample_reads_back)
qed


section \<open>Properties\<close>

text \<open>C35: A description that is encoded and parsed again is unchanged but for its role, which comes back as the role
  it announces (a server as server, a client and an undecided side as client).  With candidates in the text
  the candidates returned are those whose attribute text parses, in the order they were given, and in
  trickle mode there are none.  The assumptions are what the SDP crate documents (\<open>sdp_laws\<close>), that it reads back
  the session text it wrote, and that the fingerprint's algorithm name has no space.\<close>

theorem description_round_trip:
  assumes "sdp_laws S" "CHR '' '' \<notin> set (fst (desc_fingerprint d))"
    and "reads_back S (sdp_session_of S clock (full_media S K d cs) (desc_identity d))"
    and "reads_back S (sdp_session_of S clock (trickle_media S d) (desc_identity d))"
  shows "description_parse S K (encode_full S K clock d cs) =
      Inr (d\<lparr>desc_role := announced (desc_role d)\<rparr>,
        List.map_filter (\<lambda>(index, c). res_ok (parse_ice_candidate K (attribute_value K index c (ice_ufrag (desc_ice d)))))
          (enumerate 0 cs)) \<and>
    description_parse S K (encode_trickle S clock d) = Inr (d\<lparr>desc_role := announced (desc_role d)\<rparr>, [])"
  using parse_encode_full [OF assms(1,2,3)] parse_encode_trickle [OF assms(1,2,4)] by simp

theorem description_round_trip_witness:
  "description_parse sample_sdp sample_candidates
     (encode_full sample_sdp sample_candidates (Some 5) sample_description [''1 1 UDP 9 ::1 3 typ host'']) =
   Inr (sample_description\<lparr>desc_role := DtlsClient\<rparr>,
        [''1 1 UDP 9 ::1 3 typ host generation 0 ufrag u network-id 0 network-cost 0''])"
proof -
  have fp: "CHR '' '' \<notin> set (fst (desc_fingerprint sample_description))"
    by (simp add: sample_description_def)
  have plain: "CHR 0x0A \<notin> set (ice_ufrag (desc_ice sample_description))"
    "CHR 0x0A \<notin> set (ice_pwd (desc_ice sample_description))"
    "CHR 0x0A \<notin> set (fst (desc_fingerprint sample_description))"
    "CHR 0x0A \<notin> set (snd (desc_fingerprint sample_description))"
    "\<forall>v. desc_identity sample_description = Some v \<longrightarrow> CHR 0x0A \<notin> set v"
    "\<forall>c \<in> set [''1 1 UDP 9 ::1 3 typ host'']. CHR 0x0A \<notin> set (cand_marshal sample_candidates c)"
    by (simp_all add: sample_description_def sample_candidates_def)
  from description_round_trip [OF sample_sdp_laws fp sample_description_reads_back [OF plain]]
  show ?thesis
    by (simp add: sample_description_def announced_def sample_candidates_def attribute_value_def dec_small digit_char_def
        digit_texts parse_ice_candidate_def strip_prefix_def map_filter_simps)
qed

end
