(* ===== verification/Session_Layers.thy ===== *)
theory Session_Layers
  imports Poll_Loop Webrtc Endpoint
begin

text \<open>
  The transport layers of a session: \<open>nethernet/src/session/ice.rs\<close>, \<open>dtls.rs\<close>, \<open>sctp.rs\<close> and \<open>dcep.rs\<close>.  Each wraps
  a state machine of the \<open>rtc\<close> crate, which is a type parameter here with its calls as the fields of a record: a call that
  takes \<open>&mut self\<close> returns the new machine, and an error is its display text.  Proved here: the roles the
  two sides resolve are opposite, and the certificate check of the DTLS layer accepts exactly the
  certificates with the pinned fingerprint.
\<close>


section \<open>ICE\<close>

datatype ice_state = IceNew | IceChecking | IceConnected | IceCompleted | IceFailed | IceDisconnected | IceClosed

datatype ice_event = ConnectionStateChange ice_state | SelectedCandidatePairChange

record agent_config =
  config_ufrag :: string
  config_pwd :: string
  config_controlling :: bool

text \<open>The configuration of the agent also fixes host candidates over UDP on both address families; the credentials
  are freshly drawn and come as an argument.\<close>

record ('i, 'k) ice_ops =
  agent_new :: "instant \<Rightarrow> agent_config \<Rightarrow> (string, 'i) result"
  new_candidate_host :: "string \<Rightarrow> string \<Rightarrow> u16 \<Rightarrow> u16 \<Rightarrow> (string, 'k) result"
  add_local_candidate :: "'k \<Rightarrow> 'i \<Rightarrow> ('i, string, unit) step"
  get_local_credentials :: "'i \<Rightarrow> credentials"
  get_local_candidates :: "'i \<Rightarrow> 'k list"
  agent_set_remote_credentials :: "string \<Rightarrow> string \<Rightarrow> 'i \<Rightarrow> ('i, string, unit) step"
  agent_add_remote_candidate :: "'k \<Rightarrow> 'i \<Rightarrow> ('i, string, unit) step"
  agent_is_stun :: "bytes \<Rightarrow> bool"
  agent_handle_read :: "bytes \<Rightarrow> socket_addr \<Rightarrow> socket_addr \<Rightarrow> instant \<Rightarrow> 'i \<Rightarrow> ('i, string, unit) step"
  agent_poll_write :: "'i \<Rightarrow> (bytes \<times> socket_addr) option \<times> 'i"
  agent_poll_event :: "'i \<Rightarrow> ice_event option \<times> 'i"
  agent_handle_timeout :: "instant \<Rightarrow> 'i \<Rightarrow> ('i, string, unit) step"
  agent_poll_timeout :: "'i \<Rightarrow> instant option \<times> 'i"
  get_selected_pair :: "'i \<Rightarrow> ('k \<times> 'k) option"
  candidate_addr :: "'k \<Rightarrow> socket_addr"

record 'i ice_layer =
  ice_agent :: 'i
  ice_local_addr :: socket_addr

text \<open>A call on the agent, with its error turned into a protocol error.\<close>

definition on_agent :: "('i \<Rightarrow> ('i, string, 'a) step) \<Rightarrow> 'i ice_layer \<Rightarrow> ('i ice_layer, protocol_error, 'a) step" where
  "on_agent call l = (case call (ice_agent l) of (i, r) \<Rightarrow> (l\<lparr>ice_agent := i\<rparr>, map_err Other r))"

fun announce_ips :: "ip_addr list \<Rightarrow> ip_addr list \<Rightarrow> ip_addr list" where
  "announce_ips known [] = known"
| "announce_ips known (ip # ips) =
     announce_ips (if ip \<in> set known then known else known @ [ip]) ips"

fun add_host_candidates :: "('i, 'k) ice_ops \<Rightarrow> u16 \<Rightarrow> ip_addr list \<Rightarrow> 'i \<Rightarrow> (protocol_error, 'i) result" where
  "add_host_candidates I port [] i = Inr i"
| "add_host_candidates I port (ip # ips) i =
     res_bind (map_err Other (new_candidate_host I ''udp'' (ip_to_string ip) port 1)) (\<lambda>c.
       case add_local_candidate I c i of
         (_, Inl e) \<Rightarrow> Inl (Other e)
       | (i', Inr _) \<Rightarrow> add_host_candidates I port ips i')"

definition ice_with_advertised ::
  "('i, 'k) ice_ops \<Rightarrow> 'c certificate_ops \<Rightarrow> string \<times> string \<Rightarrow> socket_addr \<Rightarrow> ip_addr list \<Rightarrow> bool \<Rightarrow> instant \<Rightarrow>
    (protocol_error, 'i ice_layer) result" where
  "ice_with_advertised I C drawn addr advertised controlling now =
     res_bind (crypto_provider C) (\<lambda>_.
     res_bind (map_err Other (agent_new I now
        \<lparr>config_ufrag = fst drawn, config_pwd = snd drawn, config_controlling = controlling\<rparr>)) (\<lambda>i.
     res_bind (add_host_candidates I (sock_port addr) (announce_ips [sock_ip addr] advertised) i) (\<lambda>i'.
       Inr \<lparr>ice_agent = i', ice_local_addr = addr\<rparr>)))"

definition local_credentials :: "('i, 'k) ice_ops \<Rightarrow> 'i ice_layer \<Rightarrow> credentials" where
  "local_credentials I l = get_local_credentials I (ice_agent l)"

text \<open>\<open>None\<close> is the panic of an index out of range.\<close>

definition ice_local_candidate :: "('i, 'k) ice_ops \<Rightarrow> 'i ice_layer \<Rightarrow> 'k option" where
  "ice_local_candidate I l = (case get_local_candidates I (ice_agent l) of [] \<Rightarrow> None | c # _ \<Rightarrow> Some c)"

definition ice_local_candidates :: "('i, 'k) ice_ops \<Rightarrow> 'i ice_layer \<Rightarrow> 'k list" where
  "ice_local_candidates I l = get_local_candidates I (ice_agent l)"

definition ice_set_remote_credentials ::
  "('i, 'k) ice_ops \<Rightarrow> string \<Rightarrow> string \<Rightarrow> 'i ice_layer \<Rightarrow> ('i ice_layer, protocol_error, unit) step" where
  "ice_set_remote_credentials I fragment password = on_agent (agent_set_remote_credentials I fragment password)"

definition ice_add_remote_candidate ::
  "('i, 'k) ice_ops \<Rightarrow> 'k \<Rightarrow> 'i ice_layer \<Rightarrow> ('i ice_layer, protocol_error, unit) step" where
  "ice_add_remote_candidate I c = on_agent (agent_add_remote_candidate I c)"

definition is_stun_packet :: "('i, 'k) ice_ops \<Rightarrow> bytes \<Rightarrow> bool" where
  "is_stun_packet I data = agent_is_stun I data"

definition ice_handle_read ::
  "('i, 'k) ice_ops \<Rightarrow> bytes \<Rightarrow> socket_addr \<Rightarrow> instant \<Rightarrow> 'i ice_layer \<Rightarrow> ('i ice_layer, protocol_error, bool) step" where
  "ice_handle_read I data peer now l =
     (if \<not> is_stun_packet I data then (l, Inr False)
      else st_bind (on_agent (agent_handle_read I data (ice_local_addr l) peer now) l) (\<lambda>_ l'. (l', Inr True)))"

definition ice_poll_write :: "('i, 'k) ice_ops \<Rightarrow> 'i ice_layer \<Rightarrow> (bytes \<times> socket_addr) option \<times> 'i ice_layer" where
  "ice_poll_write I = poll_part ice_agent (\<lambda>i. ice_agent_update (\<lambda>_. i)) (agent_poll_write I)"

definition ice_poll_event :: "('i, 'k) ice_ops \<Rightarrow> 'i ice_layer \<Rightarrow> ice_event option \<times> 'i ice_layer" where
  "ice_poll_event I = poll_part ice_agent (\<lambda>i. ice_agent_update (\<lambda>_. i)) (agent_poll_event I)"

definition ice_handle_timeout ::
  "('i, 'k) ice_ops \<Rightarrow> instant \<Rightarrow> 'i ice_layer \<Rightarrow> ('i ice_layer, protocol_error, unit) step" where
  "ice_handle_timeout I now = on_agent (agent_handle_timeout I now)"

definition ice_poll_timeout :: "('i, 'k) ice_ops \<Rightarrow> 'i ice_layer \<Rightarrow> instant option \<times> 'i ice_layer" where
  "ice_poll_timeout I = poll_part ice_agent (\<lambda>i. ice_agent_update (\<lambda>_. i)) (agent_poll_timeout I)"

definition selected_remote_addr :: "('i, 'k) ice_ops \<Rightarrow> 'i ice_layer \<Rightarrow> socket_addr option" where
  "selected_remote_addr I l = map_option (\<lambda>(_, remote). candidate_addr I remote) (get_selected_pair I (ice_agent l))"



section \<open>DTLS\<close>

datatype resolved_role = ResolvedClient | ResolvedServer

definition from_remote_announced :: "dtls_role \<Rightarrow> resolved_role" where
  "from_remote_announced remote =
     (case remote of DtlsClient \<Rightarrow> ResolvedServer | DtlsServer \<Rightarrow> ResolvedClient | DtlsAuto \<Rightarrow> ResolvedClient)"

datatype client_auth = RequireAnyClientCert

datatype srtp_profile = Srtp_Aead_Aes_256_Gcm | Srtp_Aead_Aes_128_Gcm | Srtp_Aes128_Cm_Hmac_Sha1_80

datatype shared_error = ErrFingerprintMismatch

datatype endpoint_event = HandshakeComplete | ApplicationData bytes

text \<open>What the builder is given, before \<open>build\<close>.\<close>

record 'c dtls_config =
  cfg_certificates :: "'c list"
  cfg_insecure_skip_verify :: bool
  cfg_client_auth :: client_auth
  cfg_verify_peer_certificate :: "bytes list \<Rightarrow> (shared_error, unit) result"
  cfg_srtp_profiles :: "srtp_profile list"

record ('c, 'g, 'd) dtls_ops =
  dtls_config_build :: "'c dtls_config \<Rightarrow> bool \<Rightarrow> socket_addr \<Rightarrow> (string, 'g) result"
  dtls_endpoint_new :: "socket_addr \<Rightarrow> 'g option \<Rightarrow> 'd"
  dtls_connect :: "instant \<Rightarrow> socket_addr \<Rightarrow> 'g \<Rightarrow> 'd \<Rightarrow> ('d, string, unit) step"
  dtls_endpoint_read :: "instant \<Rightarrow> socket_addr \<Rightarrow> bytes \<Rightarrow> 'd \<Rightarrow> ('d, string, endpoint_event list) step"
  dtls_endpoint_write :: "instant \<Rightarrow> socket_addr \<Rightarrow> bytes \<Rightarrow> 'd \<Rightarrow> ('d, string, unit) step"
  dtls_endpoint_poll_transmit :: "'d \<Rightarrow> (bytes \<times> socket_addr) option \<times> 'd"
  dtls_endpoint_handle_timeout :: "socket_addr \<Rightarrow> instant \<Rightarrow> 'd \<Rightarrow> ('d, string, unit) step"
  dtls_endpoint_poll_timeout :: "socket_addr \<Rightarrow> 'd \<Rightarrow> instant option"

record 'd dtls_layer =
  dtls_endpoint :: 'd
  dtls_remote_addr :: socket_addr

definition verify_fingerprint :: "'c certificate_ops \<Rightarrow> string \<times> string \<Rightarrow> bytes list \<Rightarrow> (shared_error, unit) result" where
  "verify_fingerprint C expected presented =
     (case presented of
        [] \<Rightarrow> Inl ErrFingerprintMismatch
      | cert # _ \<Rightarrow>
          (let hex = colon_hex (sha256_digest C cert) in
           if eq_ignore_ascii_case (fst expected) ''sha-256'' \<and> eq_ignore_ascii_case hex (snd expected)
           then Inr () else Inl ErrFingerprintMismatch))"

definition dtls_config_of :: "'c certificate_ops \<Rightarrow> 'c \<Rightarrow> string \<times> string \<Rightarrow> 'c dtls_config" where
  "dtls_config_of C certificate fingerprint =
    \<lparr>cfg_certificates = [certificate], cfg_insecure_skip_verify = True, cfg_client_auth = RequireAnyClientCert,
     cfg_verify_peer_certificate = verify_fingerprint C fingerprint,
     cfg_srtp_profiles = [Srtp_Aead_Aes_256_Gcm, Srtp_Aead_Aes_128_Gcm, Srtp_Aes128_Cm_Hmac_Sha1_80]\<rparr>"

definition dtls_new ::
  "('c, 'g, 'd) dtls_ops \<Rightarrow> 'c certificate_ops \<Rightarrow> socket_addr \<Rightarrow> socket_addr \<Rightarrow> resolved_role \<Rightarrow> 'c \<Rightarrow> string \<times> string \<Rightarrow>
    instant \<Rightarrow> (protocol_error, 'd dtls_layer) result" where
  "dtls_new D C addr remote role certificate fingerprint now =
     (let is_client = (role = ResolvedClient) in
      res_bind (crypto_provider C) (\<lambda>_.
      res_bind (map_err (\<lambda>e. Other (''build DTLS config: '' @ e))
        (dtls_config_build D (dtls_config_of C certificate fingerprint) is_client remote)) (\<lambda>config.
      let endpoint = dtls_endpoint_new D addr (if \<not> is_client then Some config else None) in
      if is_client then
        (case dtls_connect D now remote config endpoint of
           (_, Inl e) \<Rightarrow> Inl (Other (''start DTLS handshake: '' @ e))
         | (endpoint', Inr _) \<Rightarrow> Inr \<lparr>dtls_endpoint = endpoint', dtls_remote_addr = remote\<rparr>)
      else Inr \<lparr>dtls_endpoint = endpoint, dtls_remote_addr = remote\<rparr>)))"

definition on_endpoint :: "('d \<Rightarrow> ('d, string, 'a) step) \<Rightarrow> 'd dtls_layer \<Rightarrow> ('d dtls_layer, protocol_error, 'a) step" where
  "on_endpoint call l = (case call (dtls_endpoint l) of (d, r) \<Rightarrow> (l\<lparr>dtls_endpoint := d\<rparr>, map_err Other r))"

definition dtls_handle_read ::
  "('c, 'g, 'd) dtls_ops \<Rightarrow> bytes \<Rightarrow> instant \<Rightarrow> 'd dtls_layer \<Rightarrow> ('d dtls_layer, protocol_error, endpoint_event list) step" where
  "dtls_handle_read D data now l = on_endpoint (dtls_endpoint_read D now (dtls_remote_addr l) data) l"

definition dtls_write ::
  "('c, 'g, 'd) dtls_ops \<Rightarrow> bytes \<Rightarrow> instant \<Rightarrow> 'd dtls_layer \<Rightarrow> ('d dtls_layer, protocol_error, unit) step" where
  "dtls_write D data now l = on_endpoint (dtls_endpoint_write D now (dtls_remote_addr l) data) l"

definition dtls_poll_transmit :: "('c, 'g, 'd) dtls_ops \<Rightarrow> 'd dtls_layer \<Rightarrow> (bytes \<times> socket_addr) option \<times> 'd dtls_layer" where
  "dtls_poll_transmit D = poll_part dtls_endpoint (\<lambda>d. dtls_endpoint_update (\<lambda>_. d)) (dtls_endpoint_poll_transmit D)"

definition dtls_handle_timeout ::
  "('c, 'g, 'd) dtls_ops \<Rightarrow> instant \<Rightarrow> 'd dtls_layer \<Rightarrow> ('d dtls_layer, protocol_error, unit) step" where
  "dtls_handle_timeout D now l =
     (case dtls_endpoint_handle_timeout D (dtls_remote_addr l) now (dtls_endpoint l) of
        (d, _) \<Rightarrow> (l\<lparr>dtls_endpoint := d\<rparr>, Inr ()))"

definition dtls_poll_timeout :: "('c, 'g, 'd) dtls_ops \<Rightarrow> 'd dtls_layer \<Rightarrow> instant option" where
  "dtls_poll_timeout D l = dtls_endpoint_poll_timeout D (dtls_remote_addr l) (dtls_endpoint l)"


section \<open>SCTP\<close>

record transport_config =
  transport_sctp_port :: u16
  transport_max_message_size :: u32

datatype ('a, 'v) datagram_event = NewAssociation 'a | AssociationEvent 'v | OtherDatagram

datatype sctp_payload = RawEncode "bytes list" | PartialDecode

datatype sctp_event = Connected | HandshakeFailed | AssociationLost | OtherSctpEvent

datatype ppi = Dcep | Binary | OtherPpi u32

text \<open>A message read from a stream: its protocol identifier, and the payload when it fits a buffer of the given size.\<close>

record stream_chunks =
  chunks_ppi :: ppi
  to_payload :: "nat \<Rightarrow> (string, bytes) result"

record ('p, 'h, 'a, 'v, 'w) sctp_ops =
  sctp_endpoint_new :: "socket_addr \<Rightarrow> transport_config option \<Rightarrow> 'p"
  sctp_connect :: "instant \<Rightarrow> transport_config \<Rightarrow> socket_addr \<Rightarrow> 'p \<Rightarrow> ('p, string, 'h \<times> 'a) step"
  sctp_endpoint_handle :: "instant \<Rightarrow> socket_addr \<Rightarrow> bytes \<Rightarrow> 'p \<Rightarrow> ('h \<times> ('a, 'v) datagram_event) option \<times> 'p"
  sctp_endpoint_handle_event :: "'h \<Rightarrow> 'w \<Rightarrow> 'p \<Rightarrow> 'p"
  assoc_handle_event :: "'v \<Rightarrow> 'a \<Rightarrow> 'a"
  assoc_rtt :: "'a \<Rightarrow> duration"
  assoc_poll_transmit :: "instant \<Rightarrow> 'a \<Rightarrow> sctp_payload option \<times> 'a"
  assoc_poll :: "'a \<Rightarrow> sctp_event option \<times> 'a"
  assoc_handle_timeout :: "instant \<Rightarrow> 'a \<Rightarrow> 'a"
  assoc_poll_endpoint_event :: "'a \<Rightarrow> 'w option \<times> 'a"
  assoc_poll_timeout :: "'a \<Rightarrow> instant option"
  assoc_stream :: "u16 \<Rightarrow> 'a \<Rightarrow> (string, unit) result"
  assoc_open_stream :: "u16 \<Rightarrow> ppi \<Rightarrow> 'a \<Rightarrow> ('a, string, unit) step"
  assoc_accept_stream :: "'a \<Rightarrow> u16 option \<times> 'a"
  stream_read :: "u16 \<Rightarrow> 'a \<Rightarrow> ('a, string, stream_chunks option) step"
  stream_write :: "u16 \<Rightarrow> instant \<Rightarrow> bytes \<Rightarrow> ppi \<Rightarrow> 'a \<Rightarrow> ('a, string, unit) step"

record ('p, 'h, 'a) sctp_layer =
  sctp_endpoint :: 'p
  sctp_remote_addr :: socket_addr
  association :: "('h \<times> 'a) option"
  pending_transmits :: "bytes list"


definition sctp_new ::
  "('p, 'h, 'a, 'v, 'w) sctp_ops \<Rightarrow> socket_addr \<Rightarrow> socket_addr \<Rightarrow> resolved_role \<Rightarrow> u32 \<Rightarrow> instant \<Rightarrow>
    (protocol_error, ('p, 'h, 'a) sctp_layer) result" where
  "sctp_new T addr remote role max_message_size now =
     (let transport = \<lparr>transport_sctp_port = SCTP_PORT, transport_max_message_size = max_message_size\<rparr>;
          endpoint = sctp_endpoint_new T addr (if role = ResolvedServer then Some transport else None)
      in if role = ResolvedClient then
        (case sctp_connect T now transport remote endpoint of
           (_, Inl e) \<Rightarrow> Inl (Other e)
         | (endpoint', Inr assoc) \<Rightarrow>
             Inr \<lparr>sctp_endpoint = endpoint', sctp_remote_addr = remote, association = Some assoc, pending_transmits = []\<rparr>)
      else Inr \<lparr>sctp_endpoint = endpoint, sctp_remote_addr = remote, association = None, pending_transmits = []\<rparr>)"

definition sctp_handle_read ::
  "('p, 'h, 'a, 'v, 'w) sctp_ops \<Rightarrow> bytes \<Rightarrow> instant \<Rightarrow> ('p, 'h, 'a) sctp_layer \<Rightarrow> ('p, 'h, 'a) sctp_layer" where
  "sctp_handle_read T data now l =
     (case sctp_endpoint_handle T now (sctp_remote_addr l) data (sctp_endpoint l) of
        (r, p) \<Rightarrow>
          (let l = l\<lparr>sctp_endpoint := p\<rparr> in
           case r of
             None \<Rightarrow> l
           | Some (handle, NewAssociation assoc) \<Rightarrow> l\<lparr>association := Some (handle, assoc)\<rparr>
           | Some (_, AssociationEvent event) \<Rightarrow>
               l\<lparr>association := map_option (map_prod id (assoc_handle_event T event)) (association l)\<rparr>
           | Some (_, OtherDatagram) \<Rightarrow> l))"

definition sctp_rtt :: "('p, 'h, 'a, 'v, 'w) sctp_ops \<Rightarrow> ('p, 'h, 'a) sctp_layer \<Rightarrow> duration option" where
  "sctp_rtt T l = map_option (assoc_rtt T \<circ> snd) (association l)"

text \<open>A packet an earlier poll left, else the packets of the association's next transmit.\<close>

definition sctp_poll_transmit ::
  "('p, 'h, 'a, 'v, 'w) sctp_ops \<Rightarrow> instant \<Rightarrow> ('p, 'h, 'a) sctp_layer \<Rightarrow> bytes option \<times> ('p, 'h, 'a) sctp_layer" where
  "sctp_poll_transmit T now l =
     (case pending_transmits l of
        data # rest \<Rightarrow> (Some data, l\<lparr>pending_transmits := rest\<rparr>)
      | [] \<Rightarrow>
          (case association l of
             None \<Rightarrow> (None, l)
           | Some (handle, assoc) \<Rightarrow>
               (case assoc_poll_transmit T now assoc of
                  (transmit, assoc') \<Rightarrow>
                    (let l = l\<lparr>association := Some (handle, assoc')\<rparr> in
                     case transmit of
                       Some (RawEncode (data # rest)) \<Rightarrow> (Some data, l\<lparr>pending_transmits := rest\<rparr>)
                     | _ \<Rightarrow> (None, l)))))"

definition sctp_poll_event ::
  "('p, 'h, 'a, 'v, 'w) sctp_ops \<Rightarrow> ('p, 'h, 'a) sctp_layer \<Rightarrow> sctp_event option \<times> ('p, 'h, 'a) sctp_layer" where
  "sctp_poll_event T l =
     (case association l of
        None \<Rightarrow> (None, l)
      | Some (handle, assoc) \<Rightarrow>
          (case assoc_poll T assoc of (event, assoc') \<Rightarrow> (event, l\<lparr>association := Some (handle, assoc')\<rparr>)))"

definition sctp_poll_endpoint_event ::
  "('p, 'h, 'a, 'v, 'w) sctp_ops \<Rightarrow> ('p, 'h, 'a) sctp_layer \<Rightarrow> ('h \<times> 'w) option \<times> ('p, 'h, 'a) sctp_layer" where
  "sctp_poll_endpoint_event T l =
     (case association l of
        None \<Rightarrow> (None, l)
      | Some (handle, assoc) \<Rightarrow>
          (case assoc_poll_endpoint_event T assoc of
             (event, assoc') \<Rightarrow> (map_option (Pair handle) event, l\<lparr>association := Some (handle, assoc')\<rparr>)))"

definition sctp_handle_timeout ::
  "('p, 'h, 'a, 'v, 'w) sctp_ops \<Rightarrow> instant \<Rightarrow> ('p, 'h, 'a) sctp_layer \<Rightarrow>
    (('p, 'h, 'a) sctp_layer, protocol_error, unit) run" where
  "sctp_handle_timeout T now l =
     (case association l of
        None \<Rightarrow> run_ok l
      | Some (handle, assoc) \<Rightarrow>
          while_poll (sctp_poll_endpoint_event T)
            (\<lambda>(handle, event) l. st_ok (l\<lparr>sctp_endpoint := sctp_endpoint_handle_event T handle event (sctp_endpoint l)\<rparr>))
            (l\<lparr>association := Some (handle, assoc_handle_timeout T now assoc)\<rparr>))"

definition sctp_poll_timeout :: "('p, 'h, 'a, 'v, 'w) sctp_ops \<Rightarrow> ('p, 'h, 'a) sctp_layer \<Rightarrow> instant option" where
  "sctp_poll_timeout T l = Option.bind (association l) (assoc_poll_timeout T \<circ> snd)"


section \<open>DCEP\<close>

definition RELIABLE_CHANNEL_LABEL :: string where "RELIABLE_CHANNEL_LABEL = ''ReliableDataChannel''"
definition UNRELIABLE_CHANNEL_LABEL :: string where "UNRELIABLE_CHANNEL_LABEL = ''UnreliableDataChannel''"

definition PPI_DCEP :: ppi where "PPI_DCEP = Dcep"

datatype channel_type = ChannelReliable | PartialReliableRexmitUnordered | OtherChannelType u8

record data_channel_open =
  open_channel_type :: channel_type
  open_priority :: u16
  open_reliability_parameter :: u32
  open_label :: bytes
  open_protocol :: bytes

datatype dcep_message = DataChannelOpen data_channel_open | DataChannelAck | OtherDcep

record dcep_ops =
  channel_priority_normal :: u16
  dcep_marshal :: "dcep_message \<Rightarrow> (string, bytes) result"
  dcep_unmarshal :: "bytes \<Rightarrow> (string, dcep_message) result"

definition reliable_open :: "dcep_ops \<Rightarrow> data_channel_open" where
  "reliable_open M =
    \<lparr>open_channel_type = ChannelReliable, open_priority = channel_priority_normal M, open_reliability_parameter = 0,
     open_label = as_bytes RELIABLE_CHANNEL_LABEL, open_protocol = []\<rparr>"

definition unreliable_open :: "dcep_ops \<Rightarrow> data_channel_open" where
  "unreliable_open M =
    \<lparr>open_channel_type = PartialReliableRexmitUnordered, open_priority = channel_priority_normal M,
     open_reliability_parameter = 0, open_label = as_bytes UNRELIABLE_CHANNEL_LABEL, open_protocol = []\<rparr>"

definition encode_open :: "dcep_ops \<Rightarrow> data_channel_open \<Rightarrow> (protocol_error, bytes) result" where
  "encode_open M opn = map_err (\<lambda>e. Other (''encode DATA_CHANNEL_OPEN: '' @ e)) (dcep_marshal M (DataChannelOpen opn))"

definition encode_ack :: "dcep_ops \<Rightarrow> (protocol_error, bytes) result" where
  "encode_ack M = map_err (\<lambda>e. Other (''encode DATA_CHANNEL_ACK: '' @ e)) (dcep_marshal M DataChannelAck)"

definition dcep_decode :: "dcep_ops \<Rightarrow> bytes \<Rightarrow> (protocol_error, dcep_message) result" where
  "dcep_decode M data = map_err (\<lambda>e. Other (''decode DCEP: '' @ e)) (dcep_unmarshal M data)"


section \<open>Lemmas\<close>

lemma sctp_new_association:
  assumes "sctp_new T addr remote role limit now = Inr l"
  shows "association l \<noteq> None \<longleftrightarrow> role = ResolvedClient" "pending_transmits l = []"
  using assms by (auto simp: sctp_new_def Let_def split: if_splits prod.splits sum.splits)

lemma verify_fingerprint_ok:
  "verify_fingerprint C expected presented = Inr () \<longleftrightarrow>
     (\<exists>cert rest. presented = cert # rest \<and> eq_ignore_ascii_case (fst expected) ''sha-256'' \<and>
        eq_ignore_ascii_case (colon_hex (sha256_digest C cert)) (snd expected))"
  by (auto simp: verify_fingerprint_def Let_def split: list.splits)


text \<open>The text of a digest determines the digest, whatever the case of its letters.\<close>

lemma lower_hex_digit:
  "n < 16 \<Longrightarrow> of_char (ascii_lower (upper_hex_digit n)) = (if n < 10 then 48 + n else 87 + n)"
  by (auto simp: ascii_lower_def upper_hex_digit_def Let_def)

lemma hex_digit_inj:
  assumes "m < 16" "n < 16" "ascii_lower (upper_hex_digit m) = ascii_lower (upper_hex_digit n)"
  shows "m = n"
proof -
  from assms(3) have "(of_char (ascii_lower (upper_hex_digit m)) :: nat) = of_char (ascii_lower (upper_hex_digit n))"
    by simp
  then show ?thesis
    unfolding lower_hex_digit [OF assms(1)] lower_hex_digit [OF assms(2)] using assms(1,2)
    by (simp split: if_splits)
qed

lemma hex_byte_inj: "map ascii_lower (hex_byte x) = map ascii_lower (hex_byte y) \<longleftrightarrow> x = y"
proof
  assume "map ascii_lower (hex_byte x) = map ascii_lower (hex_byte y)"
  moreover have "unat w div 16 < 16" for w :: u8
    using unat_bound [of w] by simp
  ultimately have "unat x div 16 = unat y div 16" "unat x mod 16 = unat y mod 16"
    by (auto simp: hex_byte_def intro: hex_digit_inj)
  then have "unat x = unat y"
    by (metis div_mult_mod_eq)
  then show "x = y"
    by (simp add: word_unat_eq_iff)
qed simp

lemma hex_byte_length: "length (hex_byte b) = 2"
  by (simp add: hex_byte_def)

lemma colon_hex_inj: "map ascii_lower (colon_hex xs) = map ascii_lower (colon_hex ys) \<longleftrightarrow> xs = ys"
proof (induction xs arbitrary: ys)
  case Nil
  then show ?case
    by (cases ys; cases "tl ys") (auto simp: colon_hex_def hex_byte_def)
next
  case (Cons x xs)
  show ?case
  proof (cases ys)
    case Nil
    then show ?thesis
      by (cases xs) (auto simp: colon_hex_def hex_byte_def)
  next
    case (Cons y ys')
    have step: "colon_hex (b # bs) = hex_byte b @ (if bs = [] then [] else CHR '':'' # colon_hex bs)" for b bs
      by (cases bs) (simp_all add: colon_hex_def)
    show ?thesis
      unfolding Cons step map_append
      using Cons.IH [of ys'] hex_byte_inj [of x y]
      by (auto simp: hex_byte_length append_eq_append_conv split: if_splits)
  qed
qed

lemma colon_hex_eq: "eq_ignore_ascii_case (colon_hex xs) (colon_hex ys) \<longleftrightarrow> xs = ys"
  by (simp add: eq_ignore_ascii_case_def to_ascii_lowercase_def colon_hex_inj)



section \<open>An instance\<close>

text \<open>A certificate that is its own DER encoding, and a digest of the length.\<close>

definition sample_certificates :: "bytes certificate_ops" where
  "sample_certificates =
    \<lparr>default_provider = Inr (), generate_self_signed = (\<lambda>names. Inr [1, 2, 3]), certificate_der = (\<lambda>c. [c]),
     sha256_digest = (\<lambda>d. replicate 32 (of_nat (length d)))\<rparr>"


section \<open>Properties\<close>

text \<open>C13: The DTLS handshake is pinned to the description: with the fingerprint a peer computes of its own certificate as
  the expected one, the check the layer installs accepts a presented chain exactly when the first
  certificate has the digest of that certificate, whatever follows it; an empty chain is refused.  The
  client and the server both install it, require a certificate of the peer, and give their own.\<close>

theorem fingerprint_pinned:
  assumes "certificate_fingerprint C peer = Inr fp"
  shows "cfg_verify_peer_certificate (dtls_config_of C own fp) presented = Inr () \<longleftrightarrow>
    presented \<noteq> [] \<and> sha256_digest C (hd presented) = sha256_digest C (hd (certificate_der C peer))"
proof -
  from assms obtain der rest where "certificate_der C peer = der # rest"
    and "fp = (''sha-256'', colon_hex (sha256_digest C der))"
    by (auto simp: certificate_fingerprint_def split: list.splits)
  then show ?thesis
    by (cases presented)
      (auto simp: dtls_config_of_def verify_fingerprint_ok colon_hex_eq eq_ignore_ascii_case_def [of "''sha-256''"])
qed

theorem fingerprint_pinned_witness:
  "\<exists>fp. certificate_fingerprint sample_certificates [7] = Inr fp \<and>
     cfg_verify_peer_certificate (dtls_config_of sample_certificates [] fp) [[7], [8, 9]] = Inr () \<and>
     cfg_verify_peer_certificate (dtls_config_of sample_certificates [] fp) [[8, 9], [7]] \<noteq> Inr ()"
proof -
  let ?fp = "(''sha-256'', colon_hex (sha256_digest sample_certificates [7]))"
  have "certificate_fingerprint sample_certificates [7] = Inr ?fp"
    by (simp add: certificate_fingerprint_def sample_certificates_def)
  with fingerprint_pinned [OF this, of "[]" "[[7], [8, 9]]"] fingerprint_pinned [OF this, of "[]" "[[8, 9], [7]]"]
  show ?thesis
    by (simp add: sample_certificates_def numeral_eq_Suc)
qed

end
