(* ===== verification/Session.thy ===== *)
theory Session
  imports Session_Layers Message_Framing
begin

text \<open>
  \<open>nethernet/src/session/mod.rs\<close>: one session, ICE under DTLS under SCTP, with a reliable and an unreliable data
  channel.  The handlers are runs on the session record: a run is \<open>None\<close> when a loop over a foreign machine never
  ends, and an error keeps the state the handler had reached.  The calls on the machines are the fields
  of \<open>session_ops\<close>.
\<close>

definition RELIABLE_STREAM_ID :: u16 where "RELIABLE_STREAM_ID = 1"
definition MAX_EARLY_PACKETS :: nat where "MAX_EARLY_PACKETS = 8"
definition UNRELIABLE_STREAM_ID :: u16 where "UNRELIABLE_STREAM_ID = 3"
definition DEFAULT_ESTABLISH_DEADLINE :: duration where "DEFAULT_ESTABLISH_DEADLINE = 10 * second"

datatype channel = Reliable | Unreliable

datatype session_event = Ready | Failed

datatype session_output =
    SendPacket bytes socket_addr
  | Event session_event
  | Message channel bytes
  | Wait duration

datatype 'k session_input =
    Packet bytes socket_addr instant
  | RemoteDescription description "'k list" instant
  | RemoteCandidate 'k instant
  | SendMessage channel bytes instant
  | Timeout instant

record channels =
  reliable_stream_id :: "u16 option"
  unreliable_stream_id :: "u16 option"
  reassembly :: message
  ready_emitted :: bool
  failed_emitted :: bool

definition channels_default :: channels where
  "channels_default =
    \<lparr>reliable_stream_id = None, unreliable_stream_id = None, reassembly = message_new, ready_emitted = False,
     failed_emitted = False\<rparr>"

definition stream_id :: "channels \<Rightarrow> channel \<Rightarrow> u16 option" where
  "stream_id ch channel = (case channel of Reliable \<Rightarrow> reliable_stream_id ch | Unreliable \<Rightarrow> unreliable_stream_id ch)"

definition set_open :: "channel \<Rightarrow> u16 \<Rightarrow> channels \<Rightarrow> channels" where
  "set_open channel sid ch =
     (case channel of
        Reliable \<Rightarrow> ch\<lparr>reliable_stream_id := Some sid\<rparr>
      | Unreliable \<Rightarrow> ch\<lparr>unreliable_stream_id := Some sid\<rparr>)"

record ('i, 'c, 'd, 'p, 'h, 'a) session =
  is_controlling :: bool
  session_local_addr :: socket_addr
  session_ice :: "'i ice_layer"
  session_certificate :: "'c option"
  pending_role_fingerprint :: "(resolved_role \<times> string \<times> string) option"
  remote_max_message_size :: u32
  early_packets :: "bytes list"
  session_remote :: "socket_addr option"
  session_dtls :: "'d dtls_layer option"
  session_sctp :: "('p, 'h, 'a) sctp_layer option"
  session_channels :: channels
  session_output :: "session_output list"
  establish_within :: duration
  establish_started :: "instant option"

text \<open>The foreign machines, in the order of the layers.\<close>

record ('i, 'k, 'c, 'g, 'd, 'p, 'h, 'a, 'v, 'w) session_ops =
  ice_calls :: "('i, 'k) ice_ops"
  cert_calls :: "'c certificate_ops"
  dtls_calls :: "('c, 'g, 'd) dtls_ops"
  sctp_calls :: "('p, 'h, 'a, 'v, 'w) sctp_ops"
  dcep_calls :: dcep_ops

type_synonym ('i, 'c, 'd, 'p, 'h, 'a) session_run = "(('i, 'c, 'd, 'p, 'h, 'a) session, protocol_error, unit) run"


section \<open>Creation and accessors\<close>

definition with_advertised ::
  "('i, 'k, 'c, 'g, 'd, 'p, 'h, 'a, 'v, 'w) session_ops \<Rightarrow> string \<times> string \<Rightarrow> socket_addr \<Rightarrow> ip_addr list \<Rightarrow> bool \<Rightarrow> instant \<Rightarrow>
    (protocol_error, ('i, 'c, 'd, 'p, 'h, 'a) session \<times> description) result" where
  "with_advertised X drawn addr advertised controlling now =
     res_bind (ice_with_advertised (ice_calls X) (cert_calls X) drawn addr advertised controlling now) (\<lambda>ice.
     res_bind (certificate_generate (cert_calls X)) (\<lambda>certificate.
     res_bind (certificate_fingerprint (cert_calls X) certificate) (\<lambda>fingerprint.
       Inr (\<lparr>is_controlling = controlling, session_local_addr = addr, session_ice = ice,
             session_certificate = Some certificate, pending_role_fingerprint = None,
             remote_max_message_size = SCTP_MAX_MESSAGE_SIZE, early_packets = [], session_remote = None,
             session_dtls = None, session_sctp = None, session_channels = channels_default, session_output = [],
             establish_within = DEFAULT_ESTABLISH_DEADLINE, establish_started = None\<rparr>,
            \<lparr>desc_ice = local_credentials (ice_calls X) ice,
             desc_role = (if controlling then DtlsServer else DtlsAuto),
             desc_fingerprint = fingerprint, desc_max_message_size = LOCAL_SCTP_MAX_MESSAGE_SIZE,
             desc_identity = None\<rparr>))))"

definition session_new ::
  "('i, 'k, 'c, 'g, 'd, 'p, 'h, 'a, 'v, 'w) session_ops \<Rightarrow> string \<times> string \<Rightarrow> socket_addr \<Rightarrow> bool \<Rightarrow> instant \<Rightarrow>
    (protocol_error, ('i, 'c, 'd, 'p, 'h, 'a) session \<times> description) result" where
  "session_new X drawn addr controlling now = with_advertised X drawn addr [] controlling now"

definition set_establish_deadline ::
  "duration \<Rightarrow> ('i, 'c, 'd, 'p, 'h, 'a) session \<Rightarrow> ('i, 'c, 'd, 'p, 'h, 'a) session" where
  "set_establish_deadline within s = s\<lparr>establish_within := within\<rparr>"

definition session_local_candidate ::
  "('i, 'k, 'c, 'g, 'd, 'p, 'h, 'a, 'v, 'w) session_ops \<Rightarrow> ('i, 'c, 'd, 'p, 'h, 'a) session \<Rightarrow> 'k option" where
  "session_local_candidate X s = ice_local_candidate (ice_calls X) (session_ice s)"

definition session_local_candidates ::
  "('i, 'k, 'c, 'g, 'd, 'p, 'h, 'a, 'v, 'w) session_ops \<Rightarrow> ('i, 'c, 'd, 'p, 'h, 'a) session \<Rightarrow> 'k list" where
  "session_local_candidates X s = ice_local_candidates (ice_calls X) (session_ice s)"

definition session_remote_addr ::
  "('i, 'k, 'c, 'g, 'd, 'p, 'h, 'a, 'v, 'w) session_ops \<Rightarrow> ('i, 'c, 'd, 'p, 'h, 'a) session \<Rightarrow> socket_addr option" where
  "session_remote_addr X s =
     (case selected_remote_addr (ice_calls X) (session_ice s) of Some a \<Rightarrow> Some a | None \<Rightarrow> session_remote s)"

definition session_rtt ::
  "('i, 'k, 'c, 'g, 'd, 'p, 'h, 'a, 'v, 'w) session_ops \<Rightarrow> ('i, 'c, 'd, 'p, 'h, 'a) session \<Rightarrow> duration option" where
  "session_rtt X s = Option.bind (session_sctp s) (sctp_rtt (sctp_calls X))"

definition push_output ::
  "session_output \<Rightarrow> ('i, 'c, 'd, 'p, 'h, 'a) session \<Rightarrow> ('i, 'c, 'd, 'p, 'h, 'a) session" where
  "push_output out s = s\<lparr>session_output := session_output s @ [out]\<rparr>"

definition fail :: "('i, 'c, 'd, 'p, 'h, 'a) session \<Rightarrow> ('i, 'c, 'd, 'p, 'h, 'a) session" where
  "fail s =
     (if failed_emitted (session_channels s) then s
      else push_output (Event Failed) (s\<lparr>session_channels := session_channels s\<lparr>failed_emitted := True\<rparr>\<rparr>))"

definition establish_deadline :: "('i, 'c, 'd, 'p, 'h, 'a) session \<Rightarrow> instant option" where
  "establish_deadline s =
     (if ready_emitted (session_channels s) \<or> failed_emitted (session_channels s) then None
      else map_option (\<lambda>at. at + establish_within s) (establish_started s))"

text \<open>The least of the deadlines there are.\<close>

definition least_instant :: "instant option list \<Rightarrow> instant option" where
  "least_instant ds = (case List.map_filter id ds of [] \<Rightarrow> None | d # rest \<Rightarrow> Some (foldl min d rest))"

definition session_poll_timeout ::
  "('i, 'k, 'c, 'g, 'd, 'p, 'h, 'a, 'v, 'w) session_ops \<Rightarrow> ('i, 'c, 'd, 'p, 'h, 'a) session \<Rightarrow>
    instant option \<times> ('i, 'c, 'd, 'p, 'h, 'a) session" where
  "session_poll_timeout X s =
     (case ice_poll_timeout (ice_calls X) (session_ice s) of
        (ice_deadline, ice) \<Rightarrow>
          (least_instant
             [establish_deadline s, ice_deadline,
              Option.bind (session_dtls s) (dtls_poll_timeout (dtls_calls X)),
              Option.bind (session_sctp s) (sctp_poll_timeout (sctp_calls X))],
           s\<lparr>session_ice := ice\<rparr>))"

definition push_wait ::
  "('i, 'k, 'c, 'g, 'd, 'p, 'h, 'a, 'v, 'w) session_ops \<Rightarrow> instant \<Rightarrow> ('i, 'c, 'd, 'p, 'h, 'a) session \<Rightarrow>
    ('i, 'c, 'd, 'p, 'h, 'a) session" where
  "push_wait X now s =
     (case session_poll_timeout X s of
        (Some deadline, s') \<Rightarrow> push_output (Wait (deadline - now)) s'
      | (None, s') \<Rightarrow> s')"



section \<open>Data channels\<close>

text \<open>What \<open>open_channels_if_controlling\<close> and \<open>drain_dcep_and_data\<close> borrow: the association, the channels and the
  queue of outputs.\<close>

record 'a exchange =
  ex_assoc :: 'a
  ex_channels :: channels
  ex_output :: "session_output list"

definition on_assoc :: "('a \<Rightarrow> ('a, string, 'x) step) \<Rightarrow> 'a exchange \<Rightarrow> ('a exchange, protocol_error, 'x) step" where
  "on_assoc call e = (case call (ex_assoc e) of (a, r) \<Rightarrow> (e\<lparr>ex_assoc := a\<rparr>, map_err Other r))"

definition open_channel ::
  "('p, 'h, 'a, 'v, 'w) sctp_ops \<Rightarrow> dcep_ops \<Rightarrow> instant \<Rightarrow> u16 \<Rightarrow> channel \<Rightarrow> data_channel_open \<Rightarrow> 'a exchange \<Rightarrow>
    ('a exchange, protocol_error, unit) step" where
  "open_channel T M now sid channel opn e =
     st_bind (on_assoc (assoc_open_stream T sid Binary) e) (\<lambda>_ e.
     st_bind (e, encode_open M opn) (\<lambda>encoded e.
     st_bind (on_assoc (stream_write T sid now encoded PPI_DCEP) e) (\<lambda>_ e.
       st_ok (e\<lparr>ex_channels := set_open channel sid (ex_channels e)\<rparr>))))"

definition open_channels ::
  "('p, 'h, 'a, 'v, 'w) sctp_ops \<Rightarrow> dcep_ops \<Rightarrow> instant \<Rightarrow> 'a exchange \<Rightarrow> ('a exchange, protocol_error, unit) step" where
  "open_channels T M now e =
     st_bind (open_channel T M now RELIABLE_STREAM_ID Reliable (reliable_open M) e) (\<lambda>_ e.
       open_channel T M now UNRELIABLE_STREAM_ID Unreliable (unreliable_open M) e)"

definition channel_of_label :: "bytes \<Rightarrow> channel option" where
  "channel_of_label lbl =
     (if lbl = as_bytes RELIABLE_CHANNEL_LABEL then Some Reliable
      else if lbl = as_bytes UNRELIABLE_CHANNEL_LABEL then Some Unreliable
      else None)"

definition poll_accept :: "('p, 'h, 'a, 'v, 'w) sctp_ops \<Rightarrow> 'a exchange \<Rightarrow> u16 option \<times> 'a exchange" where
  "poll_accept T = poll_part ex_assoc (\<lambda>a. ex_assoc_update (\<lambda>_. a)) (assoc_accept_stream T)"

text \<open>The open request of an accepted stream, when its first message is one.\<close>

definition requested_channel :: "dcep_ops \<Rightarrow> (string, stream_chunks option) result \<Rightarrow> channel option" where
  "requested_channel M read =
     (case read of
        Inr (Some chunks) \<Rightarrow>
          (case to_payload chunks 4096 of
             Inr data \<Rightarrow>
               (case dcep_decode M data of
                  Inr (DataChannelOpen opn) \<Rightarrow> channel_of_label (open_label opn)
                | _ \<Rightarrow> None)
           | Inl _ \<Rightarrow> None)
      | _ \<Rightarrow> None)"

definition accept_channel ::
  "('p, 'h, 'a, 'v, 'w) sctp_ops \<Rightarrow> dcep_ops \<Rightarrow> instant \<Rightarrow> u16 \<Rightarrow> 'a exchange \<Rightarrow> ('a exchange, protocol_error, unit) step" where
  "accept_channel T M now sid e =
     (case stream_read T sid (ex_assoc e) of
        (a, read) \<Rightarrow>
          (let e = e\<lparr>ex_assoc := a\<rparr> in
           case requested_channel M read of
             None \<Rightarrow> st_ok e
           | Some channel \<Rightarrow>
               st_bind (e, encode_ack M) (\<lambda>ack e.
               st_bind (on_assoc (stream_write T sid now ack PPI_DCEP) e) (\<lambda>_ e.
                 st_ok (e\<lparr>ex_channels := set_open channel sid (ex_channels e)\<rparr>)))))"

definition poll_read :: "('p, 'h, 'a, 'v, 'w) sctp_ops \<Rightarrow> u16 \<Rightarrow> 'a exchange \<Rightarrow> stream_chunks option \<times> 'a exchange" where
  "poll_read T sid e =
     (case stream_read T sid (ex_assoc e) of
        (a, Inr (Some chunks)) \<Rightarrow> (Some chunks, e\<lparr>ex_assoc := a\<rparr>)
      | (a, _) \<Rightarrow> (None, e\<lparr>ex_assoc := a\<rparr>))"

definition MAX_PAYLOAD :: nat where "MAX_PAYLOAD = 1048576"

definition receive_segment :: "channel \<Rightarrow> message_segment \<Rightarrow> 'a exchange \<Rightarrow> 'a exchange" where
  "receive_segment channel segment e =
     (case channel of
        Reliable \<Rightarrow>
          (case add_segment (reassembly (ex_channels e)) segment of
             (m, r) \<Rightarrow>
               (let e = e\<lparr>ex_channels := ex_channels e\<lparr>reassembly := m\<rparr>\<rparr> in
                case r of
                  Inr (Some msg) \<Rightarrow> e\<lparr>ex_output := ex_output e @ [Message Reliable msg]\<rparr>
                | _ \<Rightarrow> e))
      | Unreliable \<Rightarrow>
          if remaining_segments segment = 0
          then e\<lparr>ex_output := ex_output e @ [Message Unreliable (seg_data segment)]\<rparr>
          else e)"

definition receive_chunks :: "channel \<Rightarrow> stream_chunks \<Rightarrow> 'a exchange \<Rightarrow> 'a exchange" where
  "receive_chunks channel chunks e =
     (case to_payload chunks MAX_PAYLOAD of
        Inl _ \<Rightarrow> e
      | Inr data \<Rightarrow>
          if chunks_ppi chunks = Dcep then e
          else (case segment_decode data of
                  Inl _ \<Rightarrow> e
                | Inr segment \<Rightarrow> receive_segment channel segment e))"

definition drain_channel ::
  "('p, 'h, 'a, 'v, 'w) sctp_ops \<Rightarrow> channel \<Rightarrow> 'a exchange \<Rightarrow> ('a exchange, protocol_error, unit) run" where
  "drain_channel T channel e =
     (case stream_id (ex_channels e) channel of
        None \<Rightarrow> run_ok e
      | Some sid \<Rightarrow>
          (case assoc_stream T sid (ex_assoc e) of
             Inl _ \<Rightarrow> run_ok e
           | Inr _ \<Rightarrow> while_poll (poll_read T sid) (\<lambda>chunks e. st_ok (receive_chunks channel chunks e)) e))"

definition drain_exchange ::
  "('p, 'h, 'a, 'v, 'w) sctp_ops \<Rightarrow> dcep_ops \<Rightarrow> instant \<Rightarrow> 'a exchange \<Rightarrow> ('a exchange, protocol_error, unit) run" where
  "drain_exchange T M now e =
     run_bind (while_poll (poll_accept T) (accept_channel T M now) e) (\<lambda>_ e.
     run_bind (drain_channel T Reliable e) (\<lambda>_ e.
       drain_channel T Unreliable e))"


section \<open>The transports\<close>

record ('d, 'p, 'h, 'a) transports =
  tp_sctp :: "('p, 'h, 'a) sctp_layer"
  tp_dtls :: "'d dtls_layer"
  tp_channels :: channels
  tp_output :: "session_output list"
  tp_failed :: bool

definition borrow :: "'a \<Rightarrow> ('d, 'p, 'h, 'a) transports \<Rightarrow> 'a exchange" where
  "borrow a t = \<lparr>ex_assoc = a, ex_channels = tp_channels t, ex_output = tp_output t\<rparr>"

definition give_back :: "'h \<Rightarrow> 'a exchange \<Rightarrow> ('d, 'p, 'h, 'a) transports \<Rightarrow> ('d, 'p, 'h, 'a) transports" where
  "give_back h e t =
     t\<lparr>tp_sctp := tp_sctp t\<lparr>association := Some (h, ex_assoc e)\<rparr>, tp_channels := ex_channels e, tp_output := ex_output e\<rparr>"

definition open_channels_if_controlling ::
  "('p, 'h, 'a, 'v, 'w) sctp_ops \<Rightarrow> dcep_ops \<Rightarrow> bool \<Rightarrow> instant \<Rightarrow> ('d, 'p, 'h, 'a) transports \<Rightarrow>
    (('d, 'p, 'h, 'a) transports, protocol_error, unit) step" where
  "open_channels_if_controlling T M controlling now t =
     (if \<not> controlling then st_ok t
      else case association (tp_sctp t) of
        None \<Rightarrow> st_ok t
      | Some (h, a) \<Rightarrow> map_prod (\<lambda>e. give_back h e t) id (open_channels T M now (borrow a t)))"

definition handle_sctp_event ::
  "('p, 'h, 'a, 'v, 'w) sctp_ops \<Rightarrow> dcep_ops \<Rightarrow> bool \<Rightarrow> instant \<Rightarrow> sctp_event \<Rightarrow> ('d, 'p, 'h, 'a) transports \<Rightarrow>
    (('d, 'p, 'h, 'a) transports, protocol_error, unit) step" where
  "handle_sctp_event T M controlling now event t =
     (case event of
        Connected \<Rightarrow> open_channels_if_controlling T M controlling now t
      | HandshakeFailed \<Rightarrow> st_ok (t\<lparr>tp_failed := True\<rparr>)
      | AssociationLost \<Rightarrow> st_ok (t\<lparr>tp_failed := True\<rparr>)
      | OtherSctpEvent \<Rightarrow> st_ok t)"

definition drain_dcep_and_data ::
  "('p, 'h, 'a, 'v, 'w) sctp_ops \<Rightarrow> dcep_ops \<Rightarrow> instant \<Rightarrow> ('d, 'p, 'h, 'a) transports \<Rightarrow>
    (('d, 'p, 'h, 'a) transports, protocol_error, unit) run" where
  "drain_dcep_and_data T M now t =
     (case association (tp_sctp t) of
        None \<Rightarrow> run_ok t
      | Some (h, a) \<Rightarrow> map_option (map_prod (\<lambda>e. give_back h e t) id) (drain_exchange T M now (borrow a t)))"


definition drive_transports ::
  "('i, 'k, 'c, 'g, 'd, 'p, 'h, 'a, 'v, 'w) session_ops \<Rightarrow> bool \<Rightarrow> instant \<Rightarrow> ('d, 'p, 'h, 'a) transports \<Rightarrow>
    (('d, 'p, 'h, 'a) transports, protocol_error, unit) run" where
  "drive_transports X controlling now t =
     run_bind (while_poll (poll_part tp_sctp (\<lambda>l. tp_sctp_update (\<lambda>_. l)) (sctp_poll_event (sctp_calls X)))
       (handle_sctp_event (sctp_calls X) (dcep_calls X) controlling now) t) (\<lambda>_ t.
     run_bind (drain_dcep_and_data (sctp_calls X) (dcep_calls X) now t) (\<lambda>_ t.
     run_bind (while_poll (poll_part tp_sctp (\<lambda>l. tp_sctp_update (\<lambda>_. l)) (sctp_poll_transmit (sctp_calls X) now))
       (\<lambda>packet t. case dtls_write (dtls_calls X) packet now (tp_dtls t) of (d, r) \<Rightarrow> (t\<lparr>tp_dtls := d\<rparr>, r)) t) (\<lambda>_ t.
       while_poll (poll_part tp_dtls (\<lambda>d. tp_dtls_update (\<lambda>_. d)) (dtls_poll_transmit (dtls_calls X)))
         (\<lambda>(data, to) t. st_ok (t\<lparr>tp_output := tp_output t @ [SendPacket data to]\<rparr>)) t)))"

definition take_transports ::
  "('p, 'h, 'a) sctp_layer \<Rightarrow> 'd dtls_layer \<Rightarrow> ('i, 'c, 'd, 'p, 'h, 'a) session \<Rightarrow> ('d, 'p, 'h, 'a) transports" where
  "take_transports sctp dtls s =
    \<lparr>tp_sctp = sctp, tp_dtls = dtls, tp_channels = session_channels s, tp_output = session_output s, tp_failed = False\<rparr>"

definition put_transports ::
  "('d, 'p, 'h, 'a) transports \<Rightarrow> ('i, 'c, 'd, 'p, 'h, 'a) session \<Rightarrow> ('i, 'c, 'd, 'p, 'h, 'a) session" where
  "put_transports t s =
     s\<lparr>session_sctp := Some (tp_sctp t), session_dtls := Some (tp_dtls t), session_channels := tp_channels t,
       session_output := tp_output t\<rparr>"

definition pump_transports ::
  "('i, 'k, 'c, 'g, 'd, 'p, 'h, 'a, 'v, 'w) session_ops \<Rightarrow> instant \<Rightarrow> ('i, 'c, 'd, 'p, 'h, 'a) session \<Rightarrow>
    ('i, 'c, 'd, 'p, 'h, 'a) session_run" where
  "pump_transports X now s =
     (case (session_sctp s, session_dtls s) of
        (Some sctp, Some dtls) \<Rightarrow>
          (case drive_transports X (is_controlling s) now (take_transports sctp dtls s) of
             None \<Rightarrow> None
           | Some (t, Inl e) \<Rightarrow> Some (put_transports t s, Inl e)
           | Some (t, Inr _) \<Rightarrow> run_ok (if tp_failed t then fail (put_transports t s) else put_transports t s))
      | _ \<Rightarrow> run_ok s)"

definition handle_dtls_event ::
  "('i, 'k, 'c, 'g, 'd, 'p, 'h, 'a, 'v, 'w) session_ops \<Rightarrow> instant \<Rightarrow> endpoint_event \<Rightarrow>
    ('i, 'c, 'd, 'p, 'h, 'a) session \<Rightarrow> ('i, 'c, 'd, 'p, 'h, 'a) session" where
  "handle_dtls_event X now event s =
     (case event of
        ApplicationData data \<Rightarrow> s\<lparr>session_sctp := map_option (sctp_handle_read (sctp_calls X) data now) (session_sctp s)\<rparr>
      | HandshakeComplete \<Rightarrow> s)"

definition read_dtls ::
  "('i, 'k, 'c, 'g, 'd, 'p, 'h, 'a, 'v, 'w) session_ops \<Rightarrow> bytes \<Rightarrow> instant \<Rightarrow> ('i, 'c, 'd, 'p, 'h, 'a) session \<Rightarrow>
    (('i, 'c, 'd, 'p, 'h, 'a) session, protocol_error, unit) step" where
  "read_dtls X data now s =
     (case session_dtls s of
        None \<Rightarrow> st_ok s
      | Some dtls \<Rightarrow>
          (case dtls_handle_read (dtls_calls X) data now dtls of
             (dtls', Inl e) \<Rightarrow> (s\<lparr>session_dtls := Some dtls'\<rparr>, Inl e)
           | (dtls', Inr events) \<Rightarrow>
               st_ok (foldl (\<lambda>s event. handle_dtls_event X now event s) (s\<lparr>session_dtls := Some dtls'\<rparr>) events)))"

fun read_early ::
  "('i, 'k, 'c, 'g, 'd, 'p, 'h, 'a, 'v, 'w) session_ops \<Rightarrow> instant \<Rightarrow> bytes list \<Rightarrow> ('i, 'c, 'd, 'p, 'h, 'a) session \<Rightarrow>
    (('i, 'c, 'd, 'p, 'h, 'a) session, protocol_error, unit) step" where
  "read_early X now [] s = st_ok s"
| "read_early X now (packet # packets) s = st_bind (read_dtls X packet now s) (\<lambda>_ s. read_early X now packets s)"

definition start_transports ::
  "('i, 'k, 'c, 'g, 'd, 'p, 'h, 'a, 'v, 'w) session_ops \<Rightarrow> socket_addr \<Rightarrow> resolved_role \<Rightarrow> string \<times> string \<Rightarrow> instant \<Rightarrow>
    ('i, 'c, 'd, 'p, 'h, 'a) session \<Rightarrow> (('i, 'c, 'd, 'p, 'h, 'a) session, protocol_error, unit) step" where
  "start_transports X remote role fingerprint now s =
     st_bind (s\<lparr>session_certificate := None\<rparr>,
       ok_or (Other ''transports already started'') (session_certificate s)) (\<lambda>certificate s.
     st_bind (s, dtls_new (dtls_calls X) (cert_calls X) (session_local_addr s) remote role certificate fingerprint now)
       (\<lambda>dtls s.
     st_bind (s, sctp_new (sctp_calls X) (session_local_addr s) remote role (remote_max_message_size s) now) (\<lambda>sctp s.
       st_ok (s\<lparr>session_remote := Some remote, session_dtls := Some dtls, session_sctp := Some sctp\<rparr>))))"

definition start_transports_on_selected_pair ::
  "('i, 'k, 'c, 'g, 'd, 'p, 'h, 'a, 'v, 'w) session_ops \<Rightarrow> instant \<Rightarrow> ('i, 'c, 'd, 'p, 'h, 'a) session \<Rightarrow>
    (('i, 'c, 'd, 'p, 'h, 'a) session, protocol_error, unit) step" where
  "start_transports_on_selected_pair X now s =
     (if session_dtls s \<noteq> None then st_ok s
      else case selected_remote_addr (ice_calls X) (session_ice s) of
        None \<Rightarrow> st_ok s
      | Some remote \<Rightarrow>
          (case pending_role_fingerprint s of
             None \<Rightarrow> st_ok s
           | Some (role, fingerprint) \<Rightarrow>
               st_bind (start_transports X remote role fingerprint now (s\<lparr>pending_role_fingerprint := None\<rparr>)) (\<lambda>_ s.
                 read_early X now (early_packets s) (s\<lparr>early_packets := []\<rparr>))))"

definition ice_gone :: "ice_event \<Rightarrow> bool" where
  "ice_gone event =
     (case event of
        ConnectionStateChange state \<Rightarrow> state \<in> {IceFailed, IceDisconnected, IceClosed}
      | SelectedCandidatePairChange \<Rightarrow> False)"

definition emit_ready :: "('i, 'c, 'd, 'p, 'h, 'a) session \<Rightarrow> ('i, 'c, 'd, 'p, 'h, 'a) session" where
  "emit_ready s =
     (if reliable_stream_id (session_channels s) \<noteq> None \<and> unreliable_stream_id (session_channels s) \<noteq> None \<and>
         \<not> ready_emitted (session_channels s)
      then push_output (Event Ready) (s\<lparr>session_channels := session_channels s\<lparr>ready_emitted := True\<rparr>\<rparr>)
      else s)"

definition fail_when_overdue :: "instant \<Rightarrow> ('i, 'c, 'd, 'p, 'h, 'a) session \<Rightarrow> ('i, 'c, 'd, 'p, 'h, 'a) session" where
  "fail_when_overdue now s =
     (case establish_deadline s of Some deadline \<Rightarrow> if now \<ge> deadline then fail s else s | None \<Rightarrow> s)"

definition pump ::
  "('i, 'k, 'c, 'g, 'd, 'p, 'h, 'a, 'v, 'w) session_ops \<Rightarrow> instant \<Rightarrow> ('i, 'c, 'd, 'p, 'h, 'a) session \<Rightarrow>
    ('i, 'c, 'd, 'p, 'h, 'a) session_run" where
  "pump X now s =
     run_bind (while_poll (poll_part session_ice (\<lambda>l. session_ice_update (\<lambda>_. l)) (ice_poll_write (ice_calls X)))
       (\<lambda>(data, to) s. st_ok (push_output (SendPacket data to) s)) s) (\<lambda>_ s.
     run_bind (while_poll (poll_part session_ice (\<lambda>l. session_ice_update (\<lambda>_. l)) (ice_poll_event (ice_calls X)))
       (\<lambda>event s. st_ok (if ice_gone event then fail s else s)) s) (\<lambda>_ s.
     run_bind (Some (start_transports_on_selected_pair X now s)) (\<lambda>_ s.
     run_bind (pump_transports X now s) (\<lambda>_ s.
       run_ok (fail_when_overdue now (emit_ready s))))))"


section \<open>The handlers\<close>

definition on_ice ::
  "('i ice_layer \<Rightarrow> ('i ice_layer, protocol_error, 'x) step) \<Rightarrow> ('i, 'c, 'd, 'p, 'h, 'a) session \<Rightarrow>
    (('i, 'c, 'd, 'p, 'h, 'a) session, protocol_error, 'x) step" where
  "on_ice call s = (case call (session_ice s) of (l, r) \<Rightarrow> (s\<lparr>session_ice := l\<rparr>, r))"

fun add_remote_candidates ::
  "('i, 'k, 'c, 'g, 'd, 'p, 'h, 'a, 'v, 'w) session_ops \<Rightarrow> 'k list \<Rightarrow> ('i, 'c, 'd, 'p, 'h, 'a) session \<Rightarrow>
    (('i, 'c, 'd, 'p, 'h, 'a) session, protocol_error, unit) step" where
  "add_remote_candidates X [] s = st_ok s"
| "add_remote_candidates X (c # cs) s =
     st_bind (on_ice (ice_add_remote_candidate (ice_calls X) c) s) (\<lambda>_ s. add_remote_candidates X cs s)"

definition effective_max_message_size :: "u32 \<Rightarrow> u32" where
  "effective_max_message_size announced_size = (if announced_size = 0 then 0xFFFFFFFF else announced_size)"

definition set_remote_description ::
  "('i, 'k, 'c, 'g, 'd, 'p, 'h, 'a, 'v, 'w) session_ops \<Rightarrow> description \<Rightarrow> 'k list \<Rightarrow> instant \<Rightarrow>
    ('i, 'c, 'd, 'p, 'h, 'a) session \<Rightarrow> ('i, 'c, 'd, 'p, 'h, 'a) session_run" where
  "set_remote_description X remote cs now s =
     run_bind (Some (on_ice (ice_set_remote_credentials (ice_calls X) (ice_ufrag (desc_ice remote)) (ice_pwd (desc_ice remote))) s))
       (\<lambda>_ s.
     let role = from_remote_announced (desc_role remote);
         s = s\<lparr>remote_max_message_size := effective_max_message_size (desc_max_message_size remote)\<rparr> in
     run_bind (Some (add_remote_candidates X cs s)) (\<lambda>_ s.
     let s = s\<lparr>pending_role_fingerprint := Some (role, desc_fingerprint remote),
               establish_started := (case establish_started s of None \<Rightarrow> Some now | Some at \<Rightarrow> Some at)\<rparr> in
     run_bind (pump X now s) (\<lambda>_ s. run_ok (push_wait X now s))))"

definition add_remote_candidate ::
  "('i, 'k, 'c, 'g, 'd, 'p, 'h, 'a, 'v, 'w) session_ops \<Rightarrow> 'k \<Rightarrow> instant \<Rightarrow> ('i, 'c, 'd, 'p, 'h, 'a) session \<Rightarrow>
    ('i, 'c, 'd, 'p, 'h, 'a) session_run" where
  "add_remote_candidate X c now s =
     run_bind (Some (on_ice (ice_add_remote_candidate (ice_calls X) c) s)) (\<lambda>_ s. pump X now s)"

definition handle_packet ::
  "('i, 'k, 'c, 'g, 'd, 'p, 'h, 'a, 'v, 'w) session_ops \<Rightarrow> bytes \<Rightarrow> socket_addr \<Rightarrow> instant \<Rightarrow>
    ('i, 'c, 'd, 'p, 'h, 'a) session \<Rightarrow> ('i, 'c, 'd, 'p, 'h, 'a) session_run" where
  "handle_packet X data peer now s =
     run_bind (Some (on_ice (ice_handle_read (ice_calls X) data peer now) s)) (\<lambda>consumed s.
       if consumed then pump X now s
       else if session_dtls s = None then
         run_ok (if length (early_packets s) < MAX_EARLY_PACKETS then s\<lparr>early_packets := early_packets s @ [data]\<rparr> else s)
       else run_bind (Some (read_dtls X data now s)) (\<lambda>_ s. pump X now s))"


definition handle_timeout ::
  "('i, 'k, 'c, 'g, 'd, 'p, 'h, 'a, 'v, 'w) session_ops \<Rightarrow> instant \<Rightarrow> ('i, 'c, 'd, 'p, 'h, 'a) session \<Rightarrow>
    ('i, 'c, 'd, 'p, 'h, 'a) session_run" where
  "handle_timeout X now s =
     run_bind (Some (on_ice (ice_handle_timeout (ice_calls X) now) s)) (\<lambda>_ s.
     run_bind (Some (case session_dtls s of
         None \<Rightarrow> st_ok s
       | Some dtls \<Rightarrow> (case dtls_handle_timeout (dtls_calls X) now dtls of (dtls', r) \<Rightarrow> (s\<lparr>session_dtls := Some dtls'\<rparr>, r))))
       (\<lambda>_ s.
     run_bind (case session_sctp s of
         None \<Rightarrow> run_ok s
       | Some sctp \<Rightarrow> map_option (map_prod (\<lambda>sctp'. s\<lparr>session_sctp := Some sctp'\<rparr>) id)
           (sctp_handle_timeout (sctp_calls X) now sctp)) (\<lambda>_ s.
     run_bind (pump X now s) (\<lambda>_ s. run_ok (push_wait X now s)))))"

fun write_segments ::
  "('p, 'h, 'a, 'v, 'w) sctp_ops \<Rightarrow> u16 \<Rightarrow> instant \<Rightarrow> message_segment list \<Rightarrow> 'a \<Rightarrow> ('a, protocol_error, unit) step" where
  "write_segments T sid now [] a = st_ok a"
| "write_segments T sid now (segment # segments) a =
     (case stream_write T sid now (segment_encode segment) Binary a of
        (a', Inl e) \<Rightarrow> (a', Inl (Other e))
      | (a', Inr _) \<Rightarrow> write_segments T sid now segments a')"

definition write_message ::
  "('p, 'h, 'a, 'v, 'w) sctp_ops \<Rightarrow> u16 \<Rightarrow> channel \<Rightarrow> bytes \<Rightarrow> instant \<Rightarrow> 'a \<Rightarrow> ('a, protocol_error, unit) step" where
  "write_message T sid channel data now a =
     (case channel of
        Reliable \<Rightarrow> st_bind (a, split_into_segments data) (\<lambda>segments a. write_segments T sid now segments a)
      | Unreliable \<Rightarrow>
          st_bind (a, encode_unreliable data) (\<lambda>encoded a.
            case stream_write T sid now encoded Binary a of (a', r) \<Rightarrow> (a', map_err Other r)))"

definition send ::
  "('i, 'k, 'c, 'g, 'd, 'p, 'h, 'a, 'v, 'w) session_ops \<Rightarrow> channel \<Rightarrow> bytes \<Rightarrow> instant \<Rightarrow>
    ('i, 'c, 'd, 'p, 'h, 'a) session \<Rightarrow> (('i, 'c, 'd, 'p, 'h, 'a) session, protocol_error, unit) step" where
  "send X channel data now s =
     st_bind (s, ok_or (Other ''channel not open yet'') (stream_id (session_channels s) channel)) (\<lambda>sid s.
     st_bind (s, ok_or (Other ''transports not started'') (session_sctp s)) (\<lambda>sctp s.
     st_bind (s, ok_or (Other ''association not established'') (association sctp)) (\<lambda>(h, a) s.
     st_bind (s, map_err Other (assoc_stream (sctp_calls X) sid a)) (\<lambda>_ s.
       case write_message (sctp_calls X) sid channel data now a of
         (a', r) \<Rightarrow> (s\<lparr>session_sctp := Some (sctp\<lparr>association := Some (h, a')\<rparr>)\<rparr>, r)))))"

definition session_handle ::
  "('i, 'k, 'c, 'g, 'd, 'p, 'h, 'a, 'v, 'w) session_ops \<Rightarrow> ('i, 'c, 'd, 'p, 'h, 'a) session \<Rightarrow> 'k session_input \<Rightarrow>
    ('i, 'c, 'd, 'p, 'h, 'a) session_run" where
  "session_handle X s msg =
     (case msg of
        Packet data peer now \<Rightarrow> handle_packet X data peer now s
      | RemoteDescription remote cs now \<Rightarrow> set_remote_description X remote cs now s
      | RemoteCandidate c now \<Rightarrow> add_remote_candidate X c now s
      | SendMessage channel data now \<Rightarrow> run_bind (Some (send X channel data now s)) (\<lambda>_ s. pump X now s)
      | Timeout now \<Rightarrow> handle_timeout X now s)"

definition session_poll ::
  "('i, 'c, 'd, 'p, 'h, 'a) session \<Rightarrow> (session_output \<times> ('i, 'c, 'd, 'p, 'h, 'a) session) option" where
  "session_poll = pop_front session_output (\<lambda>q. session_output_update (\<lambda>_. q))"

end
