(* ===== verification/Session_Invariant.thy ===== *)
theory Session_Invariant
  imports Session
begin

text \<open>
  What every handler of a session keeps, whatever the machines of the other crates do: outputs are only appended, the
  events \<open>Ready\<close> and \<open>Failed\<close> are appended when their flags are set and at no other time, the reassembly buffer stays
  within its bound, packets that came early are at most eight and only held before the transports start,
  and the transports start once.
\<close>


section \<open>What is seen of a state\<close>

type_synonym view = "channels \<times> session_output list"

definition bounded_output :: "session_output \<Rightarrow> bool" where
  "bounded_output out = (case out of Message Reliable m \<Rightarrow> length m \<le> MAX_REASSEMBLED_SIZE | _ \<Rightarrow> True)"

definition advances :: "view \<Rightarrow> view \<Rightarrow> bool" where
  "advances v w \<longleftrightarrow>
     (case (v, w) of ((ch, out), (ch', out')) \<Rightarrow>
        \<exists>added. out' = out @ added \<and>
          count_list added (Event Ready) + of_bool (ready_emitted ch) = (of_bool (ready_emitted ch') :: nat) \<and>
          count_list added (Event Failed) + of_bool (failed_emitted ch) = (of_bool (failed_emitted ch') :: nat) \<and>
          (message_inv (reassembly ch) \<longrightarrow> message_inv (reassembly ch') \<and> list_all bounded_output added))"

lemma advances_refl: "advances v v"
  by (auto simp: advances_def split: prod.splits)

lemma advances_trans:
  assumes "advances u v" "advances v w"
  shows "advances u w"
proof -
  obtain cu ou cv ov cw ow where uvw: "u = (cu, ou)" "v = (cv, ov)" "w = (cw, ow)"
    by (metis surj_pair)
  from assms(1) obtain a where a: "ov = ou @ a"
    "count_list a (Event Ready) + of_bool (ready_emitted cu) = (of_bool (ready_emitted cv) :: nat)"
    "count_list a (Event Failed) + of_bool (failed_emitted cu) = (of_bool (failed_emitted cv) :: nat)"
    "message_inv (reassembly cu) \<longrightarrow> message_inv (reassembly cv) \<and> list_all bounded_output a"
    unfolding advances_def uvw by auto
  from assms(2) obtain b where b: "ow = ov @ b"
    "count_list b (Event Ready) + of_bool (ready_emitted cv) = (of_bool (ready_emitted cw) :: nat)"
    "count_list b (Event Failed) + of_bool (failed_emitted cv) = (of_bool (failed_emitted cw) :: nat)"
    "message_inv (reassembly cv) \<longrightarrow> message_inv (reassembly cw) \<and> list_all bounded_output b"
    unfolding advances_def uvw by auto
  have "ow = ou @ (a @ b)"
    using a(1) b(1) by simp
  moreover have "count_list (a @ b) (Event Ready) + of_bool (ready_emitted cu) = (of_bool (ready_emitted cw) :: nat)"
    using a(2) b(2) by simp
  moreover have "count_list (a @ b) (Event Failed) + of_bool (failed_emitted cu) = (of_bool (failed_emitted cw) :: nat)"
    using a(3) b(3) by simp
  moreover have "message_inv (reassembly cu) \<longrightarrow> message_inv (reassembly cw) \<and> list_all bounded_output (a @ b)"
    using a(4) b(4) by auto
  ultimately show ?thesis
    unfolding advances_def uvw by auto
qed

text \<open>The steps there are: an output that is no event, a change of the open streams, and the two events.\<close>

lemma advances_push:
  "(\<forall>e. out \<noteq> Event e) \<Longrightarrow> bounded_output out \<Longrightarrow> advances (ch, q) (ch, q @ [out])"
  by (auto simp: advances_def intro!: exI [of _ "[out]"])

lemma advances_same: "ready_emitted ch' = ready_emitted ch \<Longrightarrow> failed_emitted ch' = failed_emitted ch \<Longrightarrow>
    reassembly ch' = reassembly ch \<Longrightarrow> advances (ch, q) (ch', q)"
  by (auto simp: advances_def)

lemma advances_set_open: "advances (ch, q) (set_open channel sid ch, q)"
  by (rule advances_same) (simp_all add: set_open_def split: channel.splits)

lemma advances_failed: "\<not> failed_emitted ch \<Longrightarrow> advances (ch, q) (ch\<lparr>failed_emitted := True\<rparr>, q @ [Event Failed])"
  by (auto simp: advances_def bounded_output_def intro!: exI [of _ "[Event Failed]"])

lemma advances_ready: "\<not> ready_emitted ch \<Longrightarrow> advances (ch, q) (ch\<lparr>ready_emitted := True\<rparr>, q @ [Event Ready])"
  by (auto simp: advances_def bounded_output_def intro!: exI [of _ "[Event Ready]"])


section \<open>Data channels\<close>

definition exchange_view :: "'a exchange \<Rightarrow> view" where
  "exchange_view e = (ex_channels e, ex_output e)"

interpretation xr: run_order "\<lambda>s t. advances (exchange_view s) (exchange_view t)"
  by unfold_locales (auto intro: advances_refl advances_trans)

lemma exchange_view_simps [simp]:
  "exchange_view (e\<lparr>ex_assoc := a\<rparr>) = exchange_view e"
  "exchange_view (e\<lparr>ex_channels := ch\<rparr>) = (ch, ex_output e)"
  "exchange_view (e\<lparr>ex_output := q\<rparr>) = (ex_channels e, q)"
  by (simp_all add: exchange_view_def)

lemma on_assoc_view [simp]: "exchange_view (fst (on_assoc call e)) = exchange_view e"
  by (simp add: on_assoc_def split: prod.splits)

lemma poll_view:
  "poll_accept T e = (x, e') \<Longrightarrow> exchange_view e' = exchange_view e"
  "poll_read T sid e = (y, e') \<Longrightarrow> exchange_view e' = exchange_view e"
  by (auto simp: poll_accept_def poll_read_def poll_part_def split: prod.splits sum.splits option.splits)

lemma set_open_view: "advances (exchange_view e) (set_open channel sid (ex_channels e), ex_output e)"
  by (simp add: exchange_view_def advances_set_open)

lemma open_channel_advances:
  "advances (exchange_view e) (exchange_view (fst (open_channel T M now sid channel opn e)))"
  unfolding open_channel_def
  by (intro xr.step_rel) (simp_all add: advances_refl set_open_view)

lemma open_channels_advances: "advances (exchange_view e) (exchange_view (fst (open_channels T M now e)))"
  unfolding open_channels_def by (intro xr.step_rel open_channel_advances)

lemma accept_channel_advances: "advances (exchange_view e) (exchange_view (fst (accept_channel T M now sid e)))"
proof -
  have "advances (exchange_view f) (exchange_view (fst (st_bind (f, encode_ack M) (\<lambda>ack e.
      st_bind (on_assoc (stream_write T sid now ack PPI_DCEP) e) (\<lambda>_ e.
        st_ok (e\<lparr>ex_channels := set_open channel sid (ex_channels e)\<rparr>))))))" for f channel
    by (intro xr.step_rel) (simp_all add: advances_refl set_open_view)
  from this [of "e\<lparr>ex_assoc := fst (stream_read T sid (ex_assoc e))\<rparr>"] show ?thesis
    by (auto simp: accept_channel_def Let_def advances_refl split: prod.splits option.splits)
qed

lemma receive_segment_advances: "advances (exchange_view e) (exchange_view (receive_segment channel segment e))"
proof (cases channel)
  case Reliable
  obtain m r where r: "add_segment (reassembly (ex_channels e)) segment = (m, r)"
    by (cases "add_segment (reassembly (ex_channels e)) segment")
  let ?m = "reassembly (ex_channels e)"
  have inv: "message_inv ?m \<Longrightarrow> message_inv m"
    using add_segment_inv [of ?m segment] r by simp
  have bound: "message_inv ?m \<Longrightarrow> r = Inr (Some msg) \<Longrightarrow> length msg \<le> MAX_REASSEMBLED_SIZE" for msg
    using add_segment_message r by blast
  have "advances (ex_channels e, ex_output e) (ex_channels e\<lparr>reassembly := m\<rparr>, ex_output e @ added)"
    if "added = [] \<or> (\<exists>msg. added = [Message Reliable msg] \<and> r = Inr (Some msg))" for added
    using that inv bound by (auto simp: advances_def bounded_output_def intro!: exI [of _ added])
  from this [of "[]"] this [of "[Message Reliable (the (case r of Inr x \<Rightarrow> x))]"] show ?thesis
    using Reliable r
    by (auto simp: receive_segment_def exchange_view_def Let_def split: sum.splits option.splits)
next
  case Unreliable
  then show ?thesis
    using advances_push [of "Message Unreliable (seg_data segment)"]
    by (simp add: receive_segment_def exchange_view_def advances_refl bounded_output_def)
qed

lemma receive_chunks_advances: "advances (exchange_view e) (exchange_view (receive_chunks channel chunks e))"
  by (auto simp: receive_chunks_def advances_refl receive_segment_advances split: sum.splits)

lemma drain_channel_advances:
  "keeps (\<lambda>f. advances (exchange_view e) (exchange_view f)) (drain_channel T channel e)"
  unfolding drain_channel_def
  by (auto split: option.splits sum.splits intro!: xr.while_rel
      simp: advances_refl receive_chunks_advances dest: poll_view)

lemma drain_exchange_advances:
  "keeps (\<lambda>f. advances (exchange_view e) (exchange_view f)) (drain_exchange T M now e)"
  unfolding drain_exchange_def
  by (intro xr.bind_rel xr.while_rel drain_channel_advances accept_channel_advances)
    (auto dest: poll_view simp: advances_refl)


section \<open>The transports\<close>

definition transports_view :: "('d, 'p, 'h, 'a) transports \<Rightarrow> view" where
  "transports_view t = (tp_channels t, tp_output t)"

interpretation tr: run_order "\<lambda>s t. advances (transports_view s) (transports_view t)"
  by unfold_locales (auto intro: advances_refl advances_trans)

lemma transports_view_simps [simp]:
  "transports_view (t\<lparr>tp_sctp := l\<rparr>) = transports_view t"
  "transports_view (t\<lparr>tp_dtls := d\<rparr>) = transports_view t"
  "transports_view (t\<lparr>tp_failed := b\<rparr>) = transports_view t"
  "transports_view (give_back h e t) = exchange_view e"
  "exchange_view (borrow a t) = transports_view t"
  by (simp_all add: transports_view_def give_back_def borrow_def exchange_view_def)

lemma poll_part_state: "poll_part part set_part poll s = (x, s') \<Longrightarrow> \<exists>p. s' = set_part p s"
  by (auto simp: poll_part_def split: prod.splits)

lemma open_if_controlling_advances:
  "advances (transports_view t) (transports_view (fst (open_channels_if_controlling T M controlling now t)))"
  using open_channels_advances [where e = "borrow a t" for a]
  by (auto simp: open_channels_if_controlling_def advances_refl split: option.splits)

lemma handle_sctp_event_advances:
  "advances (transports_view t) (transports_view (fst (handle_sctp_event T M controlling now event t)))"
  by (simp add: handle_sctp_event_def open_if_controlling_advances advances_refl split: sctp_event.splits)

lemma drain_data_advances:
  "keeps (\<lambda>u. advances (transports_view t) (transports_view u)) (drain_dcep_and_data T M now t)"
  using drain_exchange_advances [where e = "borrow a t" for a]
  by (auto simp: drain_dcep_and_data_def keeps_def advances_refl run_ok_def split: option.splits) blast

lemma drive_transports_advances:
  "keeps (\<lambda>u. advances (transports_view t) (transports_view u)) (drive_transports X controlling now t)"
  unfolding drive_transports_def
  by (intro tr.bind_rel tr.while_rel drain_data_advances handle_sctp_event_advances)
    (auto dest!: poll_part_state simp: advances_refl transports_view_def advances_push bounded_output_def split: prod.splits)



section \<open>The session\<close>

definition session_view :: "('i, 'c, 'd, 'p, 'h, 'a) session \<Rightarrow> view" where
  "session_view s = (session_channels s, session_output s)"

definition transport_inv :: "('i, 'c, 'd, 'p, 'h, 'a) session \<Rightarrow> bool" where
  "transport_inv s \<longleftrightarrow>
     (case (session_dtls s, session_sctp s) of
        (None, None) \<Rightarrow> length (early_packets s) \<le> MAX_EARLY_PACKETS
      | (Some _, Some _) \<Rightarrow> early_packets s = [] \<and> session_certificate s = None
      | _ \<Rightarrow> False)"

definition session_rel :: "('i, 'c, 'd, 'p, 'h, 'a) session \<Rightarrow> ('i, 'c, 'd, 'p, 'h, 'a) session \<Rightarrow> bool" where
  "session_rel s t \<longleftrightarrow>
     advances (session_view s) (session_view t) \<and>
     (transport_inv s \<longrightarrow> transport_inv t) \<and>
     (\<forall>at. establish_started s = Some at \<longrightarrow> establish_started t = Some at) \<and>
     establish_within t = establish_within s \<and> is_controlling t = is_controlling s"

interpretation sr: run_order session_rel
  by unfold_locales (auto simp: session_rel_def intro: advances_refl advances_trans)

lemma session_relI:
  assumes "advances (session_view s) (session_view t)" "transport_inv s \<Longrightarrow> transport_inv t"
    and "establish_started s \<noteq> None \<Longrightarrow> establish_started t = establish_started s"
    and "establish_within t = establish_within s" "is_controlling t = is_controlling s"
  shows "session_rel s t"
  using assms by (auto simp: session_rel_def)

text \<open>Changes to the machines below are not seen.\<close>

lemma session_rel_layers [simp]:
  "session_rel s (s\<lparr>session_ice := l\<rparr>)"
  "session_rel s (s\<lparr>remote_max_message_size := n\<rparr>)"
  "session_rel s (s\<lparr>pending_role_fingerprint := r\<rparr>)"
  "session_dtls s = Some d \<Longrightarrow> session_rel s (s\<lparr>session_dtls := Some d'\<rparr>)"
  "session_sctp s = Some c \<Longrightarrow> session_rel s (s\<lparr>session_sctp := Some c'\<rparr>)"
  "session_rel s (s\<lparr>session_sctp := map_option f (session_sctp s)\<rparr>)"
  by (rule session_relI; simp add: session_view_def advances_refl transport_inv_def split: option.splits)+

lemma push_output_rel: "(\<forall>e. out \<noteq> Event e) \<Longrightarrow> bounded_output out \<Longrightarrow> session_rel s (push_output out s)"
  by (rule session_relI) (simp_all add: push_output_def session_view_def advances_push transport_inv_def split: option.splits)

lemma fail_rel [simp]: "session_rel s (fail s)"
  by (rule session_relI)
    (simp_all add: fail_def push_output_def session_view_def advances_failed advances_refl transport_inv_def split: option.splits)

lemma emit_ready_rel [simp]: "session_rel s (emit_ready s)"
  by (rule session_relI)
    (simp_all add: emit_ready_def push_output_def session_view_def advances_ready advances_refl transport_inv_def split: option.splits)

lemma fail_when_overdue_rel [simp]: "session_rel s (fail_when_overdue now s)"
  by (simp add: fail_when_overdue_def sr.rel_refl split: option.splits)

lemma push_wait_rel [simp]: "session_rel s (push_wait X now s)"
  by (auto simp: push_wait_def session_poll_timeout_def bounded_output_def split: prod.splits option.splits
      intro: sr.rel_trans [OF _ push_output_rel])

lemma on_ice_rel [simp]: "session_rel s (fst (on_ice call s))"
  by (simp add: on_ice_def split: prod.splits)

lemma add_remote_candidates_rel [simp]: "session_rel s (fst (add_remote_candidates X cs s))"
  by (induction cs arbitrary: s) (simp_all add: sr.rel_refl sr.step_rel)

lemma handle_dtls_event_rel [simp]: "session_rel s (handle_dtls_event X now event s)"
  by (simp add: handle_dtls_event_def sr.rel_refl split: endpoint_event.splits)

lemma read_dtls_rel [simp]: "session_rel s (fst (read_dtls X data now s))"
proof (cases "session_dtls s")
  case (Some d)
  have "session_rel (s\<lparr>session_dtls := Some d'\<rparr>)
      (foldl (\<lambda>s event. handle_dtls_event X now event s) (s\<lparr>session_dtls := Some d'\<rparr>) events)" for d' events
    by (rule sr.fold_rel) simp
  with Some show ?thesis
    by (auto simp: read_dtls_def split: prod.splits sum.splits intro: sr.rel_trans [OF session_rel_layers(4)])
qed (simp add: read_dtls_def sr.rel_refl)

lemma read_early_rel [simp]: "session_rel s (fst (read_early X now ps s))"
  by (induction ps arbitrary: s) (simp_all add: sr.rel_refl sr.step_rel)

lemma put_transports_rel:
  assumes "session_sctp s = Some l" "session_dtls s = Some d"
    and "advances (transports_view (take_transports l d s)) (transports_view t)"
  shows "session_rel s (put_transports t s)"
  using assms
  by (intro session_relI)
    (simp_all add: take_transports_def put_transports_def transports_view_def session_view_def transport_inv_def)

lemma pump_transports_rel: "keeps (session_rel s) (pump_transports X now s)"
proof (cases "session_sctp s = None \<or> session_dtls s = None")
  case True
  then show ?thesis
    by (auto simp: pump_transports_def sr.rel_refl split: option.splits)
next
  case False
  then obtain l d where ld: "session_sctp s = Some l" "session_dtls s = Some d"
    by auto
  have "session_rel s (put_transports t s)"
    if "drive_transports X (is_controlling s) now (take_transports l d s) = Some (t, r)" for t r
    using drive_transports_advances [where t = "take_transports l d s" and X = X] that
    by (intro put_transports_rel [OF ld]) (auto simp: keeps_def)
  then show ?thesis
    by (auto simp: pump_transports_def ld split: option.splits sum.splits intro: sr.rel_trans [OF _ fail_rel])
qed

text \<open>Starting the transports uses up the certificate and the packets that came early.\<close>

lemma start_transports_outcome:
  assumes "start_transports X remote role fp now s = (t, r)"
  shows "t = s\<lparr>session_certificate := None\<rparr> \<and> r \<noteq> Inr () \<or>
    (\<exists>l d. t = s\<lparr>session_certificate := None, session_remote := Some remote, session_dtls := Some d, session_sctp := Some l\<rparr> \<and>
      r = Inr ())"
proof (cases "session_certificate s")
  case (Some certificate)
  show ?thesis
    using assms Some
    by (cases "dtls_new (dtls_calls X) (cert_calls X) (session_local_addr s) remote role certificate fp now";
        cases "sctp_new (sctp_calls X) (session_local_addr s) remote role (remote_max_message_size s) now")
      (auto simp: start_transports_def st_ok_def)
qed (use assms in \<open>auto simp: start_transports_def\<close>)


lemma start_on_selected_pair_rel: "session_rel s (fst (start_transports_on_selected_pair X now s))"
proof -
  have "session_rel s (fst (st_bind (start_transports X remote role fp now (s\<lparr>pending_role_fingerprint := None\<rparr>))
      (\<lambda>_ s. read_early X now (early_packets s) (s\<lparr>early_packets := []\<rparr>))))"
    if none: "session_dtls s = None" for remote role fp
  proof -
    obtain t r where tr: "start_transports X remote role fp now (s\<lparr>pending_role_fingerprint := None\<rparr>) = (t, r)"
      by (cases "start_transports X remote role fp now (s\<lparr>pending_role_fingerprint := None\<rparr>)")
    from start_transports_outcome [OF this] show ?thesis
    proof (elim disjE exE conjE)
      assume t: "t = s\<lparr>pending_role_fingerprint := None\<rparr>\<lparr>session_certificate := None\<rparr>" and "r \<noteq> Inr ()"
      have "session_rel s t"
        using none by (intro session_relI)
          (simp_all add: t session_view_def advances_refl transport_inv_def split: option.splits)
      with tr \<open>r \<noteq> Inr ()\<close> show ?thesis
        by (cases r) simp_all
    next
      fix l d
      assume t: "t = s\<lparr>pending_role_fingerprint := None\<rparr>\<lparr>session_certificate := None, session_remote := Some remote,
          session_dtls := Some d, session_sctp := Some l\<rparr>" and "r = Inr ()"
      have "session_rel s (t\<lparr>early_packets := []\<rparr>)"
        by (intro session_relI) (simp_all add: t session_view_def advances_refl transport_inv_def)
      with tr \<open>r = Inr ()\<close> show ?thesis
        by (simp add: sr.rel_trans [OF _ read_early_rel])
    qed
  qed
  then show ?thesis
    by (auto simp: start_transports_on_selected_pair_def sr.rel_refl split: option.splits)
qed

lemma poll_ice_rel:
  "poll_part session_ice (\<lambda>l. session_ice_update (\<lambda>_. l)) poll s = (x, s') \<Longrightarrow> session_rel s s'"
  by (auto dest!: poll_part_state)

lemma pump_rel: "keeps (session_rel s) (pump X now s)"
proof -
  have "session_rel s (push_output (SendPacket data to) s)" for data to and s :: "('a, 'b, 'c, 'd, 'e, 'f) session"
    by (rule push_output_rel) (simp_all add: bounded_output_def)
  moreover have "session_rel s (fail_when_overdue now (emit_ready s))" for s :: "('a, 'b, 'c, 'd, 'e, 'f) session"
    by (rule sr.rel_trans [OF emit_ready_rel fail_when_overdue_rel])
  ultimately show ?thesis
    unfolding pump_def
    by (intro sr.bind_rel sr.while_rel sr.some_rel sr.ok_rel pump_transports_rel start_on_selected_pair_rel)
      (auto intro: poll_ice_rel sr.rel_refl split: prod.splits)
qed

lemma sctp_timeout_rel:
  "keeps (session_rel s) (case session_sctp s of
       None \<Rightarrow> run_ok s
     | Some sctp \<Rightarrow> map_option (map_prod (\<lambda>sctp'. s\<lparr>session_sctp := Some sctp'\<rparr>) id) (sctp_handle_timeout T now sctp))"
  by (auto simp: keeps_def run_ok_def sr.rel_refl split: option.splits)

lemma dtls_timeout_rel:
  "session_rel s (fst (case session_dtls s of
       None \<Rightarrow> st_ok s
     | Some dtls \<Rightarrow> (case dtls_handle_timeout D now dtls of (dtls', r) \<Rightarrow> (s\<lparr>session_dtls := Some dtls'\<rparr>, r))))"
  by (auto simp: sr.rel_refl split: option.splits prod.splits)

lemma handle_timeout_rel: "keeps (session_rel s) (handle_timeout X now s)"
  unfolding handle_timeout_def
  by (intro sr.bind_rel sr.some_rel sr.ok_rel sctp_timeout_rel dtls_timeout_rel pump_rel on_ice_rel push_wait_rel)

lemma send_rel: "session_rel s (fst (send X channel data now s))"
proof (cases "stream_id (session_channels s) channel"; cases "session_sctp s")
  fix sid l
  assume "stream_id (session_channels s) channel = Some sid" "session_sctp s = Some l"
  then show ?thesis
    by (cases "association l"; cases "assoc_stream (sctp_calls X) sid (snd (the (association l)))")
      (auto simp: send_def sr.rel_refl split: prod.splits)
qed (simp_all add: send_def sr.rel_refl)

lemma handle_packet_rel: "keeps (session_rel s) (handle_packet X data peer now s)"
proof -
  have "session_rel t (if length (early_packets t) < MAX_EARLY_PACKETS then t\<lparr>early_packets := early_packets t @ [data]\<rparr> else t)"
    if "session_dtls t = None" for t :: "('a, 'b, 'c, 'd, 'e, 'f) session"
    using that by (auto simp: sr.rel_refl session_view_def advances_refl transport_inv_def intro!: session_relI
        split: option.splits)
  then show ?thesis
    unfolding handle_packet_def
    by (intro sr.bind_rel sr.some_rel on_ice_rel)
      (auto intro!: sr.bind_rel sr.some_rel pump_rel)
qed

lemma set_remote_description_rel: "keeps (session_rel s) (set_remote_description X remote cs now s)"
proof -
  have "session_rel t (t\<lparr>pending_role_fingerprint := p,
      establish_started := (case establish_started t of None \<Rightarrow> Some now | Some at \<Rightarrow> Some at)\<rparr>)"
    for p and t :: "('a, 'b, 'c, 'd, 'e, 'f) session"
    by (rule session_relI) (simp_all add: session_view_def advances_refl transport_inv_def split: option.splits)
  note started = sr.keeps_rel_trans [OF this]
  show ?thesis
    unfolding set_remote_description_def Let_def
    by (intro sr.bind_rel sr.some_rel on_ice_rel sr.ok_rel push_wait_rel
        sr.rel_trans [OF session_rel_layers(2) add_remote_candidates_rel]) (rule started, rule pump_rel)
qed

lemma session_handle_rel: "keeps (session_rel s) (session_handle X s msg)"
  unfolding session_handle_def add_remote_candidate_def
  by (auto intro!: handle_packet_rel set_remote_description_rel handle_timeout_rel sr.bind_rel sr.some_rel pump_rel send_rel
      split: session_input.splits)



section \<open>The deadline\<close>

lemma overdue_deadline: "establish_deadline (fail_when_overdue now s) = Some d \<Longrightarrow> now < d"
  by (auto simp: fail_when_overdue_def fail_def push_output_def establish_deadline_def split: option.splits if_splits)

lemma pump_deadline:
  assumes "pump X now s = Some (t, Inr ())" "establish_deadline t = Some d"
  shows "now < d"
proof -
  from assms(1) obtain u where "t = fail_when_overdue now (emit_ready u)"
    by (auto simp: pump_def run_bind_eq_Some run_ok_def)
  with assms(2) overdue_deadline show ?thesis
    by blast
qed

lemma least_instant_le: "Some d \<in> set ds \<Longrightarrow> \<exists>m. least_instant ds = Some m \<and> m \<le> d"
proof -
  assume "Some d \<in> set ds"
  then have "d \<in> set (List.map_filter id ds)"
    by (force simp: List.map_filter_def)
  then show ?thesis
    by (cases "List.map_filter id ds")
      (auto simp: least_instant_def dest: foldl_min_member intro: foldl_min_start)
qed

lemma push_wait_deadline:
  assumes "establish_deadline s = Some d"
  shows "establish_deadline (push_wait X now s) = Some d \<and>
    (\<exists>w. session_output (push_wait X now s) = session_output s @ [Wait w] \<and> w \<le> d - now)"
proof -
  obtain ice_deadline ice where ice: "ice_poll_timeout (ice_calls X) (session_ice s) = (ice_deadline, ice)"
    by (cases "ice_poll_timeout (ice_calls X) (session_ice s)")
  from least_instant_le [of d "[establish_deadline s, ice_deadline,
      Option.bind (session_dtls s) (dtls_poll_timeout (dtls_calls X)),
      Option.bind (session_sctp s) (sctp_poll_timeout (sctp_calls X))]"] assms
  obtain m where "session_poll_timeout X s = (Some m, s\<lparr>session_ice := ice\<rparr>)" "m \<le> d"
    by (auto simp: session_poll_timeout_def ice)
  with assms show ?thesis
    by (auto simp: push_wait_def push_output_def establish_deadline_def)
qed

lemma push_wait_keeps_deadline: "establish_deadline (push_wait X now s) = establish_deadline s"
  by (simp add: push_wait_def session_poll_timeout_def push_output_def establish_deadline_def split: prod.splits option.splits)

text \<open>The two handlers that end with a pump and a wait.\<close>

lemma pump_then_wait:
  assumes "run_bind (pump X now s) (\<lambda>_ s. run_ok (push_wait X now s)) = Some (t, Inr ())" "establish_deadline t = Some d"
  shows "now < d \<and> (\<exists>q w. session_output t = q @ [Wait w] \<and> now + w \<le> d)"
proof -
  from assms(1) obtain u where u: "pump X now s = Some (u, Inr ())" "t = push_wait X now u"
    by (auto simp: run_bind_eq_Some run_ok_def)
  with assms(2) have d: "establish_deadline u = Some d"
    by (simp add: push_wait_keeps_deadline)
  from pump_deadline [OF u(1) d] push_wait_deadline [OF d, of X now] u(2) show ?thesis
    by fastforce
qed

end
