(* ===== verification/Session_Termination.thy ===== *)
theory Session_Termination
  imports Session
begin

text \<open>
  Every handler of a session returns when the queues of the machines below are finite: the loops of \<open>pump\<close>,
  \<open>drain_dcep_and_data\<close> and \<open>SctpLayer::handle_timeout\<close> end.  The assumption \<open>queues_finite\<close> is that of each queue
  polled: an item taken makes it shorter, and what the loop's body does to the machine does not make it longer.
\<close>

definition drains :: "('s \<Rightarrow> 'x option \<times> 's) \<Rightarrow> ('s \<Rightarrow> nat) \<Rightarrow> bool" where
  "drains poll m \<longleftrightarrow> (\<forall>s x s'. poll s = (Some x, s') \<longrightarrow> m s' < m s)"

definition queues_finite :: "('i, 'k, 'c, 'g, 'd, 'p, 'h, 'a, 'v, 'w) session_ops \<Rightarrow> bool" where
  "queues_finite X \<longleftrightarrow>
     (\<exists>m. drains (agent_poll_write (ice_calls X)) m) \<and>
     (\<exists>m. drains (agent_poll_event (ice_calls X)) m) \<and>
     (\<exists>m. drains (dtls_endpoint_poll_transmit (dtls_calls X)) m) \<and>
     (\<exists>m. drains (assoc_poll_endpoint_event (sctp_calls X)) m) \<and>
     (\<forall>now. \<exists>m. drains (assoc_poll_transmit (sctp_calls X) now) m) \<and>
     (\<exists>m. drains (assoc_poll (sctp_calls X)) m \<and>
        (\<forall>sid ppi a. m (fst (assoc_open_stream (sctp_calls X) sid ppi a)) \<le> m a) \<and>
        (\<forall>sid now data ppi a. m (fst (stream_write (sctp_calls X) sid now data ppi a)) \<le> m a)) \<and>
     (\<exists>m. drains (assoc_accept_stream (sctp_calls X)) m \<and>
        (\<forall>sid a. m (fst (stream_read (sctp_calls X) sid a)) \<le> m a) \<and>
        (\<forall>sid now data ppi a. m (fst (stream_write (sctp_calls X) sid now data ppi a)) \<le> m a)) \<and>
     (\<forall>sid. \<exists>m. \<forall>a a' chunks. stream_read (sctp_calls X) sid a = (a', Inr (Some chunks)) \<longrightarrow> (m a' :: nat) < m a)"

lemma queues_finiteD:
  assumes "queues_finite X"
  shows "\<exists>m. drains (agent_poll_write (ice_calls X)) m"
    and "\<exists>m. drains (agent_poll_event (ice_calls X)) m"
    and "\<exists>m. drains (dtls_endpoint_poll_transmit (dtls_calls X)) m"
    and "\<exists>m. drains (assoc_poll_endpoint_event (sctp_calls X)) m"
    and "\<exists>m. drains (assoc_poll_transmit (sctp_calls X) now) m"
    and "\<exists>m. drains (assoc_poll (sctp_calls X)) m \<and>
        (\<forall>sid ppi a. m (fst (assoc_open_stream (sctp_calls X) sid ppi a)) \<le> m a) \<and>
        (\<forall>sid now data ppi a. m (fst (stream_write (sctp_calls X) sid now data ppi a)) \<le> m a)"
    and "\<exists>m. drains (assoc_accept_stream (sctp_calls X)) m \<and>
        (\<forall>sid a. m (fst (stream_read (sctp_calls X) sid a)) \<le> m a) \<and>
        (\<forall>sid now data ppi a. m (fst (stream_write (sctp_calls X) sid now data ppi a)) \<le> m a)"
    and "\<exists>m. \<forall>a a' chunks. stream_read (sctp_calls X) sid a = (a', Inr (Some chunks)) \<longrightarrow> (m a' :: nat) < m a"
  using assms unfolding queues_finite_def by - (elim conjE, (erule allE)?, assumption | elim conjE, erule spec)+


section \<open>Loops\<close>

text \<open>A loop over a queue in a part of the state that the body leaves alone.\<close>

lemma while_poll_part_returns:
  assumes "drains poll m" "\<And>p s. part (set_part p s) = p" "\<And>x s. part (fst (body x s)) = part s"
  shows "\<exists>r. while_poll (poll_part part set_part poll) body s = Some r"
  by (rule while_poll_returns_measure [where m = "m \<circ> part"])
    (use assms in \<open>auto simp: poll_part_def drains_def split: prod.splits\<close>)

interpretation mr: run_order "\<lambda>s t. (m (ex_assoc t) :: nat) \<le> m (ex_assoc s)" for m :: "'a \<Rightarrow> nat"
  by unfold_locales auto

lemma on_assoc_measure:
  "(\<And>a. m (fst (call a)) \<le> (m a :: nat)) \<Longrightarrow> m (ex_assoc (fst (on_assoc call e))) \<le> m (ex_assoc e)"
  by (simp add: on_assoc_def split: prod.splits) (metis fst_conv)

lemma open_channels_measure:
  assumes "\<And>sid ppi a. (m (fst (assoc_open_stream T sid ppi a)) :: nat) \<le> m a"
    and "\<And>sid now data ppi a. m (fst (stream_write T sid now data ppi a)) \<le> m a"
  shows "m (ex_assoc (fst (open_channels T M now e))) \<le> m (ex_assoc e)"
  unfolding open_channels_def open_channel_def
  by (intro mr.step_rel) (simp_all add: assms on_assoc_measure)

lemma accept_channel_measure:
  assumes "\<And>sid a. (m (fst (stream_read T sid a)) :: nat) \<le> m a"
    and "\<And>sid now data ppi a. m (fst (stream_write T sid now data ppi a)) \<le> m a"
  shows "m (ex_assoc (fst (accept_channel T M now sid e))) \<le> m (ex_assoc e)"
proof -
  have "m (ex_assoc (fst (st_bind (f, encode_ack M) (\<lambda>ack e.
      st_bind (on_assoc (stream_write T sid now ack PPI_DCEP) e) (\<lambda>_ e.
        st_ok (e\<lparr>ex_channels := set_open channel sid (ex_channels e)\<rparr>)))))) \<le> m (ex_assoc f)" for f channel
    by (intro mr.step_rel) (simp_all add: assms on_assoc_measure)
  from order_trans [OF this [of "e\<lparr>ex_assoc := fst (stream_read T sid (ex_assoc e))\<rparr>"]]
  show ?thesis
    using assms(1) [of sid "ex_assoc e"]
    by (auto simp: accept_channel_def Let_def split: prod.splits option.splits)
qed

lemma drain_channel_returns:
  assumes "queues_finite X"
  shows "\<exists>r. drain_channel (sctp_calls X) channel e = Some r"
proof -
  have "\<exists>r. while_poll (poll_read (sctp_calls X) sid) (\<lambda>chunks e. st_ok (receive_chunks channel chunks e)) e = Some r" for sid
  proof -
    from assms obtain m where m: "\<forall>a a' chunks.
        stream_read (sctp_calls X) sid a = (a', Inr (Some chunks)) \<longrightarrow> (m a' :: nat) < m a"
      using queues_finiteD(8) [OF assms, of sid] by blast
    have same: "ex_assoc (receive_chunks channel chunks f) = ex_assoc f" for chunks and f :: "'h exchange"
      by (simp add: receive_chunks_def receive_segment_def Let_def
          split: sum.splits channel.splits prod.splits option.splits)
    show ?thesis
      by (rule while_poll_returns_measure [where m = "m \<circ> ex_assoc"])
        (use m in \<open>auto simp: same poll_read_def split: prod.splits sum.splits option.splits\<close>)
  qed
  then show ?thesis
    by (auto simp: drain_channel_def run_ok_def split: option.splits sum.splits)
qed

lemma drain_exchange_returns:
  assumes "queues_finite X"
  shows "\<exists>r. drain_exchange (sctp_calls X) M now e = Some r"
proof -
  from assms obtain m where m: "drains (assoc_accept_stream (sctp_calls X)) m"
    "\<And>sid a. m (fst (stream_read (sctp_calls X) sid a)) \<le> m a"
    "\<And>sid now data ppi a. m (fst (stream_write (sctp_calls X) sid now data ppi a)) \<le> m a"
    using queues_finiteD(7) [OF assms] by blast
  have "\<exists>r. while_poll (poll_accept (sctp_calls X)) (accept_channel (sctp_calls X) M now) e = Some r"
  proof (rule while_poll_returns_measure [where m = "m \<circ> ex_assoc"])
    fix s x s'
    assume "poll_accept (sctp_calls X) s = (Some x, s')"
    with m(1) have "m (ex_assoc s') < m (ex_assoc s)"
      by (auto simp: poll_accept_def poll_part_def drains_def split: prod.splits)
    with accept_channel_measure [of m, OF m(2,3), of M now x s']
    show "(m \<circ> ex_assoc) (fst (accept_channel (sctp_calls X) M now x s')) < (m \<circ> ex_assoc) s"
      by simp
  qed
  then show ?thesis
    unfolding drain_exchange_def
    by (intro run_bind_returns drain_channel_returns [OF assms])
qed



section \<open>The transports\<close>

definition assoc_measure :: "('a \<Rightarrow> nat) \<Rightarrow> ('p, 'h, 'a) sctp_layer \<Rightarrow> nat" where
  "assoc_measure m l = (case association l of None \<Rightarrow> 0 | Some (_, a) \<Rightarrow> m a)"

lemma assoc_measure_update [simp]: "assoc_measure m (l\<lparr>association := Some (h, a)\<rparr>) = m a"
  by (simp add: assoc_measure_def)

lemma sctp_poll_event_drains: "drains (assoc_poll T) m \<Longrightarrow> drains (sctp_poll_event T) (assoc_measure m)"
  by (auto simp: drains_def sctp_poll_event_def split: option.splits prod.splits) (simp add: assoc_measure_def)

lemma sctp_poll_endpoint_event_drains:
  "drains (assoc_poll_endpoint_event T) m \<Longrightarrow> drains (sctp_poll_endpoint_event T) (assoc_measure m)"
  by (auto simp: drains_def sctp_poll_endpoint_event_def split: option.splits prod.splits) (simp add: assoc_measure_def)

lemma handle_sctp_event_measure:
  assumes "\<And>sid ppi a. (m (fst (assoc_open_stream T sid ppi a)) :: nat) \<le> m a"
    and "\<And>sid now data ppi a. m (fst (stream_write T sid now data ppi a)) \<le> m a"
  shows "assoc_measure m (tp_sctp (fst (handle_sctp_event T M controlling now event t))) \<le> assoc_measure m (tp_sctp t)"
proof (cases "association (tp_sctp t)")
  case (Some ha)
  with open_channels_measure [of m T, OF assms, of M now "borrow (snd ha) t"] show ?thesis
    by (cases ha) (simp add: handle_sctp_event_def open_channels_if_controlling_def give_back_def borrow_def
        assoc_measure_def split: sctp_event.splits)
qed (simp add: handle_sctp_event_def open_channels_if_controlling_def split: sctp_event.splits)

lemma sctp_events_return:
  assumes "queues_finite X"
  shows "\<exists>r. while_poll (poll_part tp_sctp (\<lambda>l. tp_sctp_update (\<lambda>_. l)) (sctp_poll_event (sctp_calls X)))
    (handle_sctp_event (sctp_calls X) M controlling now) t = Some r"
proof -
  from queues_finiteD(6) [OF assms] obtain m where m: "drains (assoc_poll (sctp_calls X)) m"
    "\<And>sid ppi a. m (fst (assoc_open_stream (sctp_calls X) sid ppi a)) \<le> m a"
    "\<And>sid now data ppi a. m (fst (stream_write (sctp_calls X) sid now data ppi a)) \<le> m a"
    by blast
  note drained = sctp_poll_event_drains [OF m(1), unfolded drains_def]
  show ?thesis
    by (rule while_poll_returns_measure [where m = "assoc_measure m \<circ> tp_sctp"])
      (use drained handle_sctp_event_measure [of m, OF m(2,3)] in
        \<open>fastforce simp: poll_part_def split: prod.splits intro: le_less_trans\<close>)
qed

text \<open>A transmit of the association may hold several packets: the packets left of one, then the association's queue.\<close>

lemma sctp_transmits_return:
  assumes "queues_finite X"
  shows "\<exists>r. while_poll (poll_part tp_sctp (\<lambda>l. tp_sctp_update (\<lambda>_. l)) (sctp_poll_transmit (sctp_calls X) now))
    (\<lambda>packet t. case dtls_write D packet now (tp_dtls t) of (d, r) \<Rightarrow> (t\<lparr>tp_dtls := d\<rparr>, r)) t = Some r"
proof -
  from queues_finiteD(5) [OF assms] obtain m where m: "drains (assoc_poll_transmit (sctp_calls X) now) m"
    by blast
  let ?R = "inv_image (less_than <*lex*> less_than)
    (\<lambda>t. (assoc_measure m (tp_sctp t), length (pending_transmits (tp_sctp t))))"
  have poll: "(t', t) \<in> ?R" if
    "poll_part tp_sctp (\<lambda>l. tp_sctp_update (\<lambda>_. l)) (sctp_poll_transmit (sctp_calls X) now) t = (Some x, t')" for t t' x
    using that m
    by (auto simp: poll_part_def sctp_poll_transmit_def drains_def Let_def assoc_measure_def
        split: prod.splits list.splits option.splits sctp_payload.splits)
  show ?thesis
    by (rule while_poll_returns [where R = ?R and P = "\<lambda>_. True"])
      (use poll in \<open>auto split: prod.splits\<close>)
qed

lemma drain_data_returns:
  "queues_finite X \<Longrightarrow> \<exists>r. drain_dcep_and_data (sctp_calls X) M now t = Some r"
  using drain_exchange_returns by (fastforce simp: drain_dcep_and_data_def run_ok_def split: option.splits)

lemma drive_transports_returns:
  assumes "queues_finite X"
  shows "\<exists>r. drive_transports X controlling now t = Some r"
proof -
  have "\<exists>r. while_poll (poll_part tp_dtls (\<lambda>d. tp_dtls_update (\<lambda>_. d)) (dtls_poll_transmit (dtls_calls X)))
      (\<lambda>(data, to) t. st_ok (t\<lparr>tp_output := tp_output t @ [SendPacket data to]\<rparr>)) t = Some r"
    for t :: "('e, 'f, 'g, 'h) transports"
  proof -
    from queues_finiteD(3) [OF assms] obtain m where "drains (dtls_endpoint_poll_transmit (dtls_calls X)) m"
      by blast
    then have "drains (dtls_poll_transmit (dtls_calls X)) (m \<circ> dtls_endpoint)"
      by (auto simp: drains_def dtls_poll_transmit_def poll_part_def split: prod.splits)
    then show ?thesis
      by (rule while_poll_part_returns) auto
  qed
  then show ?thesis
    unfolding drive_transports_def
    by (intro run_bind_returns sctp_events_return drain_data_returns sctp_transmits_return assms)
qed


section \<open>The handlers\<close>

lemma pump_transports_returns: "queues_finite X \<Longrightarrow> \<exists>r. pump_transports X now s = Some r"
proof -
  assume finite: "queues_finite X"
  show ?thesis
  proof (cases "session_sctp s = None \<or> session_dtls s = None")
    case False
    then obtain l d where "session_sctp s = Some l" "session_dtls s = Some d"
      by auto
    moreover from drive_transports_returns [OF finite, of "is_controlling s" now "take_transports l d s"]
    obtain t r where "drive_transports X (is_controlling s) now (take_transports l d s) = Some (t, r)"
      by auto
    ultimately show ?thesis
      by (cases r) (simp_all add: pump_transports_def run_ok_def)
  qed (auto simp: pump_transports_def run_ok_def split: option.splits)
qed

lemma pump_returns:
  assumes "queues_finite X"
  shows "\<exists>r. pump X now s = Some r"
proof -
  from queues_finiteD(1,2) [OF assms] obtain m m' where "drains (agent_poll_write (ice_calls X)) m"
    "drains (agent_poll_event (ice_calls X)) m'"
    by blast
  then have m: "drains (ice_poll_write (ice_calls X)) (m \<circ> ice_agent)" "drains (ice_poll_event (ice_calls X)) (m' \<circ> ice_agent)"
    by (auto simp: drains_def ice_poll_write_def ice_poll_event_def poll_part_def split: prod.splits)
  show ?thesis
    unfolding pump_def
    by (intro run_bind_returns while_poll_part_returns [OF m(1)] while_poll_part_returns [OF m(2)]
        pump_transports_returns assms)
      (auto simp: push_output_def fail_def run_ok_def)
qed

lemma sctp_handle_timeout_returns:
  assumes "queues_finite X"
  shows "\<exists>r. sctp_handle_timeout (sctp_calls X) now l = Some r"
proof -
  from queues_finiteD(4) [OF assms] obtain m where "drains (assoc_poll_endpoint_event (sctp_calls X)) m"
    by blast
  note drained = sctp_poll_endpoint_event_drains [OF this, unfolded drains_def]
  have "\<exists>r :: (('f, 'g, 'h) sctp_layer, protocol_error, unit) step. while_poll (sctp_poll_endpoint_event (sctp_calls X))
      (\<lambda>(handle, event) l. st_ok (l\<lparr>sctp_endpoint := sctp_endpoint_handle_event (sctp_calls X) handle event (sctp_endpoint l)\<rparr>))
      l = Some r" for l :: "('f, 'g, 'h) sctp_layer"
    by (rule while_poll_returns_measure [where m = "assoc_measure m"])
      (use drained in \<open>auto simp: assoc_measure_def\<close>)
  then show ?thesis
    by (simp add: sctp_handle_timeout_def run_ok_def split: option.splits prod.splits)
qed

lemma handle_timeout_returns:
  assumes "queues_finite X"
  shows "\<exists>r. handle_timeout X now s = Some r"
proof -
  have "\<exists>r. (case session_sctp s of
       None \<Rightarrow> run_ok s
     | Some sctp \<Rightarrow> map_option (map_prod (\<lambda>sctp'. s\<lparr>session_sctp := Some sctp'\<rparr>) id)
         (sctp_handle_timeout (sctp_calls X) now sctp)) = Some r" for s :: "('a, 'c, 'e, 'f, 'g, 'h) session"
    using sctp_handle_timeout_returns [OF assms, of now] by (fastforce simp: run_ok_def split: option.splits)
  then show ?thesis
    unfolding handle_timeout_def
    by (intro run_bind_returns pump_returns assms) (auto simp: run_ok_def)
qed


lemma set_remote_description_returns:
  "queues_finite X \<Longrightarrow> \<exists>r. set_remote_description X remote cs now s = Some r"
  unfolding set_remote_description_def Let_def
  by (intro run_bind_returns pump_returns) (auto simp: run_ok_def)

lemma handle_packet_returns: "queues_finite X \<Longrightarrow> \<exists>r. handle_packet X data peer now s = Some r"
  unfolding handle_packet_def
  by (intro run_bind_returns)
    (auto simp: run_ok_def simp del: split_paired_Ex intro!: run_bind_returns intro: pump_returns)

lemma session_handle_returns: "queues_finite X \<Longrightarrow> \<exists>r. session_handle X s msg = Some r"
  by (cases msg)
    (auto simp: session_handle_def add_remote_candidate_def simp del: split_paired_Ex
      intro!: handle_packet_returns set_remote_description_returns handle_timeout_returns run_bind_returns pump_returns)

end
