(* ===== verification/Session_Delivery.thy ===== *)
theory Session_Delivery
  imports Session
begin

text \<open>
  The reliable channel of a session as a queue of messages: what \<open>Session::send\<close> writes to its stream, and what the
  read loop of \<open>drain_dcep_and_data\<close> makes of a stream that holds those payloads.  \<open>stream_holds\<close> says what reading
  a stream of the SCTP association gives, \<open>stream_written\<close> what a sequence of writes does to it.
\<close>

fun stream_holds :: "('p, 'h, 'a, 'v, 'w) sctp_ops \<Rightarrow> u16 \<Rightarrow> bytes list \<Rightarrow> 'a \<Rightarrow> bool" where
  "stream_holds T sid [] a = (case stream_read T sid a of (_, Inr None) \<Rightarrow> True | _ \<Rightarrow> False)"
| "stream_holds T sid (p # ps) a =
     (case stream_read T sid a of
        (a', Inr (Some chunks)) \<Rightarrow>
          chunks_ppi chunks \<noteq> Dcep \<and> to_payload chunks MAX_PAYLOAD = Inr p \<and> stream_holds T sid ps a'
      | _ \<Rightarrow> False)"

fun stream_written :: "('p, 'h, 'a, 'v, 'w) sctp_ops \<Rightarrow> u16 \<Rightarrow> instant \<Rightarrow> bytes list \<Rightarrow> 'a \<Rightarrow> 'a option" where
  "stream_written T sid now [] a = Some a"
| "stream_written T sid now (p # ps) a =
     (case stream_write T sid now p Binary a of
        (a', Inr _) \<Rightarrow> stream_written T sid now ps a'
      | (_, Inl _) \<Rightarrow> None)"

text \<open>The payloads one message becomes.\<close>

definition payloads_of :: "channel \<Rightarrow> bytes \<Rightarrow> bytes list" where
  "payloads_of channel data =
     (case channel of
        Reliable \<Rightarrow> (case send_reliable data of Inr ps \<Rightarrow> ps | Inl _ \<Rightarrow> [])
      | Unreliable \<Rightarrow> (case encode_unreliable data of Inr p \<Rightarrow> [p] | Inl _ \<Rightarrow> []))"

text \<open>A successful send wrote exactly these payloads to the open stream and changed nothing else.\<close>

definition wrote ::
  "('i, 'k, 'c, 'g, 'd, 'p, 'h, 'a, 'v, 'w) session_ops \<Rightarrow> channel \<Rightarrow> instant \<Rightarrow> bytes list \<Rightarrow>
    ('i, 'c, 'd, 'p, 'h, 'a) session \<Rightarrow> ('i, 'c, 'd, 'p, 'h, 'a) session \<Rightarrow> bool" where
  "wrote X channel now ps s t \<longleftrightarrow>
     (case (stream_id (session_channels s) channel, session_sctp s) of
        (Some sid, Some l) \<Rightarrow>
          (case association l of
             Some (h, a) \<Rightarrow>
               (case stream_written (sctp_calls X) sid now ps a of
                  Some a' \<Rightarrow> t = s\<lparr>session_sctp := Some (l\<lparr>association := Some (h, a')\<rparr>)\<rparr>
                | None \<Rightarrow> False)
           | None \<Rightarrow> False)
      | _ \<Rightarrow> False)"

lemma write_segments_written:
  "write_segments T sid now segments a = (a', Inr ()) \<Longrightarrow>
     stream_written T sid now (map segment_encode segments) a = Some a'"
  by (induction segments arbitrary: a) (auto simp: st_ok_def split: prod.splits sum.splits)

lemma write_message_written:
  assumes "write_message T sid channel data now a = (a', Inr ())"
  shows "stream_written T sid now (payloads_of channel data) a = Some a'"
proof (cases channel)
  case Reliable
  with assms show ?thesis
    by (cases "split_into_segments data")
      (auto simp: write_message_def payloads_of_def send_reliable_def dest: write_segments_written)
next
  case Unreliable
  with assms show ?thesis
    by (cases "encode_unreliable data")
      (auto simp: write_message_def payloads_of_def map_err_eq_Inr split: prod.splits sum.splits)
qed

lemma write_message_accepts:
  "write_message T sid Reliable data now a = (a', Inr ()) \<Longrightarrow> \<exists>ps. send_reliable data = Inr ps"
  by (cases "split_into_segments data") (auto simp: write_message_def send_reliable_def)

lemma send_wrote:
  assumes "send X channel data now s = (t, Inr ())"
  shows "wrote X channel now (payloads_of channel data) s t \<and>
    (channel = Reliable \<longrightarrow> send_reliable data = Inr (payloads_of channel data))"
proof (cases "stream_id (session_channels s) channel"; cases "session_sctp s")
  fix sid l
  assume *: "stream_id (session_channels s) channel = Some sid" "session_sctp s = Some l"
  show ?thesis
  proof (cases "association l")
    case (Some ha)
    obtain h a where ha: "ha = (h, a)"
      by (cases ha)
    with * Some assms obtain a' where "write_message (sctp_calls X) sid channel data now a = (a', Inr ())"
      and "t = s\<lparr>session_sctp := Some (l\<lparr>association := Some (h, a')\<rparr>)\<rparr>"
      by (cases "assoc_stream (sctp_calls X) sid a") (auto simp: send_def split: prod.splits)
    with * Some ha show ?thesis
      by (auto simp: wrote_def payloads_of_def dest: write_message_written write_message_accepts)
  qed (use * assms in \<open>simp add: send_def\<close>)
qed (use assms in \<open>simp_all add: send_def\<close>)

text \<open>One payload, then the whole stream.\<close>

lemma receive_chunks_reliable:
  assumes "chunks_ppi chunks \<noteq> Dcep" "to_payload chunks MAX_PAYLOAD = Inr p"
    and "receive_reliable (reassembly (ex_channels e)) p = (m, out)"
  shows "receive_chunks Reliable chunks e =
    e\<lparr>ex_channels := ex_channels e\<lparr>reassembly := m\<rparr>,
      ex_output := ex_output e @ (case out of None \<Rightarrow> [] | Some msg \<Rightarrow> [Message Reliable msg])\<rparr>"
  using assms
  by (auto simp: receive_chunks_def receive_segment_def receive_reliable_def Let_def
      split: sum.splits prod.splits option.splits)

lemma read_loop_delivers:
  assumes "stream_holds T sid ps (ex_assoc e)"
  shows "\<exists>a. while_poll (poll_read T sid) (\<lambda>chunks e. st_ok (receive_chunks Reliable chunks e)) e =
    Some (e\<lparr>ex_assoc := a,
            ex_channels := ex_channels e\<lparr>reassembly := fst (receive_stream (reassembly (ex_channels e)) ps)\<rparr>,
            ex_output := ex_output e @ map (Message Reliable) (snd (receive_stream (reassembly (ex_channels e)) ps))\<rparr>,
          Inr ())"
  using assms
proof (induction ps arbitrary: e)
  case Nil
  then obtain a where "poll_read T sid e = (None, e\<lparr>ex_assoc := a\<rparr>)"
    by (auto simp: poll_read_def split: prod.splits sum.splits option.splits)
  then show ?case
    by (auto simp: while_poll.simps)
next
  case (Cons p ps)
  then obtain a chunks where read: "poll_read T sid e = (Some chunks, e\<lparr>ex_assoc := a\<rparr>)"
    and c: "chunks_ppi chunks \<noteq> Dcep" "to_payload chunks MAX_PAYLOAD = Inr p" and rest: "stream_holds T sid ps a"
    by (auto simp: poll_read_def split: prod.splits sum.splits option.splits)
  obtain m out where m: "receive_reliable (reassembly (ex_channels e)) p = (m, out)"
    by (cases "receive_reliable (reassembly (ex_channels e)) p")
  let ?e = "receive_chunks Reliable chunks (e\<lparr>ex_assoc := a\<rparr>)"
  from m have e: "?e = e\<lparr>ex_assoc := a, ex_channels := ex_channels e\<lparr>reassembly := m\<rparr>,
      ex_output := ex_output e @ (case out of None \<Rightarrow> [] | Some msg \<Rightarrow> [Message Reliable msg])\<rparr>"
    using receive_chunks_reliable [OF c, of "e\<lparr>ex_assoc := a\<rparr>" m out] by simp
  have "stream_holds T sid ps (ex_assoc ?e)"
    using rest by (simp add: e)
  from Cons.IH [OF this] show ?case
    using m by (auto simp: while_poll.simps [of _ _ e] read st_ok_def e split: prod.splits option.splits)
qed

lemma drain_reliable_delivers:
  assumes "stream_id (ex_channels e) Reliable = Some sid" "assoc_stream T sid (ex_assoc e) = Inr ()"
    and "stream_holds T sid ps (ex_assoc e)"
    and "receive_stream (reassembly (ex_channels e)) ps = (m, msgs)"
  shows "\<exists>e'. drain_channel T Reliable e = Some (e', Inr ()) \<and> reassembly (ex_channels e') = m \<and>
    ex_output e' = ex_output e @ map (Message Reliable) msgs"
  using read_loop_delivers [OF assms(3)] assms by (auto simp: drain_channel_def)

end
