(* ===== verification/Session_Sample.thy ===== *)
theory Session_Sample
  imports Session
begin

text \<open>
  An instance of the machines below a session, for the concrete runs that show the assumptions of the theorems can
  hold.  A candidate is its address, and adding a remote one selects it; DTLS passes data through; an
  association keeps what it has received and what it has still to send, in order, and a packet on the
  wire is the stream, the protocol and the payload.
\<close>

record sample_agent =
  agent_writes :: "(bytes \<times> socket_addr) list"
  agent_events :: "ice_event list"
  agent_remote :: "socket_addr option"

text \<open>\<open>pop_front\<close> on a queue of a machine.\<close>

definition pop :: "('s \<Rightarrow> 'x list) \<Rightarrow> ('x list \<Rightarrow> 's \<Rightarrow> 's) \<Rightarrow> 's \<Rightarrow> 'x option \<times> 's" where
  "pop queue set_queue s = (case queue s of [] \<Rightarrow> (None, s) | x # rest \<Rightarrow> (Some x, set_queue rest s))"

definition sample_ice :: "(sample_agent, socket_addr) ice_ops" where
  "sample_ice =
    \<lparr>agent_new = (\<lambda>now config. Inr \<lparr>agent_writes = [], agent_events = [], agent_remote = None\<rparr>),
     new_candidate_host = (\<lambda>network addr port component. Inr \<lparr>sock_ip = IpV4 (Ipv4 127 0 0 1), sock_port = port\<rparr>),
     add_local_candidate = (\<lambda>c i. (i, Inr ())),
     get_local_credentials = (\<lambda>i. \<lparr>ice_ufrag = ''local'', ice_pwd = ''secret''\<rparr>),
     get_local_candidates = (\<lambda>i. []),
     agent_set_remote_credentials = (\<lambda>u p i. (i, Inr ())),
     agent_add_remote_candidate = (\<lambda>c i. (i\<lparr>agent_writes := agent_writes i @ [([0], c)], agent_remote := Some c\<rparr>, Inr ())),
     agent_is_stun = (\<lambda>data. data = [0]),
     agent_handle_read = (\<lambda>data local peer now i. (i, Inr ())),
     agent_poll_write = pop agent_writes (\<lambda>q. agent_writes_update (\<lambda>_. q)),
     agent_poll_event = pop agent_events (\<lambda>q. agent_events_update (\<lambda>_. q)),
     agent_handle_timeout = (\<lambda>now i. (i, Inr ())),
     agent_poll_timeout = (\<lambda>i. (None, i)),
     get_selected_pair = (\<lambda>i. map_option (\<lambda>c. (c, c)) (agent_remote i)),
     candidate_addr = id\<rparr>"

definition sample_dtls :: "(bytes, unit, (bytes \<times> socket_addr) list) dtls_ops" where
  "sample_dtls =
    \<lparr>dtls_config_build = (\<lambda>config is_client remote. Inr ()),
     dtls_endpoint_new = (\<lambda>addr config. []),
     dtls_connect = (\<lambda>now remote config d. (d, Inr ())),
     dtls_endpoint_read = (\<lambda>now remote data d. (d, Inr [ApplicationData data])),
     dtls_endpoint_write = (\<lambda>now remote data d. (d @ [(data, remote)], Inr ())),
     dtls_endpoint_poll_transmit = pop id (\<lambda>q _. q),
     dtls_endpoint_handle_timeout = (\<lambda>remote now d. (d, Inr ())),
     dtls_endpoint_poll_timeout = (\<lambda>remote d. None)\<rparr>"

record sample_assoc =
  inbox :: "(u16 \<times> ppi \<times> bytes) list"
  outbox :: "(u16 \<times> ppi \<times> bytes) list"
  assoc_events :: "sctp_event list"
  incoming_streams :: "u16 list"

definition sample_assoc_new :: sample_assoc where
  "sample_assoc_new = \<lparr>inbox = [], outbox = [], assoc_events = [Connected], incoming_streams = []\<rparr>"

definition sample_wire :: "u16 \<times> ppi \<times> bytes \<Rightarrow> bytes" where
  "sample_wire packet = (case packet of (sid, ppi, data) \<Rightarrow> ucast sid # (if ppi = Dcep then 50 else 53) # data)"

text \<open>An open request (type 3) on a stream makes it an incoming one.\<close>

definition sample_deliver :: "bytes \<Rightarrow> sample_assoc \<Rightarrow> sample_assoc" where
  "sample_deliver packet a =
     (case packet of
        sid # ppi # data \<Rightarrow>
          (let a = a\<lparr>inbox := inbox a @ [(ucast sid, if ppi = 50 then Dcep else Binary, data)]\<rparr> in
           if ppi = 50 \<and> data \<noteq> [] \<and> hd data = 3 then a\<lparr>incoming_streams := incoming_streams a @ [ucast sid]\<rparr> else a)
      | _ \<Rightarrow> a)"

definition sample_chunks :: "ppi \<Rightarrow> bytes \<Rightarrow> stream_chunks" where
  "sample_chunks ppi data =
    \<lparr>chunks_ppi = ppi, to_payload = (\<lambda>size. if length data \<le> size then Inr data else Inl ''short buffer'')\<rparr>"

fun sample_take :: "u16 \<Rightarrow> (u16 \<times> ppi \<times> bytes) list \<Rightarrow> (ppi \<times> bytes) option \<times> (u16 \<times> ppi \<times> bytes) list" where
  "sample_take sid [] = (None, [])"
| "sample_take sid ((s, m) # rest) =
     (if s = sid then (Some m, rest) else (case sample_take sid rest of (found, left) \<Rightarrow> (found, (s, m) # left)))"

definition sample_read :: "u16 \<Rightarrow> sample_assoc \<Rightarrow> (sample_assoc, string, stream_chunks option) step" where
  "sample_read sid a =
     (case sample_take sid (inbox a) of
        (found, left) \<Rightarrow> (a\<lparr>inbox := left\<rparr>, Inr (map_option (\<lambda>(ppi, data). sample_chunks ppi data) found)))"

definition sample_sctp :: "(bool, unit, sample_assoc, bytes, unit) sctp_ops" where
  "sample_sctp =
    \<lparr>sctp_endpoint_new = (\<lambda>addr server. False),
     sctp_connect = (\<lambda>now config remote p. (True, Inr ((), sample_assoc_new))),
     sctp_endpoint_handle = (\<lambda>now remote data p.
       (Some ((), if p then AssociationEvent data else NewAssociation (sample_deliver data sample_assoc_new)), True)),
     sctp_endpoint_handle_event = (\<lambda>h event p. p),
     assoc_handle_event = sample_deliver,
     assoc_rtt = (\<lambda>a. 5),
     assoc_poll_transmit = (\<lambda>now a. case outbox a of
         [] \<Rightarrow> (None, a) | packet # rest \<Rightarrow> (Some (RawEncode [sample_wire packet]), a\<lparr>outbox := rest\<rparr>)),
     assoc_poll = pop assoc_events (\<lambda>q. assoc_events_update (\<lambda>_. q)),
     assoc_handle_timeout = (\<lambda>now a. a),
     assoc_poll_endpoint_event = (\<lambda>a. (None, a)),
     assoc_poll_timeout = (\<lambda>a. None),
     assoc_stream = (\<lambda>sid a. Inr ()),
     assoc_open_stream = (\<lambda>sid ppi a. (a, Inr ())),
     assoc_accept_stream = pop incoming_streams (\<lambda>q. incoming_streams_update (\<lambda>_. q)),
     stream_read = sample_read,
     stream_write = (\<lambda>sid now data ppi a. (a\<lparr>outbox := outbox a @ [(sid, ppi, data)]\<rparr>, Inr ()))\<rparr>"

definition sample_dcep :: dcep_ops where
  "sample_dcep =
    \<lparr>channel_priority_normal = 256,
     dcep_marshal = (\<lambda>m. case m of DataChannelOpen opn \<Rightarrow> Inr (3 # open_label opn) | DataChannelAck \<Rightarrow> Inr [2] | OtherDcep \<Rightarrow> Inl ''unknown''),
     dcep_unmarshal = (\<lambda>d. case d of
         [] \<Rightarrow> Inl ''short''
       | t # lbl \<Rightarrow> if t = 3 then Inr (DataChannelOpen \<lparr>open_channel_type = ChannelReliable, open_priority = 256,
             open_reliability_parameter = 0, open_label = lbl, open_protocol = []\<rparr>)
           else if t = 2 then Inr DataChannelAck else Inl ''unknown'')\<rparr>"

definition sample_machines ::
  "(sample_agent, socket_addr, bytes, unit, (bytes \<times> socket_addr) list, bool, unit, sample_assoc, bytes, unit) session_ops" where
  "sample_machines =
    \<lparr>ice_calls = sample_ice, cert_calls = sample_certificates, dtls_calls = sample_dtls, sctp_calls = sample_sctp,
     dcep_calls = sample_dcep\<rparr>"

definition sample_addr :: socket_addr where
  "sample_addr = \<lparr>sock_ip = IpV4 (Ipv4 127 0 0 1), sock_port = 7551\<rparr>"

end
