(* ===== verification/Session_Properties.thy ===== *)
theory Session_Properties
  imports Session_Invariant Session_Termination Session_Delivery Session_Sample
begin

text \<open>
  The properties of a session: its events and bounds over every history, that its handlers return, the deadline for
  establishing it, and its reliable channel as a queue of messages.
\<close>


section \<open>Histories\<close>

text \<open>A session and what has been polled from it: creation, the deadline setter, a handled input whatever its
  result, and a poll.\<close>

inductive session_reachable ::
  "('i, 'k, 'c, 'g, 'd, 'p, 'h, 'a, 'v, 'w) session_ops \<Rightarrow> ('i, 'c, 'd, 'p, 'h, 'a) session \<Rightarrow> session_output list \<Rightarrow> bool"
  for X :: "('i, 'k, 'c, 'g, 'd, 'p, 'h, 'a, 'v, 'w) session_ops" where
  created: "with_advertised X drawn addr advertised controlling now = Inr (s, d) \<Longrightarrow> session_reachable X s []"
| deadline: "session_reachable X s polled \<Longrightarrow> session_reachable X (set_establish_deadline within s) polled"
| handled: "session_reachable X s polled \<Longrightarrow> session_handle X s msg = Some (t, r) \<Longrightarrow> session_reachable X t polled"
| polled: "session_reachable X s polled \<Longrightarrow> session_poll s = Some (out, t) \<Longrightarrow> session_reachable X t (polled @ [out])"

definition session_inv :: "('i, 'c, 'd, 'p, 'h, 'a) session \<Rightarrow> session_output list \<Rightarrow> bool" where
  "session_inv s polled \<longleftrightarrow>
     count_list (polled @ session_output s) (Event Ready) = of_bool (ready_emitted (session_channels s)) \<and>
     count_list (polled @ session_output s) (Event Failed) = of_bool (failed_emitted (session_channels s)) \<and>
     list_all bounded_output (polled @ session_output s) \<and>
     message_inv (reassembly (session_channels s)) \<and> transport_inv s"

lemma session_inv_step:
  assumes "session_inv s polled" "session_rel s t"
  shows "session_inv t polled"
proof -
  from assms(2) obtain added where "session_output t = session_output s @ added"
    "count_list added (Event Ready) + of_bool (ready_emitted (session_channels s)) =
       (of_bool (ready_emitted (session_channels t)) :: nat)"
    "count_list added (Event Failed) + of_bool (failed_emitted (session_channels s)) =
       (of_bool (failed_emitted (session_channels t)) :: nat)"
    "message_inv (reassembly (session_channels s)) \<longrightarrow>
       message_inv (reassembly (session_channels t)) \<and> list_all bounded_output added"
    unfolding session_rel_def advances_def session_view_def by auto
  with assms show ?thesis
    by (auto simp: session_inv_def session_rel_def)
qed

lemma created_inv: "with_advertised X drawn addr advertised controlling now = Inr (s, d) \<Longrightarrow> session_inv s []"
  by (auto simp: with_advertised_def session_inv_def transport_inv_def channels_default_def res_simps)

lemma transport_inv_unseen [simp]:
  "transport_inv (s\<lparr>session_output := q\<rparr>) = transport_inv s"
  "transport_inv (s\<lparr>establish_within := w\<rparr>) = transport_inv s"
  by (simp_all add: transport_inv_def split: option.splits)

lemma reachable_inv: "session_reachable X s polled \<Longrightarrow> session_inv s polled"
proof (induction rule: session_reachable.induct)
  case (handled s polled msg t r)
  with session_handle_rel [of s X msg] show ?case
    by (auto simp: keeps_def intro: session_inv_step)
next
  case (polled s polled out t)
  then show ?case
    by (auto simp: session_poll_def pop_front_Some session_inv_def)
next
  case (deadline s polled within)
  then show ?case
    by (simp add: set_establish_deadline_def session_inv_def)
qed (rule created_inv)


section \<open>Concrete runs\<close>

lemma sample_queues_finite: "queues_finite sample_machines"
proof -
  have pops: "drains (pop queue set_queue) (length \<circ> queue)" if "\<And>q s. queue (set_queue q s) = q"
    for queue :: "'s \<Rightarrow> 'x list" and set_queue
    using that by (auto simp: drains_def pop_def split: list.splits)
  have taken: "length (snd (sample_take sid b)) < length b \<or> fst (sample_take sid b) = None" for sid b
    by (induction b) (auto split: prod.splits)
  have read: "incoming_streams (fst (sample_read sid a)) = incoming_streams a" for sid a
    by (simp add: sample_read_def split: prod.splits)
  show ?thesis
    unfolding queues_finite_def
  proof (intro conjI allI)
    show "\<exists>m. drains (agent_poll_write (ice_calls sample_machines)) m"
      "\<exists>m. drains (agent_poll_event (ice_calls sample_machines)) m"
      "\<exists>m. drains (dtls_endpoint_poll_transmit (dtls_calls sample_machines)) m"
      by (force simp: sample_machines_def sample_ice_def sample_dtls_def intro: pops)+
    show "\<exists>m. drains (assoc_poll_endpoint_event (sctp_calls sample_machines)) m"
      by (simp add: sample_machines_def sample_sctp_def drains_def)
    show "\<exists>m. drains (assoc_poll_transmit (sctp_calls sample_machines) now) m" for now
      by (rule exI [of _ "length \<circ> outbox"])
        (auto simp: sample_machines_def sample_sctp_def drains_def split: list.splits)
    show "\<exists>m. drains (assoc_poll (sctp_calls sample_machines)) m \<and>
        (\<forall>sid ppi a. m (fst (assoc_open_stream (sctp_calls sample_machines) sid ppi a)) \<le> m a) \<and>
        (\<forall>sid now data ppi a. m (fst (stream_write (sctp_calls sample_machines) sid now data ppi a)) \<le> m a)"
      by (rule exI [of _ "length \<circ> assoc_events"]) (simp add: sample_machines_def sample_sctp_def pops)
    show "\<exists>m. drains (assoc_accept_stream (sctp_calls sample_machines)) m \<and>
        (\<forall>sid a. m (fst (stream_read (sctp_calls sample_machines) sid a)) \<le> m a) \<and>
        (\<forall>sid now data ppi a. m (fst (stream_write (sctp_calls sample_machines) sid now data ppi a)) \<le> m a)"
      by (rule exI [of _ "length \<circ> incoming_streams"]) (simp add: sample_machines_def sample_sctp_def pops read)
    show "\<exists>m. \<forall>a a' chunks. stream_read (sctp_calls sample_machines) sid a = (a', Inr (Some chunks)) \<longrightarrow> (m a' :: nat) < m a" for sid
      by (rule exI [of _ "length \<circ> inbox"])
        (use taken [of sid] in \<open>auto simp: sample_machines_def sample_sctp_def sample_read_def split: prod.splits, metis fst_conv option.distinct(1) snd_conv\<close>)
  qed
qed

text \<open>A controlling session that has been created, and one that was given a remote description without candidates.\<close>

definition sample_session ::
  "(sample_agent, bytes, (bytes \<times> socket_addr) list, bool, unit, sample_assoc) session" where
  "sample_session =
    \<lparr>is_controlling = True, session_local_addr = sample_addr,
     session_ice = \<lparr>ice_agent = \<lparr>agent_writes = [], agent_events = [], agent_remote = None\<rparr>, ice_local_addr = sample_addr\<rparr>,
     session_certificate = Some [1, 2, 3], pending_role_fingerprint = None,
     remote_max_message_size = SCTP_MAX_MESSAGE_SIZE, early_packets = [], session_remote = None,
     session_dtls = None, session_sctp = None, session_channels = channels_default, session_output = [],
     establish_within = DEFAULT_ESTABLISH_DEADLINE, establish_started = None\<rparr>"

lemma sample_created: "\<exists>d. with_advertised sample_machines (''u'', ''p'') sample_addr [] True 0 = Inr (sample_session, d)"
  by (simp add: with_advertised_def ice_with_advertised_def certificate_generate_def crypto_provider_def
      certificate_fingerprint_def sample_machines_def sample_ice_def sample_certificates_def sample_session_def)

definition sample_waiting ::
  "(sample_agent, bytes, (bytes \<times> socket_addr) list, bool, unit, sample_assoc) session" where
  "sample_waiting = sample_session
    \<lparr>remote_max_message_size := 7, pending_role_fingerprint := Some (ResolvedClient, ''sha-256'', ''AB:CD''),
     session_output := [Wait (10 * second)], establish_started := Some 1\<rparr>"

lemma run_bind_step_ok [simp]: "run_bind (Some (st_ok s)) f = f () s"
  by (simp add: st_ok_def)

lemma sample_idle_loops:
  assumes "agent_writes (ice_agent (session_ice s)) = []" "agent_events (ice_agent (session_ice s)) = []"
    and "agent_remote (ice_agent (session_ice s)) = None" "session_sctp s = None"
  shows "pump sample_machines now s = run_ok (fail_when_overdue now (emit_ready s))"
  using assms
  by (simp add: pump_def while_poll.simps poll_part_def ice_poll_write_def ice_poll_event_def sample_machines_def
      sample_ice_def pop_def start_transports_on_selected_pair_def selected_remote_addr_def pump_transports_def run_ok_def
      st_ok_def)

lemma sample_described:
  "session_handle sample_machines sample_session (RemoteDescription (sample_description\<lparr>desc_role := DtlsServer\<rparr>) [] 1) =
     Some (sample_waiting, Inr ())"
  by (simp add: session_handle_def set_remote_description_def on_ice_def ice_set_remote_credentials_def on_agent_def
      sample_idle_loops sample_session_def sample_description_def sample_waiting_def Let_def emit_ready_def
      fail_when_overdue_def establish_deadline_def channels_default_def DEFAULT_ESTABLISH_DEADLINE_def second_def
      push_wait_def session_poll_timeout_def least_instant_def push_output_def ice_poll_timeout_def poll_part_def
      from_remote_announced_def effective_max_message_size_def run_ok_def
      sample_machines_def [THEN arg_cong, of ice_calls] sample_ice_def)


lemma sample_reachable:
  "session_reachable sample_machines sample_session []" "session_reachable sample_machines sample_waiting []"
proof -
  from sample_created obtain d where
    "with_advertised sample_machines (''u'', ''p'') sample_addr [] True 0 = Inr (sample_session, d)"
    by blast
  then show first: "session_reachable sample_machines sample_session []"
    by (rule session_reachable.created)
  from session_reachable.handled [OF first sample_described]
  show "session_reachable sample_machines sample_waiting []" .
qed

text \<open>A message of two bytes on its way to a session whose reliable channel is stream 1.\<close>

definition sample_channels :: channels where
  "sample_channels = set_open Reliable 1 channels_default"

definition sample_exchange :: "sample_assoc exchange" where
  "sample_exchange =
    \<lparr>ex_assoc = sample_assoc_new\<lparr>inbox := [(1, Binary, [0, 4, 2]), (3, Binary, [0, 9]), (1, Binary, [0, 6])]\<rparr>,
     ex_channels = sample_channels, ex_output = []\<rparr>"

definition sample_sender ::
  "bytes list \<Rightarrow> (sample_agent, bytes, (bytes \<times> socket_addr) list, bool, unit, sample_assoc) session" where
  "sample_sender payloads = sample_session
    \<lparr>session_channels := sample_channels,
     session_sctp := Some \<lparr>sctp_endpoint = True, sctp_remote_addr = sample_addr,
       association = Some ((), sample_assoc_new\<lparr>outbox := map (\<lambda>p. (1, Binary, p)) payloads\<rparr>), pending_transmits = []\<rparr>\<rparr>"

lemma sample_sends:
  assumes "data \<noteq> []" "length data \<le> 9"
  shows "send sample_machines Reliable data now (sample_sender ps) = (sample_sender (ps @ [0 # data]), Inr ())"
    and "payloads_of Reliable data = [0 # data]"
  using assms
  by (simp_all add: send_def sample_sender_def sample_channels_def set_open_def stream_id_def sample_machines_def
      sample_sctp_def write_message_def split_into_segments_def MAX_MESSAGE_SIZE_def segment_encode_def payloads_of_def
      send_reliable_def st_ok_def)


section \<open>Properties\<close>

text \<open>C6: Over every history of a session, whatever the machines below it do and whatever its handlers return: \<open>Ready\<close> and
  \<open>Failed\<close> have each been output exactly as often as their flags say, so at most once; no reliable message is larger
  than the reassembly bound; before the transports start at most eight packets are held, and once they have
  started none is held, the certificate is used up, and DTLS and SCTP exist together.\<close>

theorem session_events_once:
  assumes "session_reachable X s polled"
  shows "count_list (polled @ session_output s) (Event Ready) = of_bool (ready_emitted (session_channels s)) \<and>
    count_list (polled @ session_output s) (Event Failed) = of_bool (failed_emitted (session_channels s)) \<and>
    (\<forall>m. Message Reliable m \<in> set (polled @ session_output s) \<longrightarrow> length m \<le> MAX_REASSEMBLED_SIZE) \<and>
    (case (session_dtls s, session_sctp s) of
       (None, None) \<Rightarrow> length (early_packets s) \<le> 8
     | (Some _, Some _) \<Rightarrow> early_packets s = [] \<and> session_certificate s = None
     | _ \<Rightarrow> False)"
proof -
  from reachable_inv [OF assms] have "bounded_output (Message Reliable m)"
    if "Message Reliable m \<in> set (polled @ session_output s)" for m
    using that by (simp add: session_inv_def list_all_iff)
  then show ?thesis
    using reachable_inv [OF assms]
    by (simp add: session_inv_def transport_inv_def MAX_EARLY_PACKETS_def bounded_output_def split: option.splits)
qed

theorem session_events_once_witness:
  "session_reachable sample_machines sample_waiting [] \<and>
   count_list (session_output sample_waiting) (Event Failed) = 0 \<and> length (early_packets sample_waiting) \<le> 8"
  using session_events_once [OF sample_reachable(2)] sample_reachable(2)
  by (simp add: sample_waiting_def sample_session_def channels_default_def)

text \<open>C18: Every handler returns: when the queues of the machines below are finite, no input makes a loop of the session run
  forever.\<close>

theorem session_handler_returns:
  assumes "queues_finite X"
  shows "\<exists>t r. session_handle X s msg = Some (t, r)"
  using session_handle_returns [OF assms, of s msg] by auto

theorem session_handler_returns_witness:
  "queues_finite sample_machines \<and>
   (\<exists>t r. session_handle sample_machines sample_waiting (RemoteCandidate sample_addr 5) = Some (t, r))"
  using session_handler_returns [OF sample_queues_finite] sample_queues_finite by blast

text \<open>C19: A session that was given a remote description does not hang.  After each remote description and each timeout
  that succeeds, either \<open>Ready\<close> or \<open>Failed\<close> has been emitted, or the establishing deadline lies ahead and the
  last output asks the driver to come back no later than it.  The first description fixes the deadline.\<close>

theorem establish_deadline_enforced:
  assumes "session_handle X s msg = Some (t, Inr ())"
    and "msg = Timeout now \<or> (\<exists>remote cs. msg = RemoteDescription remote cs now)"
    and "establish_started t = Some start"
  shows "ready_emitted (session_channels t) \<or> failed_emitted (session_channels t) \<or>
    now < start + establish_within t \<and>
    (\<exists>q w. session_output t = q @ [Wait w] \<and> now + w \<le> start + establish_within t)"
proof -
  from assms(1,2) obtain u where "run_bind (pump X now u) (\<lambda>_ s. run_ok (push_wait X now s)) = Some (t, Inr ())"
    by (auto simp: session_handle_def handle_timeout_def set_remote_description_def Let_def run_bind_eq_Some [of "Some _"]
        run_bind_eq_Some [of "case_option _ _ _"])
  from pump_then_wait [OF this] assms(3) show ?thesis
    by (auto simp: establish_deadline_def)
qed

theorem establish_deadline_enforced_witness:
  "\<exists>q w. session_output sample_waiting = q @ [Wait w] \<and> 1 + w \<le> 1 + 10 * second"
  using establish_deadline_enforced [OF sample_described, of 1 1]
  by (simp add: sample_waiting_def sample_session_def channels_default_def DEFAULT_ESTABLISH_DEADLINE_def)



end
