(* ===== verification/Connection.thy ===== *)
theory Connection
  imports Session_Properties Signal
begin

text \<open>
  \<open>nethernet/src/connection.rs\<close>: a session bound to a connection id and a remote network id, with the signals that
  set it up.  The clock read for the SDP session id is an argument of the encoding operations.  Proved here: signals
  for another connection or another network change nothing, and what each kind of signal does; and the two sides of a
  negotiation agree on roles, credentials and pinned fingerprints.
\<close>

datatype ice_mode = Full | Trickle

datatype signal_kind = OfferKind | AnswerKind

record ('i, 'c, 'd, 'p, 'h, 'a) connection =
  conn_session :: "('i, 'c, 'd, 'p, 'h, 'a) session"
  conn_id :: u64
  conn_network_id :: string
  conn_remote_identity :: "string option"

text \<open>The libraries a connection uses besides those of its session.\<close>

record ('m, 's, 'k) signal_ops =
  sdp_calls :: "('m, 's) sdp_ops"
  candidate_calls :: "'k candidate_ops"

definition describe ::
  "('i, 'k, 'c, 'g, 'd, 'p, 'h, 'a, 'v, 'w) session_ops \<Rightarrow> ('m, 's, 'k) signal_ops \<Rightarrow> nat option \<Rightarrow>
    ('i, 'c, 'd, 'p, 'h, 'a) session \<Rightarrow> description \<Rightarrow> ice_mode \<Rightarrow> u64 \<Rightarrow> string \<Rightarrow> signal_kind \<Rightarrow> signal list" where
  "describe X Y clock s d mode cid nid kind =
     (let sdp = (case mode of
            Full \<Rightarrow> encode_full (sdp_calls Y) (candidate_calls Y) clock d (session_local_candidates X s)
          | Trickle \<Rightarrow> encode_trickle (sdp_calls Y) clock d)
      in (case kind of OfferKind \<Rightarrow> signal_offer cid sdp nid | AnswerKind \<Rightarrow> signal_answer cid sdp nid) #
         (if mode = Trickle
          then map (\<lambda>c. signal_candidate cid (format_ice_candidate (candidate_calls Y) 0 c (ice_ufrag (desc_ice d))) nid)
                 (session_local_candidates X s)
          else []))"

definition connect ::
  "('i, 'k, 'c, 'g, 'd, 'p, 'h, 'a, 'v, 'w) session_ops \<Rightarrow> ('m, 's, 'k) signal_ops \<Rightarrow> nat option \<Rightarrow>
    ('i, 'c, 'd, 'p, 'h, 'a) session \<Rightarrow> description \<Rightarrow> u64 \<Rightarrow> string \<Rightarrow> ice_mode \<Rightarrow>
    ('i, 'c, 'd, 'p, 'h, 'a) connection \<times> signal list" where
  "connect X Y clock s d cid nid mode =
     (\<lparr>conn_session = s, conn_id = cid, conn_network_id = nid, conn_remote_identity = None\<rparr>,
      describe X Y clock s d mode cid nid OfferKind)"

definition parse_offer :: "('m, 's, 'k) signal_ops \<Rightarrow> signal \<Rightarrow> (protocol_error, description \<times> 'k list) result" where
  "parse_offer Y offer =
     (if sig_type offer \<noteq> Offer then Inl (Other ''expected an offer signal'')
      else description_parse (sdp_calls Y) (candidate_calls Y) (sig_data offer))"

text \<open>The session is moved in, so an error drops it; \<open>None\<close> is a session that never returns.\<close>

definition accept ::
  "('i, 'k, 'c, 'g, 'd, 'p, 'h, 'a, 'v, 'w) session_ops \<Rightarrow> ('m, 's, 'k) signal_ops \<Rightarrow> nat option \<Rightarrow>
    ('i, 'c, 'd, 'p, 'h, 'a) session \<Rightarrow> description \<Rightarrow> signal \<Rightarrow> description \<Rightarrow> 'k list \<Rightarrow> ice_mode \<Rightarrow> instant \<Rightarrow>
    (protocol_error, ('i, 'c, 'd, 'p, 'h, 'a) connection \<times> signal list) result option" where
  "accept X Y clock s d offer remote cs mode now =
     (if sig_type offer \<noteq> Offer then Some (Inl (Other ''expected an offer signal''))
      else case session_handle X s (RemoteDescription remote cs now) of
        None \<Rightarrow> None
      | Some (_, Inl e) \<Rightarrow> Some (Inl e)
      | Some (s', Inr _) \<Rightarrow>
          Some (Inr
            (\<lparr>conn_session = s', conn_id = connection_id offer, conn_network_id = network_id offer,
              conn_remote_identity = desc_identity remote\<rparr>,
             describe X Y clock s' d mode (connection_id offer) (network_id offer) AnswerKind)))"

type_synonym ('i, 'c, 'd, 'p, 'h, 'a) connection_run =
  "(('i, 'c, 'd, 'p, 'h, 'a) connection, protocol_error, unit) run"

definition on_session ::
  "('i, 'c, 'd, 'p, 'h, 'a) session_run \<Rightarrow> ('i, 'c, 'd, 'p, 'h, 'a) connection \<Rightarrow>
    ('i, 'c, 'd, 'p, 'h, 'a) connection_run" where
  "on_session r c = map_option (map_prod (\<lambda>s. c\<lparr>conn_session := s\<rparr>) id) r"

definition conn_handle_signal ::
  "('i, 'k, 'c, 'g, 'd, 'p, 'h, 'a, 'v, 'w) session_ops \<Rightarrow> ('m, 's, 'k) signal_ops \<Rightarrow> signal \<Rightarrow> instant \<Rightarrow>
    ('i, 'c, 'd, 'p, 'h, 'a) connection \<Rightarrow> ('i, 'c, 'd, 'p, 'h, 'a) connection_run" where
  "conn_handle_signal X Y sgl now c =
     (if connection_id sgl \<noteq> conn_id c \<or> network_id sgl \<noteq> conn_network_id c then run_ok c
      else case sig_type sgl of
        Answer \<Rightarrow>
          (case description_parse (sdp_calls Y) (candidate_calls Y) (sig_data sgl) of
             Inl e \<Rightarrow> Some (c, Inl e)
           | Inr (d, cs) \<Rightarrow>
               on_session (session_handle X (conn_session c) (RemoteDescription d cs now))
                 (c\<lparr>conn_remote_identity := desc_identity d\<rparr>))
      | Candidate \<Rightarrow>
          (case parse_ice_candidate (candidate_calls Y) (sig_data sgl) of
             Inl e \<Rightarrow> Some (c, Inl e)
           | Inr cand \<Rightarrow> on_session (session_handle X (conn_session c) (RemoteCandidate cand now)) c)
      | Error \<Rightarrow> Some (c, Inl (Other (''remote signaled a connection error: '' @ sig_data sgl)))
      | Offer \<Rightarrow> run_ok c)"

definition remote_identity :: "('i, 'c, 'd, 'p, 'h, 'a) connection \<Rightarrow> string option" where
  "remote_identity c = conn_remote_identity c"

definition connection_remote_addr ::
  "('i, 'k, 'c, 'g, 'd, 'p, 'h, 'a, 'v, 'w) session_ops \<Rightarrow> ('i, 'c, 'd, 'p, 'h, 'a) connection \<Rightarrow> socket_addr option" where
  "connection_remote_addr X c = session_remote_addr X (conn_session c)"

definition connection_rtt ::
  "('i, 'k, 'c, 'g, 'd, 'p, 'h, 'a, 'v, 'w) session_ops \<Rightarrow> ('i, 'c, 'd, 'p, 'h, 'a) connection \<Rightarrow> duration option" where
  "connection_rtt X c = session_rtt X (conn_session c)"

datatype connection_input =
    ConnPacket bytes socket_addr instant
  | ConnTimeout instant
  | ConnSignal signal instant
  | ConnSend channel bytes instant

definition connection_handle ::
  "('i, 'k, 'c, 'g, 'd, 'p, 'h, 'a, 'v, 'w) session_ops \<Rightarrow> ('m, 's, 'k) signal_ops \<Rightarrow>
    ('i, 'c, 'd, 'p, 'h, 'a) connection \<Rightarrow> connection_input \<Rightarrow> ('i, 'c, 'd, 'p, 'h, 'a) connection_run" where
  "connection_handle X Y c msg =
     (case msg of
        ConnPacket data peer now \<Rightarrow> on_session (session_handle X (conn_session c) (Packet data peer now)) c
      | ConnTimeout now \<Rightarrow> on_session (session_handle X (conn_session c) (Timeout now)) c
      | ConnSignal sgl now \<Rightarrow> conn_handle_signal X Y sgl now c
      | ConnSend channel data now \<Rightarrow> on_session (session_handle X (conn_session c) (SendMessage channel data now)) c)"

definition connection_poll ::
  "('i, 'c, 'd, 'p, 'h, 'a) connection \<Rightarrow> (session_output \<times> ('i, 'c, 'd, 'p, 'h, 'a) connection) option" where
  "connection_poll c = map_option (\<lambda>(out, s). (out, c\<lparr>conn_session := s\<rparr>)) (session_poll (conn_session c))"

record timeouts =
  negotiation_timeout :: duration
  start_timeout :: duration
  channel_timeout :: duration

definition establish :: "timeouts \<Rightarrow> duration" where
  "establish t = start_timeout t + channel_timeout t"

definition timeouts_default :: timeouts where
  "timeouts_default = \<lparr>negotiation_timeout = 15 * second, start_timeout = 5 * second, channel_timeout = 5 * second\<rparr>"



section \<open>Lemmas\<close>

lemma on_session_Some:
  "on_session r c = Some (c', x) \<longleftrightarrow> (\<exists>s. r = Some (s, x) \<and> c' = c\<lparr>conn_session := s\<rparr>)"
  by (auto simp: on_session_def)

lemma session_handle_relD: "session_handle X s msg = Some (t, r) \<Longrightarrow> session_rel s t"
  using session_handle_rel [of s X msg] by (simp add: keeps_def)

definition bound_as :: "('i, 'c, 'd, 'p, 'h, 'a) connection \<Rightarrow> ('i, 'c, 'd, 'p, 'h, 'a) connection \<Rightarrow> bool" where
  "bound_as c c' \<longleftrightarrow>
     conn_id c' = conn_id c \<and> conn_network_id c' = conn_network_id c \<and> session_rel (conn_session c) (conn_session c')"

lemma bound_as_refl: "bound_as c c"
  by (simp add: bound_as_def sr.rel_refl)

lemma on_session_bound:
  "on_session (session_handle X (conn_session c) msg) d = Some (c', r) \<Longrightarrow>
     conn_id d = conn_id c \<Longrightarrow> conn_network_id d = conn_network_id c \<Longrightarrow> bound_as c c'"
  by (auto simp: on_session_Some bound_as_def dest: session_handle_relD)

lemma handle_signal_bound:
  assumes "conn_handle_signal X Y sgl now c = Some (c', r)"
  shows "bound_as c c'"
proof (cases "connection_id sgl \<noteq> conn_id c \<or> network_id sgl \<noteq> conn_network_id c")
  case False
  show ?thesis
  proof (cases "sig_type sgl")
    case Answer
    with False assms show ?thesis
      by (auto simp: conn_handle_signal_def bound_as_refl split: sum.splits intro: on_session_bound)
  next
    case Candidate
    with False assms show ?thesis
      by (auto simp: conn_handle_signal_def bound_as_refl split: sum.splits intro: on_session_bound)
  qed (use False assms in \<open>auto simp: conn_handle_signal_def run_ok_def bound_as_refl\<close>)
qed (use assms in \<open>auto simp: conn_handle_signal_def run_ok_def bound_as_refl\<close>)

lemma foreign_signal_ignored:
  "connection_id sgl \<noteq> conn_id c \<or> network_id sgl \<noteq> conn_network_id c \<or> sig_type sgl = Offer \<Longrightarrow>
     conn_handle_signal X Y sgl now c = Some (c, Inr ())"
  by (auto simp: conn_handle_signal_def run_ok_def)

lemma created_parts:
  assumes "with_advertised X drawn addr advertised controlling now = Inr (s, d)"
  shows "desc_role d = (if controlling then DtlsServer else DtlsAuto)"
    and "desc_ice d = local_credentials (ice_calls X) (session_ice s)"
    and "\<exists>cert. session_certificate s = Some cert \<and> certificate_fingerprint (cert_calls X) cert = Inr (desc_fingerprint d)"
    and "fst (desc_fingerprint d) = ''sha-256''" "\<exists>digest. snd (desc_fingerprint d) = colon_hex digest"
    and "desc_identity d = None"
  using assms
  by (auto simp: with_advertised_def res_simps) (auto simp: certificate_fingerprint_def split: list.splits)

text \<open>The SDP text of a description is read back in both modes.\<close>

definition readable :: "('m, 's, 'k) signal_ops \<Rightarrow> nat option \<Rightarrow> description \<Rightarrow> bool" where
  "readable Y clock d \<longleftrightarrow>
     (\<forall>cs. reads_back (sdp_calls Y)
        (sdp_session_of (sdp_calls Y) clock (full_media (sdp_calls Y) (candidate_calls Y) d cs) (desc_identity d))) \<and>
     reads_back (sdp_calls Y) (sdp_session_of (sdp_calls Y) clock (trickle_media (sdp_calls Y) d) (desc_identity d))"

lemma described_parses:
  assumes "sdp_laws (sdp_calls Y)" "readable Y clock d" "CHR '' '' \<notin> set (fst (desc_fingerprint d))"
  shows "\<exists>cs. description_parse (sdp_calls Y) (candidate_calls Y) (sig_data (hd (describe X Y clock s d mode cid nid kind))) =
    Inr (d\<lparr>desc_role := announced (desc_role d)\<rparr>, cs)"
proof (cases mode)
  case Full
  have "sig_data (hd (describe X Y clock s d mode cid nid kind)) =
      encode_full (sdp_calls Y) (candidate_calls Y) clock d (session_local_candidates X s)"
    using Full by (cases kind) (simp_all add: describe_def signal_offer_def signal_answer_def signal_new_def)
  then show ?thesis
    using parse_encode_full [OF assms(1,3), of clock "candidate_calls Y" "session_local_candidates X s"] assms(2)
    by (simp add: readable_def)
next
  case Trickle
  have "sig_data (hd (describe X Y clock s d mode cid nid kind)) = encode_trickle (sdp_calls Y) clock d"
    using Trickle by (cases kind) (simp_all add: describe_def signal_offer_def signal_answer_def signal_new_def)
  then show ?thesis
    using parse_encode_trickle [OF assms(1,3), of clock "candidate_calls Y"] assms(2) by (simp add: readable_def)
qed

lemma described_kind: "sig_type (hd (describe X Y clock s d mode cid nid kind)) = (case kind of OfferKind \<Rightarrow> Offer | AnswerKind \<Rightarrow> Answer)"
  by (cases kind) (simp_all add: describe_def signal_offer_def signal_answer_def signal_new_def Let_def)


section \<open>An instance\<close>

definition sample_signals :: "(attribute list, attribute list \<times> attribute list, socket_addr) signal_ops" where
  "sample_signals =
    \<lparr>sdp_calls = sample_sdp,
     candidate_calls = \<lparr>cand_marshal = (\<lambda>c. ''host''), cand_unmarshal = (\<lambda>t. Inr sample_addr)\<rparr>\<rparr>"

lemma sample_readable:
  assumes "CHR 0x0A \<notin> set (ice_ufrag (desc_ice d))" "CHR 0x0A \<notin> set (ice_pwd (desc_ice d))"
    and "CHR 0x0A \<notin> set (fst (desc_fingerprint d))" "CHR 0x0A \<notin> set (snd (desc_fingerprint d))"
    and "desc_identity d = None"
  shows "readable sample_signals clock d"
proof -
  have "reads_back sample_sdp (sdp_session_of sample_sdp clock
      (full_media sample_sdp (candidate_calls sample_signals) d cs) (desc_identity d))" for cs
    by (rule sample_description_reads_back(1)) (use assms in \<open>simp_all add: sample_signals_def\<close>)
  moreover have "reads_back sample_sdp (sdp_session_of sample_sdp clock (trickle_media sample_sdp d) (desc_identity d))"
    by (rule sample_description_reads_back(2) [where cs = "[]"]) (use assms in simp_all)
  ultimately show ?thesis
    by (simp add: readable_def sample_signals_def)
qed

lemma colon_hex_plain: "CHR 0x0A \<notin> set (colon_hex bs)"
proof -
  have "CHR 0x0A \<noteq> upper_hex_digit n" if "n < 16" for n
  proof
    assume "CHR 0x0A = upper_hex_digit n"
    then have "(of_char (upper_hex_digit n) :: nat) = of_char (CHR 0x0A)"
      by metis
    with that show False
      by (simp add: upper_hex_digit_def split: if_splits)
  qed
  moreover have "unat b div 16 < 16" for b :: u8
    using unat_bound [of b] by simp
  ultimately have "CHR 0x0A \<notin> set (hex_byte b)" for b
    by (simp add: hex_byte_def)
  then show ?thesis
    by (induction bs rule: induct_list012) (auto simp: colon_hex_def)
qed

lemma sample_created_readable:
  assumes "with_advertised sample_machines drawn addr advertised controlling now = Inr (s, d)"
  shows "readable sample_signals clock d"
proof -
  have "desc_ice d = \<lparr>ice_ufrag = ''local'', ice_pwd = ''secret''\<rparr>"
    using created_parts(2) [OF assms] by (simp add: local_credentials_def sample_machines_def sample_ice_def)
  then show ?thesis
    using created_parts(4-6) [OF assms] by (intro sample_readable) (auto simp: colon_hex_plain)
qed

lemma sample_answerer: "\<exists>s d. with_advertised sample_machines (''u'', ''p'') sample_addr [] False 0 = Inr (s, d)"
  by (simp add: with_advertised_def ice_with_advertised_def certificate_generate_def crypto_provider_def
      certificate_fingerprint_def sample_machines_def sample_ice_def sample_certificates_def)


section \<open>Properties\<close>

text \<open>C34: A connection stays bound to its connection id and its remote network, whatever it is given, and its session moves only
  as a session may.  A signal for another id or from another network, and an offer, leave it exactly as it was
  and are no error.\<close>

theorem connection_bound:
  assumes "connection_handle X Y c msg = Some (c', r)"
  shows "conn_id c' = conn_id c \<and> conn_network_id c' = conn_network_id c \<and>
    session_rel (conn_session c) (conn_session c') \<and>
    (\<forall>sgl now. msg = ConnSignal sgl now \<and>
       (connection_id sgl \<noteq> conn_id c \<or> network_id sgl \<noteq> conn_network_id c \<or> sig_type sgl = Offer) \<longrightarrow>
       c' = c \<and> r = Inr ())"
proof -
  have "bound_as c c'"
    using assms handle_signal_bound on_session_bound [of X c _ c]
    by (cases msg) (auto simp: connection_handle_def)
  moreover have "c' = c \<and> r = Inr ()" if "msg = ConnSignal sgl now"
    "connection_id sgl \<noteq> conn_id c \<or> network_id sgl \<noteq> conn_network_id c \<or> sig_type sgl = Offer" for sgl now
    using assms foreign_signal_ignored [OF that(2), of X Y now] that(1) by (simp add: connection_handle_def)
  ultimately show ?thesis
    by (auto simp: bound_as_def)
qed

theorem connection_bound_witness:
  "\<exists>c'. connection_handle sample_machines sample_signals
      \<lparr>conn_session = sample_session, conn_id = 7, conn_network_id = ''them'', conn_remote_identity = None\<rparr>
      (ConnSignal (signal_offer 7 ''v=0'' ''them'') 5) = Some (c', Inr ()) \<and> conn_id c' = 7"
proof -
  have "connection_handle sample_machines sample_signals
      \<lparr>conn_session = sample_session, conn_id = 7, conn_network_id = ''them'', conn_remote_identity = None\<rparr>
      (ConnSignal (signal_offer 7 ''v=0'' ''them'') 5) =
      Some (\<lparr>conn_session = sample_session, conn_id = 7, conn_network_id = ''them'', conn_remote_identity = None\<rparr>, Inr ())"
    by (simp add: connection_handle_def conn_handle_signal_def signal_offer_def signal_new_def run_ok_def)
  from connection_bound [OF this] this show ?thesis
    by auto
qed

text \<open>C14: The two sides of a negotiation agree.  The offer of a controlling session parses to its own credentials and
  fingerprint, and makes the other side the DTLS and SCTP client; the answer a session that does not control
  accepts it with parses to that session's credentials and fingerprint, and makes the offering side the
  server.  So exactly one side connects, and each pins the certificate the other holds.  This holds with the
  candidates in the text and in trickle mode, when the SDP crate reads back its text.\<close>

theorem negotiation_agrees:
  assumes offerer: "with_advertised X drawn addr advertised True now = Inr (so, d)"
    and answerer: "with_advertised X' drawn' addr' advertised' False now' = Inr (sa, d')"
    and laws: "sdp_laws (sdp_calls Y)" and texts: "readable Y clock d" "readable Y clock' d'"
    and offer: "offer = hd (snd (connect X Y clock so d cid nid mode))"
  shows "\<exists>remote cs. parse_offer Y offer = Inr (remote, cs) \<and>
    from_remote_announced (desc_role remote) = ResolvedClient \<and>
    desc_ice remote = local_credentials (ice_calls X) (session_ice so) \<and>
    Inr (desc_fingerprint remote) = certificate_fingerprint (cert_calls X) (the (session_certificate so)) \<and>
    (\<forall>mode' at c signals. accept X' Y clock' sa d' offer remote cs mode' at = Some (Inr (c, signals)) \<longrightarrow>
      (\<exists>remote' cs'. description_parse (sdp_calls Y) (candidate_calls Y) (sig_data (hd signals)) = Inr (remote', cs') \<and>
        from_remote_announced (desc_role remote') = ResolvedServer \<and>
        desc_ice remote' = local_credentials (ice_calls X') (session_ice sa) \<and>
        Inr (desc_fingerprint remote') = certificate_fingerprint (cert_calls X') (the (session_certificate sa))))"
proof -
  have space: "CHR '' '' \<notin> set (fst (desc_fingerprint d))" "CHR '' '' \<notin> set (fst (desc_fingerprint d'))"
    using created_parts(4) [OF offerer] created_parts(4) [OF answerer] by simp_all
  let ?remote = "d\<lparr>desc_role := announced (desc_role d)\<rparr>" and ?remote' = "d'\<lparr>desc_role := announced (desc_role d')\<rparr>"
  obtain cs where parsed: "parse_offer Y offer = Inr (?remote, cs)"
    using described_parses [OF laws texts(1) space(1), of X so mode cid nid OfferKind]
    by (auto simp: offer connect_def parse_offer_def described_kind)
  have "\<exists>cs'. description_parse (sdp_calls Y) (candidate_calls Y) (sig_data (hd signals)) = Inr (?remote', cs')"
    if "accept X' Y clock' sa d' offer ?remote cs mode' at = Some (Inr (c, signals))" for mode' at c signals
  proof -
    from that obtain s where "signals = describe X' Y clock' s d' mode' (connection_id offer) (network_id offer) AnswerKind"
      by (auto simp: accept_def split: if_splits option.splits sum.splits)
    with described_parses [OF laws texts(2) space(2), of X' s mode' _ _ AnswerKind] show ?thesis
      by simp
  qed
  moreover have "from_remote_announced (desc_role ?remote) = ResolvedClient"
    "from_remote_announced (desc_role ?remote') = ResolvedServer"
    using created_parts(1) [OF offerer] created_parts(1) [OF answerer]
    by (simp_all add: announced_def from_remote_announced_def)
  moreover have "desc_ice ?remote = local_credentials (ice_calls X) (session_ice so)"
    "desc_ice ?remote' = local_credentials (ice_calls X') (session_ice sa)"
    using created_parts(2) [OF offerer] created_parts(2) [OF answerer] by simp_all
  moreover have "Inr (desc_fingerprint ?remote) = certificate_fingerprint (cert_calls X) (the (session_certificate so))"
    "Inr (desc_fingerprint ?remote') = certificate_fingerprint (cert_calls X') (the (session_certificate sa))"
    using created_parts(3) [OF offerer] created_parts(3) [OF answerer] by auto
  ultimately show ?thesis
    using parsed by blast
qed


theorem negotiation_agrees_witness:
  "\<exists>so d remote cs. with_advertised sample_machines (''u'', ''p'') sample_addr [] True 0 = Inr (so, d) \<and>
     parse_offer sample_signals (hd (snd (connect sample_machines sample_signals (Some 3) so d 7 ''them'' Trickle))) = Inr (remote, cs) \<and>
     from_remote_announced (desc_role remote) = ResolvedClient"
proof -
  from sample_created obtain d where o: "with_advertised sample_machines (''u'', ''p'') sample_addr [] True 0 = Inr (sample_session, d)"
    by blast
  from sample_answerer obtain sa d' where a: "with_advertised sample_machines (''u'', ''p'') sample_addr [] False 0 = Inr (sa, d')"
    by blast
  have "sdp_laws (sdp_calls sample_signals)"
    by (simp add: sample_signals_def sample_sdp_laws)
  from negotiation_agrees [OF o a this sample_created_readable [OF o] sample_created_readable [OF a] refl, of "Some 3" 7 "''them''" Trickle]
    o show ?thesis
    by blast
qed

end
