(* ===== verification/Routing.thy ===== *)
theory Routing
  imports Prelude Endpoint Webrtc
begin

text \<open>
  The two routers that share one UDP socket among many sessions: \<open>Router\<close> of
  \<open>nethernet-tokio/src/transport/shared.rs\<close> and \<open>Router\<close> of \<open>bevy-nethernet/src/connection.rs\<close>.  Both keep who claimed
  an address, who sent to it before claiming, and who is named by a STUN username fragment.  A hash set is a list
  without duplicates, so the order in which \<open>route\<close> lists several sessions is one of those the code may take.  The
  locale states what a router promises over an abstract table; both are instances of it.
\<close>

record ('a, 'k) router_tables =
  by_addr :: "('a, 'k) hash_map"
  provisional :: "('a, 'k list) hash_map"
  by_ufrag :: "(string, 'k) hash_map"

type_synonym router = "(socket_addr, u64) router_tables"
type_synonym 'k bevy_router = "(socket_addr, 'k) router_tables"

definition router_default :: router where
  "router_default = \<lparr>by_addr = [], provisional = [], by_ufrag = []\<rparr>"

definition bevy_router_default :: "'k bevy_router" where
  "bevy_router_default = \<lparr>by_addr = [], provisional = [], by_ufrag = []\<rparr>"

text \<open>\<open>retain\<close> with a closure that first takes \<open>id\<close> out of each set.\<close>

definition forget_id :: "'k \<Rightarrow> ('a, 'k list) hash_map \<Rightarrow> ('a, 'k list) hash_map" where
  "forget_id who m = hm_retain (\<lambda>_ ids. ids \<noteq> []) (map (\<lambda>(a, ids). (a, removeAll who ids)) m)"

section \<open>The tokio router\<close>

definition canonical :: "socket_addr \<Rightarrow> socket_addr" where
  "canonical addr = addr\<lparr>sock_ip := normalize (sock_ip addr)\<rparr>"

definition router_route :: "'g stun_ops \<Rightarrow> router \<Rightarrow> socket_addr \<Rightarrow> bytes \<Rightarrow> u64 list" where
  "router_route U r addr datagram =
     (let addr = canonical addr in
      case hm_get (by_addr r) addr of
        Some who \<Rightarrow> [who]
      | None \<Rightarrow>
          if \<not> is_stun U datagram then []
          else case opt_bind (local_ufrag U datagram) (hm_get (by_ufrag r)) of
            Some who \<Rightarrow> [who]
          | None \<Rightarrow> (case hm_get (provisional r) addr of Some ids \<Rightarrow> ids | None \<Rightarrow> []))"

definition router_register_ufrag :: "string \<Rightarrow> u64 \<Rightarrow> router \<Rightarrow> router" where
  "router_register_ufrag ufrag who r = r\<lparr>by_ufrag := hm_insert ufrag who (by_ufrag r)\<rparr>"

definition router_claim_addr :: "socket_addr \<Rightarrow> u64 \<Rightarrow> router \<Rightarrow> bool \<times> router" where
  "router_claim_addr addr who r =
     (case hm_get (by_addr r) (canonical addr) of
        Some owner \<Rightarrow> (owner = who, r)
      | None \<Rightarrow> (True, r\<lparr>by_addr := hm_insert (canonical addr) who (by_addr r)\<rparr>))"

definition router_note_sent :: "socket_addr \<Rightarrow> u64 \<Rightarrow> router \<Rightarrow> router" where
  "router_note_sent addr who r =
     r\<lparr>provisional := hm_insert (canonical addr)
        (List.insert who (case hm_get (provisional r) (canonical addr) of Some ids \<Rightarrow> ids | None \<Rightarrow> [])) (provisional r)\<rparr>"

definition router_release :: "u64 \<Rightarrow> string \<Rightarrow> socket_addr option \<Rightarrow> router \<Rightarrow> router" where
  "router_release who ufrag addr r =
     (let r = (if hm_get (by_ufrag r) ufrag = Some who then r\<lparr>by_ufrag := hm_remove ufrag (by_ufrag r)\<rparr> else r);
          r = (case map_option canonical addr of
                 Some a \<Rightarrow> if hm_get (by_addr r) a = Some who then r\<lparr>by_addr := hm_remove a (by_addr r)\<rparr> else r
               | None \<Rightarrow> r)
      in r\<lparr>provisional := forget_id who (provisional r)\<rparr>)"

section \<open>The Bevy router\<close>

definition bevy_route :: "'g stun_ops \<Rightarrow> 'k bevy_router \<Rightarrow> socket_addr \<Rightarrow> bytes \<Rightarrow> 'k list" where
  "bevy_route U r addr datagram =
     (case hm_get (by_addr r) addr of
        Some who \<Rightarrow> [who]
      | None \<Rightarrow>
          if \<not> is_stun U datagram then []
          else case opt_bind (local_ufrag U datagram) (hm_get (by_ufrag r)) of
            Some who \<Rightarrow> [who]
          | None \<Rightarrow> (case hm_get (provisional r) addr of Some ids \<Rightarrow> ids | None \<Rightarrow> []))"

definition bevy_register_ufrag :: "string \<Rightarrow> 'k \<Rightarrow> 'k bevy_router \<Rightarrow> 'k bevy_router" where
  "bevy_register_ufrag ufrag who r = r\<lparr>by_ufrag := hm_insert ufrag who (by_ufrag r)\<rparr>"

definition bevy_claim_addr :: "socket_addr \<Rightarrow> 'k \<Rightarrow> 'k bevy_router \<Rightarrow> 'k bevy_router" where
  "bevy_claim_addr addr who r =
     (case hm_get (by_addr r) addr of
        Some _ \<Rightarrow> r
      | None \<Rightarrow> r\<lparr>by_addr := hm_insert addr who (by_addr r)\<rparr>)"

definition bevy_note_sent :: "socket_addr \<Rightarrow> 'k \<Rightarrow> 'k bevy_router \<Rightarrow> 'k bevy_router" where
  "bevy_note_sent addr who r =
     r\<lparr>provisional := hm_insert addr
        (List.insert who (case hm_get (provisional r) addr of Some ids \<Rightarrow> ids | None \<Rightarrow> [])) (provisional r)\<rparr>"

definition bevy_release :: "'k \<Rightarrow> string \<Rightarrow> socket_addr option \<Rightarrow> 'k bevy_router \<Rightarrow> 'k bevy_router" where
  "bevy_release who ufrag addr r =
     (let r = r\<lparr>by_ufrag := hm_remove ufrag (by_ufrag r)\<rparr>;
          r = (case addr of
                 Some a \<Rightarrow> if hm_get (by_addr r) a = Some who then r\<lparr>by_addr := hm_remove a (by_addr r)\<rparr> else r
               | None \<Rightarrow> r)
      in r\<lparr>provisional := forget_id who (provisional r)\<rparr>)"


section \<open>The abstract table\<close>

text \<open>What a router knows: the owner of an address, the sessions that tried one, the session a fragment names.\<close>

record 'k routing =
  owner :: "socket_addr \<Rightarrow> 'k option"
  tried :: "socket_addr \<Rightarrow> 'k set"
  named :: "string \<Rightarrow> 'k option"

definition routing_of :: "(socket_addr, 'k) router_tables \<Rightarrow> 'k routing" where
  "routing_of r =
    \<lparr>owner = hm_get (by_addr r), tried = (\<lambda>a. case hm_get (provisional r) a of Some ids \<Rightarrow> set ids | None \<Rightarrow> {}),
     named = hm_get (by_ufrag r)\<rparr>"

definition routed :: "'g stun_ops \<Rightarrow> 'k routing \<Rightarrow> socket_addr \<Rightarrow> bytes \<Rightarrow> 'k set" where
  "routed U t a datagram =
     (case owner t a of
        Some who \<Rightarrow> {who}
      | None \<Rightarrow>
          if \<not> is_stun U datagram then {}
          else case opt_bind (local_ufrag U datagram) (named t) of Some who \<Rightarrow> {who} | None \<Rightarrow> tried t a)"

definition mentions :: "'k routing \<Rightarrow> 'k set" where
  "mentions t = {who. (\<exists>a. owner t a = Some who) \<or> (\<exists>a. who \<in> tried t a) \<or> (\<exists>u. named t u = Some who)}"

definition sets_wf :: "('a, 'k list) hash_map \<Rightarrow> bool" where
  "sets_wf m \<longleftrightarrow> (\<forall>(a, ids) \<in> set m. ids \<noteq> [] \<and> distinct ids)"

definition tables_wf :: "('a, 'k) router_tables \<Rightarrow> bool" where
  "tables_wf r \<longleftrightarrow> hm_wf (by_addr r) \<and> hm_wf (provisional r) \<and> hm_wf (by_ufrag r) \<and>
     sets_wf (provisional r)"

definition table_named :: "string \<Rightarrow> 'k \<Rightarrow> 'k routing \<Rightarrow> 'k routing" where
  "table_named ufrag who t = t\<lparr>named := (named t)(ufrag \<mapsto> who)\<rparr>"

definition table_claimed :: "socket_addr \<Rightarrow> 'k \<Rightarrow> 'k routing \<Rightarrow> 'k routing" where
  "table_claimed a who t = (if owner t a = None then t\<lparr>owner := (owner t)(a \<mapsto> who)\<rparr> else t)"

definition table_tried :: "socket_addr \<Rightarrow> 'k \<Rightarrow> 'k routing \<Rightarrow> 'k routing" where
  "table_tried a who t = t\<lparr>tried := (tried t)(a := insert who (tried t a))\<rparr>"

definition table_released :: "'k \<Rightarrow> string \<Rightarrow> socket_addr option \<Rightarrow> 'k routing \<Rightarrow> 'k routing" where
  "table_released who ufrag addr t =
    \<lparr>owner = (\<lambda>a. if addr = Some a \<and> owner t a = Some who then None else owner t a),
     tried = (\<lambda>a. tried t a - {who}),
     named = (\<lambda>u. if u = ufrag \<and> named t u = Some who then None else named t u)\<rparr>"

text \<open>The contract: each operation does to the abstract table what its name says, addresses being brought to one form
  first; a router that releases does so for the session its fragment names.\<close>

locale routing_contract =
  fixes form :: "socket_addr \<Rightarrow> socket_addr"
    and may_release :: "'r \<Rightarrow> 'k \<Rightarrow> string \<Rightarrow> bool"
    and wf :: "'r \<Rightarrow> bool"
    and view :: "'r \<Rightarrow> 'k routing"
    and empty_router :: 'r
    and lookup :: "'g stun_ops \<Rightarrow> 'r \<Rightarrow> socket_addr \<Rightarrow> bytes \<Rightarrow> 'k list"
    and register :: "string \<Rightarrow> 'k \<Rightarrow> 'r \<Rightarrow> 'r"
    and claim :: "socket_addr \<Rightarrow> 'k \<Rightarrow> 'r \<Rightarrow> 'r"
    and sent :: "socket_addr \<Rightarrow> 'k \<Rightarrow> 'r \<Rightarrow> 'r"
    and release :: "'k \<Rightarrow> string \<Rightarrow> socket_addr option \<Rightarrow> 'r \<Rightarrow> 'r"
  assumes empty_wf: "wf empty_router" and empty_view: "mentions (view empty_router) = {}"
    and lookup_view: "wf r \<Longrightarrow> set (lookup U r a datagram) = routed U (view r) (form a) datagram"
    and register_wf: "wf r \<Longrightarrow> wf (register u who r)" and register_view: "view (register u who r) = table_named u who (view r)"
    and claim_wf: "wf r \<Longrightarrow> wf (claim a who r)"
    and claim_view: "wf r \<Longrightarrow> view (claim a who r) = table_claimed (form a) who (view r)"
    and sent_wf: "wf r \<Longrightarrow> wf (sent a who r)" and sent_view: "wf r \<Longrightarrow> view (sent a who r) = table_tried (form a) who (view r)"
    and release_wf: "wf r \<Longrightarrow> wf (release who u addr r)"
    and release_view: "wf r \<Longrightarrow> may_release r who u \<Longrightarrow>
      view (release who u addr r) = table_released who u (map_option form addr) (view r)"
begin

text \<open>Datagrams of a claimed address go to its owner alone, whatever they hold.\<close>

lemma claimed_lookup: "wf r \<Longrightarrow> owner (view r) (form a) = Some who \<Longrightarrow> set (lookup U r a datagram) = {who}"
  by (simp add: lookup_view routed_def)

lemma lookup_mentions: "wf r \<Longrightarrow> set (lookup U r a datagram) \<subseteq> mentions (view r)"
  by (auto simp: lookup_view routed_def mentions_def opt_bind_eq_Some split: option.splits if_splits)

lemma first_claim_stays:
  "wf r \<Longrightarrow> owner (view r) (form a) = Some who \<Longrightarrow> owner (view (claim b other r)) (form a) = Some who"
  by (auto simp: claim_view table_claimed_def)

lemma release_keeps_others:
  assumes "wf r" "may_release r who u" "other \<noteq> who" "owner (view r) (form a) = Some other"
  shows "set (lookup U (release who u addr r) a datagram) = {other}"
  using assms by (simp add: lookup_view release_wf release_view routed_def table_released_def)

lemma release_forgets:
  assumes "wf r" "may_release r who u"
    and "\<And>a. owner (view r) a = Some who \<Longrightarrow> map_option form addr = Some a"
    and "\<And>v. named (view r) v = Some who \<Longrightarrow> v = u"
  shows "mentions (view (release who u addr r)) \<subseteq> mentions (view r) - {who}"
  using assms by (auto simp: release_view mentions_def table_released_def split: if_splits)

end


section \<open>Both routers keep the contract\<close>

lemma forget_wf: "hm_wf m \<Longrightarrow> hm_wf (forget_id who m)"
  unfolding forget_id_def by (intro hm_wf_retain) (simp add: hm_wf_def comp_def case_prod_unfold)

lemma forget_get:
  assumes "hm_wf m"
  shows "hm_get (forget_id who m) a =
    (case hm_get m a of None \<Rightarrow> None | Some ids \<Rightarrow> if removeAll who ids = [] then None else Some (removeAll who ids))"
proof -
  let ?m = "map (\<lambda>(a, ids). (a, removeAll who ids)) m"
  have "hm_wf ?m"
    using assms by (simp add: hm_wf_def comp_def case_prod_unfold)
  moreover have "hm_get ?m a = map_option (removeAll who) (hm_get m a)"
    by (simp add: hm_get_def map_of_map)
  ultimately show ?thesis
    by (simp add: forget_id_def hm_get_retain split: option.splits)
qed

lemma forget_tried:
  "hm_wf m \<Longrightarrow> (case hm_get (forget_id who m) a of Some ids \<Rightarrow> set ids | None \<Rightarrow> {}) =
     (case hm_get m a of Some ids \<Rightarrow> set ids | None \<Rightarrow> {}) - {who}"
  by (auto simp: forget_get split: option.splits if_splits)
    (metis empty_iff empty_set removeAll_id set_removeAll Diff_iff insert_iff)+

lemma forget_sets: "sets_wf m \<Longrightarrow> sets_wf (forget_id who m)"
  by (auto simp: sets_wf_def forget_id_def hm_retain_def distinct_removeAll)

lemma sets_wf_get: "hm_wf m \<Longrightarrow> sets_wf m \<longleftrightarrow> (\<forall>a ids. hm_get m a = Some ids \<longrightarrow> ids \<noteq> [] \<and> distinct ids)"
  by (auto simp: sets_wf_def simp flip: hm_get_mem)

lemma note_sets:
  assumes "hm_wf m" "sets_wf m"
  shows "sets_wf (hm_insert b (List.insert who (case hm_get m b of Some ids \<Rightarrow> ids | None \<Rightarrow> [])) m)"
proof -
  have "List.insert who ids \<noteq> []" for ids
    by (cases "who \<in> set ids") auto
  with assms show ?thesis
    by (simp add: sets_wf_get hm_get_insert split: option.splits)
qed

lemmas routing_defs = routing_of_def tables_wf_def sets_wf_def table_named_def table_claimed_def table_tried_def table_released_def
  mentions_def

definition owns_ufrag :: "('a, 'k) router_tables \<Rightarrow> 'k \<Rightarrow> string \<Rightarrow> bool" where
  "owns_ufrag r who u \<longleftrightarrow> hm_get (by_ufrag r) u = Some who \<or> hm_get (by_ufrag r) u = None"

lemma route_view: "set (bevy_route U r a d) = routed U (routing_of r) a d"
  by (auto simp: bevy_route_def routed_def routing_of_def split: option.splits)

interpretation bevy_contract: routing_contract "\<lambda>a. a" owns_ufrag tables_wf routing_of "bevy_router_default :: 'k bevy_router"
  bevy_route bevy_register_ufrag bevy_claim_addr bevy_note_sent bevy_release
proof unfold_locales
  fix r :: "'k bevy_router" and who :: 'k and u :: string and addr :: "socket_addr option" and a :: socket_addr
  show "tables_wf (bevy_router_default :: 'k bevy_router)" "mentions (routing_of (bevy_router_default :: 'k bevy_router)) = {}"
    by (simp_all add: bevy_router_default_def routing_defs)
  show "set (bevy_route U r a d) = routed U (routing_of r) a d" for U :: "'g stun_ops" and d
    by (rule route_view)
  show "routing_of (bevy_register_ufrag u who r) = table_named u who (routing_of r)"
    by (simp add: bevy_register_ufrag_def routing_defs hm_get_insert fun_eq_iff)
  assume wf: "tables_wf r"
  then show "tables_wf (bevy_register_ufrag u who r)" "tables_wf (bevy_claim_addr a who r)"
    by (auto simp: bevy_register_ufrag_def bevy_claim_addr_def tables_wf_def split: option.splits)
  show "routing_of (bevy_claim_addr a who r) = table_claimed a who (routing_of r)"
    by (auto simp: bevy_claim_addr_def routing_defs hm_get_insert fun_eq_iff split: option.splits)
  show "tables_wf (bevy_note_sent a who r)"
    using wf by (simp add: bevy_note_sent_def tables_wf_def note_sets)
  show "routing_of (bevy_note_sent a who r) = table_tried a who (routing_of r)"
    by (auto simp: bevy_note_sent_def routing_defs hm_get_insert fun_eq_iff split: option.splits)
  show "tables_wf (bevy_release who u addr r)"
    using wf by (auto simp: bevy_release_def tables_wf_def forget_wf forget_sets Let_def split: option.splits)
  assume "owns_ufrag r who u"
  with wf show "routing_of (bevy_release who u addr r) = table_released who u (map_option (\<lambda>a. a) addr) (routing_of r)"
    by (auto simp: bevy_release_def routing_of_def table_released_def tables_wf_def owns_ufrag_def forget_tried
        hm_get_remove fun_eq_iff Let_def split: option.splits)
qed

interpretation tokio_contract: routing_contract canonical "\<lambda>_ _ _. True" tables_wf routing_of router_default
  router_route router_register_ufrag "\<lambda>a who r. snd (router_claim_addr a who r)" router_note_sent router_release
proof unfold_locales
  fix r :: router and who :: u64 and u :: string and addr :: "socket_addr option" and a :: socket_addr
  show "tables_wf router_default" "mentions (routing_of router_default) = {}"
    by (simp_all add: router_default_def routing_defs)
  show "set (router_route U r a d) = routed U (routing_of r) (canonical a) d" for U :: "'g stun_ops" and d
    by (auto simp: router_route_def routed_def routing_of_def Let_def split: option.splits)
  show "routing_of (router_register_ufrag u who r) = table_named u who (routing_of r)"
    by (simp add: router_register_ufrag_def routing_defs hm_get_insert fun_eq_iff)
  assume wf: "tables_wf r"
  then show "tables_wf (router_register_ufrag u who r)" "tables_wf (snd (router_claim_addr a who r))"
    by (auto simp: router_register_ufrag_def router_claim_addr_def tables_wf_def split: option.splits)
  show "routing_of (snd (router_claim_addr a who r)) = table_claimed (canonical a) who (routing_of r)"
    by (auto simp: router_claim_addr_def routing_defs hm_get_insert fun_eq_iff split: option.splits)
  show "tables_wf (router_note_sent a who r)"
    using wf by (simp add: router_note_sent_def tables_wf_def note_sets)
  show "routing_of (router_note_sent a who r) = table_tried (canonical a) who (routing_of r)"
    by (auto simp: router_note_sent_def routing_defs hm_get_insert fun_eq_iff split: option.splits)
  show "tables_wf (router_release who u addr r)"
    using wf by (auto simp: router_release_def tables_wf_def forget_wf forget_sets Let_def split: option.splits)
  show "routing_of (router_release who u addr r) = table_released who u (map_option canonical addr) (routing_of r)"
    using wf by (auto simp: router_release_def routing_of_def table_released_def tables_wf_def forget_tried
        hm_get_remove fun_eq_iff Let_def split: option.splits)
qed


text \<open>A table that knows nothing is the empty one.\<close>

lemma empty_routing:
  assumes "tables_wf r" "\<forall>a. owner (routing_of r) a = None" "\<forall>u. named (routing_of r) u = None" "\<forall>a. tried (routing_of r) a = {}"
  shows "r = \<lparr>by_addr = [], provisional = [], by_ufrag = []\<rparr>"
proof -
  have "hm_get (by_addr r) a = None" "hm_get (by_ufrag r) u = None" for a u
    using assms(2,3) by (simp_all add: routing_of_def)
  moreover have "hm_get (provisional r) a = None" for a
    using assms(1) spec [OF assms(4), of a] by (auto simp: routing_of_def tables_wf_def sets_wf_get split: option.splits)
  ultimately show ?thesis
    using assms(1) by (simp add: tables_wf_def hm_empty)
qed

section \<open>The two routers compared\<close>

datatype router_op =
    Register string u64
  | Claim socket_addr u64
  | NoteSent socket_addr u64
  | Release u64 string "socket_addr option"

definition tokio_does :: "router_op \<Rightarrow> router \<Rightarrow> router" where
  "tokio_does x r =
     (case x of
        Register u who \<Rightarrow> router_register_ufrag u who r
      | Claim a who \<Rightarrow> snd (router_claim_addr a who r)
      | NoteSent a who \<Rightarrow> router_note_sent a who r
      | Release who u addr \<Rightarrow> router_release who u addr r)"

definition bevy_does :: "router_op \<Rightarrow> u64 bevy_router \<Rightarrow> u64 bevy_router" where
  "bevy_does x r =
     (case x of
        Register u who \<Rightarrow> bevy_register_ufrag u who r
      | Claim a who \<Rightarrow> bevy_claim_addr a who r
      | NoteSent a who \<Rightarrow> bevy_note_sent a who r
      | Release who u addr \<Rightarrow> bevy_release who u addr r)"

text \<open>Addresses in plain form, and no fragment given to a second session while the first still has it.\<close>

definition op_plain :: "router_op \<Rightarrow> bool" where
  "op_plain x =
     (case x of
        Register _ _ \<Rightarrow> True
      | Claim a _ \<Rightarrow> canonical a = a
      | NoteSent a _ \<Rightarrow> canonical a = a
      | Release _ _ addr \<Rightarrow> (case addr of Some a \<Rightarrow> canonical a = a | None \<Rightarrow> True))"

fun releases_owned :: "router_op list \<Rightarrow> u64 bevy_router \<Rightarrow> bool" where
  "releases_owned [] r = True"
| "releases_owned (x # xs) r =
     ((case x of Release who u _ \<Rightarrow> owns_ufrag r who u | _ \<Rightarrow> True) \<and> releases_owned xs (bevy_does x r))"

definition does_view :: "router_op \<Rightarrow> u64 routing \<Rightarrow> u64 routing" where
  "does_view x t =
     (case x of
        Register u who \<Rightarrow> table_named u who t
      | Claim a who \<Rightarrow> table_claimed a who t
      | NoteSent a who \<Rightarrow> table_tried a who t
      | Release who u addr \<Rightarrow> table_released who u addr t)"

lemma bevy_does_view:
  assumes "tables_wf r" "case x of Release who u _ \<Rightarrow> owns_ufrag r who u | _ \<Rightarrow> True"
  shows "tables_wf (bevy_does x r) \<and> routing_of (bevy_does x r) = does_view x (routing_of r)"
  using assms
  by (cases x) (simp_all add: bevy_does_def does_view_def bevy_contract.register_wf bevy_contract.register_view
      bevy_contract.claim_wf bevy_contract.claim_view bevy_contract.sent_wf bevy_contract.sent_view
      bevy_contract.release_wf bevy_contract.release_view option.map_ident)

lemma tokio_does_view:
  assumes "tables_wf r" "op_plain x"
  shows "tables_wf (tokio_does x r) \<and> routing_of (tokio_does x r) = does_view x (routing_of r)"
  using assms
  by (cases x) (auto simp: tokio_does_def does_view_def op_plain_def tokio_contract.register_wf
      tokio_contract.register_view tokio_contract.claim_wf tokio_contract.claim_view tokio_contract.sent_wf
      tokio_contract.sent_view tokio_contract.release_wf tokio_contract.release_view split: option.splits)

lemma runs_agree:
  assumes "list_all op_plain xs" "releases_owned xs b" "tables_wf b" "tables_wf t" "routing_of b = routing_of t"
  shows "tables_wf (fold bevy_does xs b) \<and> tables_wf (fold tokio_does xs t) \<and>
    routing_of (fold bevy_does xs b) = routing_of (fold tokio_does xs t)"
  using assms
proof (induction xs arbitrary: b t)
  case (Cons x xs)
  then have "tables_wf (bevy_does x b) \<and> routing_of (bevy_does x b) = does_view x (routing_of b)"
    "tables_wf (tokio_does x t) \<and> routing_of (tokio_does x t) = does_view x (routing_of t)"
    by (simp_all add: bevy_does_view tokio_does_view)
  with Cons.IH [of "bevy_does x b" "tokio_does x t"] Cons.prems show ?case
    by simp
qed simp

section \<open>Properties\<close>


definition sample_stun :: "bytes stun_ops" where
  "sample_stun = \<lparr>is_stun_message = (\<lambda>d. d \<noteq> [] \<and> hd d = 0), unmarshal_binary = Inr,
     get_username = (\<lambda>d. Inr (map (\<lambda>b. char_of (unat b)) (tl d)))\<rparr>"

definition plain_addr :: socket_addr where
  "plain_addr = \<lparr>sock_ip = IpV4 (Ipv4 10 0 0 1), sock_port = 5000\<rparr>"


end
