(* ===== verification/Shared_Socket.thy ===== *)
theory Shared_Socket
  imports Routing
begin

text \<open>
  \<open>nethernet-tokio/src/transport/shared.rs\<close>: the state behind one UDP socket that serves every session of a server, and
  the routes sessions hold on it.  The state is behind a mutex, so each operation is one step; the tasks interleave their
  steps in any order, which is what reachability here allows.  A channel to a session is its queue of datagrams.  The
  socket itself is left out: \<open>dispatch\<close> is one iteration of its loop, given the datagram received, and \<open>send_to\<close> does
  what comes before the system call.
\<close>

definition ROUTE_CHANNEL_CAPACITY :: nat where "ROUTE_CHANNEL_CAPACITY = 1024"

type_synonym datagram = "bytes \<times> socket_addr"

record shared_state =
  next_id :: u64
  sessions :: "(u64, datagram list) hash_map"
  router :: Routing.router

record shared_route =
  route_id :: u64
  route_ufrag :: string
  route_remote_addr :: "socket_addr option"

definition shared_state_default :: shared_state where
  "shared_state_default = \<lparr>next_id = 0, sessions = [], router = router_default\<rparr>"

definition route_open :: "string \<Rightarrow> shared_state \<Rightarrow> shared_route \<times> shared_state" where
  "route_open ufrag s =
     (let who = next_id s in
      (\<lparr>route_id = who, route_ufrag = ufrag, route_remote_addr = None\<rparr>,
       s\<lparr>next_id := who + 1, sessions := hm_insert who [] (sessions s), router := router_register_ufrag ufrag who (router s)\<rparr>))"

text \<open>\<open>try_send\<close>: a full channel drops the datagram.\<close>

definition try_send :: "u64 \<Rightarrow> datagram \<Rightarrow> (u64, datagram list) hash_map \<Rightarrow> (u64, datagram list) hash_map" where
  "try_send who d m =
     (case hm_get m who of
        Some q \<Rightarrow> if length q < ROUTE_CHANNEL_CAPACITY then hm_insert who (q @ [d]) m else m
      | None \<Rightarrow> m)"

definition dispatch :: "'g stun_ops \<Rightarrow> socket_addr \<Rightarrow> bytes \<Rightarrow> shared_state \<Rightarrow> shared_state" where
  "dispatch U addr data s =
     s\<lparr>sessions := fold (\<lambda>who. try_send who (data, addr)) (router_route U (router s) addr data) (sessions s)\<rparr>"

definition route_recv_from :: "shared_route \<Rightarrow> shared_state \<Rightarrow> datagram option \<times> shared_state" where
  "route_recv_from r s =
     (case hm_get (sessions s) (route_id r) of
        Some (d # q) \<Rightarrow> (Some d, s\<lparr>sessions := hm_insert (route_id r) q (sessions s)\<rparr>)
      | _ \<Rightarrow> (None, s))"

definition route_send_to :: "shared_route \<Rightarrow> socket_addr \<Rightarrow> shared_state \<Rightarrow> shared_state" where
  "route_send_to r addr s =
     (if route_remote_addr r = None then s\<lparr>router := router_note_sent addr (route_id r) (router s)\<rparr> else s)"

definition route_claim :: "shared_route \<Rightarrow> socket_addr \<Rightarrow> shared_state \<Rightarrow> shared_route \<times> shared_state" where
  "route_claim r addr s =
     (if route_remote_addr r = None then
        case router_claim_addr addr (route_id r) (router s) of
          (owned, table) \<Rightarrow> (if owned then r\<lparr>route_remote_addr := Some addr\<rparr> else r, s\<lparr>router := table\<rparr>)
      else (r, s))"

definition route_drop :: "shared_route \<Rightarrow> shared_state \<Rightarrow> shared_state" where
  "route_drop r s =
     s\<lparr>sessions := hm_remove (route_id r) (sessions s),
       router := router_release (route_id r) (route_ufrag r) (route_remote_addr r) (router s)\<rparr>"

section \<open>Reachable states\<close>

text \<open>The state with the routes that are open, after \<open>n\<close> routes were opened.\<close>

inductive shared_reachable :: "'g stun_ops \<Rightarrow> nat \<Rightarrow> shared_state \<Rightarrow> shared_route list \<Rightarrow> bool" for U where
  start: "shared_reachable U 0 shared_state_default []"
| opened: "shared_reachable U n s rs \<Longrightarrow> route_open ufrag s = (r, t) \<Longrightarrow> shared_reachable U (Suc n) t (r # rs)"
| arrived: "shared_reachable U n s rs \<Longrightarrow> shared_reachable U n (dispatch U addr data s) rs"
| taken: "shared_reachable U n s rs \<Longrightarrow> r \<in> set rs \<Longrightarrow> route_recv_from r s = (d, t) \<Longrightarrow> shared_reachable U n t rs"
| sent: "shared_reachable U n s rs \<Longrightarrow> r \<in> set rs \<Longrightarrow> shared_reachable U n (route_send_to r addr s) rs"
| claimed: "shared_reachable U n s (rs @ r # rs') \<Longrightarrow> route_claim r addr s = (r', t) \<Longrightarrow>
    shared_reachable U n t (rs @ r' # rs')"
| dropped: "shared_reachable U n s (rs @ r # rs') \<Longrightarrow> shared_reachable U n (route_drop r s) (rs @ rs')"


section \<open>The invariant\<close>

definition live :: "shared_route list \<Rightarrow> u64 set" where
  "live rs = route_id ` set rs"

definition holds :: "shared_route \<Rightarrow> socket_addr option" where
  "holds r = map_option canonical (route_remote_addr r)"

definition queues_ok :: "(u64, datagram list) hash_map \<Rightarrow> u64 set \<Rightarrow> bool" where
  "queues_ok m ids \<longleftrightarrow> hm_wf m \<and> (\<forall>who. hm_get m who \<noteq> None \<longleftrightarrow> who \<in> ids) \<and>
     (\<forall>who q. hm_get m who = Some q \<longrightarrow> length q \<le> ROUTE_CHANNEL_CAPACITY)"

definition table_ok :: "u64 routing \<Rightarrow> shared_route list \<Rightarrow> bool" where
  "table_ok t rs \<longleftrightarrow>
     (\<forall>a who. owner t a = Some who \<longleftrightarrow> (\<exists>r \<in> set rs. route_id r = who \<and> holds r = Some a)) \<and>
     (\<forall>u who. named t u = Some who \<longrightarrow> (\<exists>r \<in> set rs. route_id r = who \<and> route_ufrag r = u)) \<and>
     (\<forall>a. tried t a \<subseteq> live rs)"

definition shared_inv :: "nat \<Rightarrow> shared_state \<Rightarrow> shared_route list \<Rightarrow> bool" where
  "shared_inv n s rs \<longleftrightarrow>
     next_id s = of_nat n \<and> (\<forall>r \<in> set rs. unat (route_id r) < n) \<and> distinct (map route_id rs) \<and>
     queues_ok (sessions s) (live rs) \<and> tables_wf (router s) \<and> table_ok (routing_of (router s)) rs"

lemma live_simps [simp]:
  "live [] = {}" "live (r # rs) = insert (route_id r) (live rs)" "live (rs @ rs') = live rs \<union> live rs'"
  by (auto simp: live_def)

lemma try_send_queues: "queues_ok m ids \<Longrightarrow> queues_ok (try_send who d m) ids"
  by (auto simp: queues_ok_def try_send_def hm_get_insert split: option.splits if_splits)

lemma fold_try_send_queues: "queues_ok m ids \<Longrightarrow> queues_ok (fold (\<lambda>who. try_send who d) whos m) ids"
  by (induction whos arbitrary: m) (simp_all add: try_send_queues)

lemma live_same:
  "distinct (map route_id rs) \<Longrightarrow> r \<in> set rs \<Longrightarrow> r' \<in> set rs \<Longrightarrow> route_id r = route_id r' \<Longrightarrow> r = r'"
  by (metis distinct_map inj_onD)

lemma opened_inv:
  assumes "shared_inv n s rs" "Suc n < 2 ^ 64" "route_open ufrag s = (r, t)"
  shows "shared_inv (Suc n) t (r # rs)"
proof -
  let ?who = "of_nat n :: u64"
  have n: "unat ?who = n" "next_id s = ?who"
    using assms(1,2) by (simp_all add: shared_inv_def unsigned_of_nat take_bit_nat_eq_self)
  have r: "r = \<lparr>route_id = ?who, route_ufrag = ufrag, route_remote_addr = None\<rparr>"
    and t: "t = s\<lparr>next_id := ?who + 1, sessions := hm_insert ?who [] (sessions s), router := router_register_ufrag ufrag ?who (router s)\<rparr>"
    using assms(3) n(2) by (simp_all add: route_open_def Let_def)
  have fresh: "?who \<notin> live rs"
    using assms(1) n(1) by (force simp: shared_inv_def live_def)
  have "queues_ok (hm_insert ?who [] (sessions s)) (insert ?who (live rs))"
    using assms(1) by (auto simp: shared_inv_def queues_ok_def hm_get_insert)
  moreover have "table_ok (table_named ufrag ?who (routing_of (router s))) (r # rs)"
    using assms(1) fresh by (auto simp: shared_inv_def table_ok_def table_named_def r holds_def live_def)
  ultimately show ?thesis
    using assms(1) fresh n
    by (auto simp: shared_inv_def t r tokio_contract.register_view tokio_contract.register_wf live_def add.commute)
qed

lemma sent_inv:
  assumes "shared_inv n s rs" "r \<in> set rs"
  shows "shared_inv n (route_send_to r addr s) rs"
  using assms by (auto simp: shared_inv_def route_send_to_def tokio_contract.sent_view tokio_contract.sent_wf table_ok_def
      table_tried_def live_def)

lemma arrived_inv: "shared_inv n s rs \<Longrightarrow> shared_inv n (dispatch U addr data s) rs"
  by (simp add: shared_inv_def dispatch_def fold_try_send_queues)

lemma pop_queues:
  assumes "queues_ok m ids" "hm_get m who = Some (d # q)"
  shows "queues_ok (hm_insert who q m) ids"
proof -
  have "length (d # q) \<le> ROUTE_CHANNEL_CAPACITY" "who \<in> ids"
    using assms unfolding queues_ok_def by blast+
  with assms(1) show ?thesis
    unfolding queues_ok_def hm_get_insert by auto
qed

lemma taken_inv:
  assumes "shared_inv n s rs" "route_recv_from r s = (d, t)"
  shows "shared_inv n t rs"
proof (cases "\<exists>x q. hm_get (sessions s) (route_id r) = Some (x # q)")
  case True
  then obtain x q where q: "hm_get (sessions s) (route_id r) = Some (x # q)"
    by blast
  then have t: "t = s\<lparr>sessions := hm_insert (route_id r) q (sessions s)\<rparr>"
    using assms(2) by (simp add: route_recv_from_def)
  from pop_queues [OF _ q] assms(1) show ?thesis
    unfolding t by (simp add: shared_inv_def)
next
  case False
  then have "t = s"
    using assms(2) by (auto simp: route_recv_from_def split: option.splits list.splits)
  with assms(1) show ?thesis
    by simp
qed

lemma claim_addr_cases:
  assumes "router_claim_addr addr who r = (owned, r')"
  shows "(owned \<longleftrightarrow> owner (routing_of r) (canonical addr) \<in> {None, Some who}) \<and> r' = snd (router_claim_addr addr who r)"
  using assms by (auto simp: router_claim_addr_def routing_of_def split: option.splits)

lemma table_okD:
  assumes "table_ok t rs"
  shows "owner t a = Some who \<longleftrightarrow> (\<exists>r \<in> set rs. route_id r = who \<and> holds r = Some a)"
    and "named t u = Some who \<Longrightarrow> \<exists>r \<in> set rs. route_id r = who \<and> route_ufrag r = u"
    and "tried t a \<subseteq> live rs"
  using assms unfolding table_ok_def by blast+

lemma unclaimed:
  assumes "table_ok t rs" "distinct (map route_id rs)" "r \<in> set rs" "holds r = None"
  shows "owner t a \<noteq> Some (route_id r)"
  using table_okD(1) [OF assms(1), of a "route_id r"] live_same [OF assms(2) assms(3)] assms(4) by fastforce

lemma table_ok_claim:
  assumes ok: "table_ok t (rs @ r # rs')" and none: "holds r = None" "owner t a = None"
    and r': "route_id r' = route_id r" "route_ufrag r' = route_ufrag r" "holds r' = Some a"
  shows "table_ok (t\<lparr>owner := (owner t)(a \<mapsto> route_id r)\<rparr>) (rs @ r' # rs')"
  unfolding table_ok_def
proof (intro conjI allI)
  fix b who
  have "owner t b = Some who \<longleftrightarrow> (\<exists>x \<in> set rs \<union> set rs'. route_id x = who \<and> holds x = Some b)"
    using none(1) by (auto simp: table_okD(1) [OF ok])
  then show "owner (t\<lparr>owner := (owner t)(a \<mapsto> route_id r)\<rparr>) b = Some who \<longleftrightarrow>
      (\<exists>x \<in> set (rs @ r' # rs'). route_id x = who \<and> holds x = Some b)"
    using none(2) r' by auto
next
  fix u who
  show "named (t\<lparr>owner := (owner t)(a \<mapsto> route_id r)\<rparr>) u = Some who \<longrightarrow>
      (\<exists>x \<in> set (rs @ r' # rs'). route_id x = who \<and> route_ufrag x = u)"
    using table_okD(2) [OF ok, of u who] r' by auto
next
  fix b
  show "tried (t\<lparr>owner := (owner t)(a \<mapsto> route_id r)\<rparr>) b \<subseteq> live (rs @ r' # rs')"
    using table_okD(3) [OF ok, of b] r' by simp
qed

lemma claimed_inv:
  assumes "shared_inv n s (rs @ r # rs')" "route_claim r addr s = (r', t)"
  shows "shared_inv n t (rs @ r' # rs')"
proof (cases "route_remote_addr r = None")
  case True
  then have none: "holds r = None"
    by (simp add: holds_def)
  obtain owned table where c: "router_claim_addr addr (route_id r) (router s) = (owned, table)"
    by (cases "router_claim_addr addr (route_id r) (router s)")
  note cc = claim_addr_cases [OF c]
  have r': "r' = (if owned then r\<lparr>route_remote_addr := Some addr\<rparr> else r)" and t: "t = s\<lparr>router := table\<rparr>"
    using assms(2) True c by (simp_all add: route_claim_def)
  have wf: "tables_wf (router s)" and ok: "table_ok (routing_of (router s)) (rs @ r # rs')"
    and dist: "distinct (map route_id (rs @ r # rs'))"
    using assms(1) by (simp_all add: shared_inv_def)
  have not_own: "owner (routing_of (router s)) (canonical addr) \<noteq> Some (route_id r)"
    by (rule unclaimed [OF ok dist _ none]) simp
  have view: "routing_of table = table_claimed (canonical addr) (route_id r) (routing_of (router s))" and wf': "tables_wf table"
    using cc wf by (simp_all add: tokio_contract.claim_view tokio_contract.claim_wf)
  have "table_ok (routing_of table) (rs @ r' # rs')"
  proof (cases owned)
    case True
    then have "owner (routing_of (router s)) (canonical addr) = None"
      using cc not_own by auto
    with table_ok_claim [OF ok none this, of r'] True show ?thesis
      by (simp add: view table_claimed_def r' holds_def)
  next
    case False
    then have "owner (routing_of (router s)) (canonical addr) \<noteq> None"
      using cc by simp
    with ok False show ?thesis
      unfolding view table_claimed_def r' by auto
  qed
  with assms(1) wf' show ?thesis
    by (auto simp: shared_inv_def t r')
qed (use assms in \<open>auto simp: route_claim_def\<close>)

lemma table_ok_release:
  assumes ok: "table_ok t (rs @ r # rs')" and gone: "route_id r \<notin> live (rs @ rs')"
  shows "table_ok (table_released (route_id r) (route_ufrag r) (holds r) t) (rs @ rs')"
  unfolding table_ok_def
proof (intro conjI allI)
  have other: "x \<in> set (rs @ rs') \<Longrightarrow> route_id x \<noteq> route_id r" for x
    using gone unfolding live_def by (metis imageI)
  fix a who
  have "owner t a = Some who \<longleftrightarrow> route_id r = who \<and> holds r = Some a \<or>
      (\<exists>x \<in> set (rs @ rs'). route_id x = who \<and> holds x = Some a)"
    using table_okD(1) [OF ok, of a who] by auto
  then show "owner (table_released (route_id r) (route_ufrag r) (holds r) t) a = Some who \<longleftrightarrow>
      (\<exists>x \<in> set (rs @ rs'). route_id x = who \<and> holds x = Some a)"
    using other by (auto simp: table_released_def)
next
  fix u who
  show "named (table_released (route_id r) (route_ufrag r) (holds r) t) u = Some who \<longrightarrow>
      (\<exists>x \<in> set (rs @ rs'). route_id x = who \<and> route_ufrag x = u)"
    using table_okD(2) [OF ok, of u who] by (auto simp: table_released_def)
next
  fix a
  show "tried (table_released (route_id r) (route_ufrag r) (holds r) t) a \<subseteq> live (rs @ rs')"
    using table_okD(3) [OF ok, of a] by (auto simp: table_released_def)
qed

lemma dropped_inv:
  assumes "shared_inv n s (rs @ r # rs')"
  shows "shared_inv n (route_drop r s) (rs @ rs')"
proof -
  have wf: "tables_wf (router s)" and ok: "table_ok (routing_of (router s)) (rs @ r # rs')"
    and dist: "distinct (map route_id (rs @ r # rs'))"
    using assms by (simp_all add: shared_inv_def)
  have gone: "route_id r \<notin> live (rs @ rs')"
    using dist by (auto simp: live_def)
  have "table_ok (table_released (route_id r) (route_ufrag r) (holds r) (routing_of (router s))) (rs @ rs')"
    by (rule table_ok_release [OF ok gone])
  moreover have "queues_ok (hm_remove (route_id r) (sessions s)) (live (rs @ rs'))"
    using assms gone by (auto simp: shared_inv_def queues_ok_def hm_get_remove)
  ultimately show ?thesis
    using assms wf by (auto simp: shared_inv_def route_drop_def tokio_contract.release_view tokio_contract.release_wf holds_def)
qed

lemma start_inv: "shared_inv 0 shared_state_default []"
  using tokio_contract.empty_wf
  by (simp add: shared_inv_def shared_state_default_def queues_ok_def table_ok_def routing_of_def router_default_def)

lemma shared_reachable_inv:
  assumes "shared_reachable U n s rs" "n < 2 ^ 64"
  shows "shared_inv n s rs"
  using assms
  by induction (auto intro: start_inv opened_inv arrived_inv taken_inv sent_inv claimed_inv dropped_inv)


section \<open>Properties\<close>

lemma empty_tables:
  assumes "tables_wf r" "table_ok (routing_of r) []"
  shows "r = router_default"
  using empty_routing [OF assms(1)] assms(2) by (simp add: router_default_def table_ok_def)

text \<open>C5: Sessions that share a socket are isolated and leave nothing behind.  In whatever order routes are opened, used and
  dropped and datagrams arrive, as long as fewer than \<open>2^64\<close> routes were opened: open routes have different ids, and
  these are the sessions with a channel; a datagram is only ever routed to an open route; once a route has claimed an
  address, every datagram from that address, in either notation, goes to that route alone, and no other route holds the
  address; no channel holds more than its capacity; and when no route is open the tables are as they were at the start.\<close>

theorem shared_socket_isolated:
  assumes "shared_reachable U n s rs" "n < 2 ^ 64"
  shows "distinct (map route_id rs) \<and> (\<forall>who. hm_get (sessions s) who \<noteq> None \<longleftrightarrow> who \<in> route_id ` set rs) \<and>
    (\<forall>addr data. set (router_route U (router s) addr data) \<subseteq> route_id ` set rs) \<and>
    (\<forall>r \<in> set rs. \<forall>a addr data. route_remote_addr r = Some a \<longrightarrow> canonical addr = canonical a \<longrightarrow>
       set (router_route U (router s) addr data) = {route_id r} \<and>
       (\<forall>r' \<in> set rs. map_option canonical (route_remote_addr r') = Some (canonical a) \<longrightarrow> r' = r)) \<and>
    (\<forall>who q. hm_get (sessions s) who = Some q \<longrightarrow> length q \<le> ROUTE_CHANNEL_CAPACITY) \<and>
    (rs = [] \<longrightarrow> sessions s = [] \<and> router s = router_default)"
proof -
  have inv: "shared_inv n s rs"
    using assms by (rule shared_reachable_inv)
  then have dist: "distinct (map route_id rs)" and q: "queues_ok (sessions s) (live rs)" and wf: "tables_wf (router s)"
    and ok: "table_ok (routing_of (router s)) rs"
    by (simp_all add: shared_inv_def)
  have "mentions (routing_of (router s)) \<subseteq> live rs"
    using table_okD [OF ok] by (fastforce simp: mentions_def live_def)
  then have inside: "set (router_route U (router s) addr data) \<subseteq> live rs" for addr data
    using tokio_contract.lookup_mentions [OF wf] by blast
  have own: "owner (routing_of (router s)) (canonical a) = Some (route_id r)"
    if "r \<in> set rs" "route_remote_addr r = Some a" for r a
    using that by (auto simp: table_okD(1) [OF ok] holds_def)
  then have alone: "set (router_route U (router s) addr data) = {route_id r}"
    if "r \<in> set rs" "route_remote_addr r = Some a" "canonical addr = canonical a" for r a addr data
    using that by (intro tokio_contract.claimed_lookup [OF wf]) simp
  have single: "r' = r" if "r \<in> set rs" "route_remote_addr r = Some a" "r' \<in> set rs" "holds r' = Some (canonical a)" for r r' a
  proof -
    have "owner (routing_of (router s)) (canonical a) = Some (route_id r')"
      using that(3,4) by (auto simp: table_okD(1) [OF ok])
    with own [OF that(1,2)] live_same [OF dist that(3,1)] show ?thesis
      by simp
  qed
  have "sessions s = []" "router s = router_default" if "rs = []"
    using q that hm_empty [of "sessions s"] empty_tables [OF wf] ok by (auto simp: queues_ok_def)
  with dist inside alone single q show ?thesis
    unfolding queues_ok_def live_def holds_def by blast
qed

definition mapped_addr :: socket_addr where
  "mapped_addr = \<lparr>sock_ip = IpV6 (Ipv6 0 0 0 0 0 0xFFFF 0x0A00 1), sock_port = 5000\<rparr>"


theorem shared_socket_isolated_witness:
  "\<exists>s r. shared_reachable sample_stun 1 s [r] \<and> route_remote_addr r = Some plain_addr \<and>
     set (router_route sample_stun (router s) mapped_addr [1]) = {route_id r} \<and>
     hm_get (sessions s) (route_id r) \<noteq> None"
proof -
  obtain r0 s0 where o: "route_open ''u'' shared_state_default = (r0, s0)"
    by (cases "route_open ''u'' shared_state_default")
  obtain r1 s1 where c: "route_claim r0 plain_addr s0 = (r1, s1)"
    by (cases "route_claim r0 plain_addr s0")
  have "route_remote_addr r0 = None" "hm_get (by_addr (router s0)) a = None" for a
    using o by (auto simp: route_open_def shared_state_default_def router_default_def router_register_ufrag_def Let_def)
  then have remote: "route_remote_addr r1 = Some plain_addr"
    using c by (auto simp: route_claim_def router_claim_addr_def)
  have "shared_reachable sample_stun 1 s0 [r0]"
    using shared_reachable.opened [OF shared_reachable.start o] by simp
  then have reach: "shared_reachable sample_stun 1 s1 [r1]"
    using shared_reachable.claimed [of sample_stun 1 s0 "[]" r0 "[]"] c by simp
  have same: "canonical mapped_addr = canonical plain_addr"
    by (simp add: canonical_def mapped_addr_def plain_addr_def to_ipv4_mapped_def)
  note iso = shared_socket_isolated [OF reach]
  have "set (router_route sample_stun (router s1) mapped_addr [1]) = {route_id r1}" "hm_get (sessions s1) (route_id r1) \<noteq> None"
    using iso remote same by simp_all
  with reach remote show ?thesis
    by blast
qed

end
