(* ===== verification/Pending_Offers.thy ===== *)
theory Pending_Offers
  imports Prelude "HOL-Library.Multiset"
begin

text \<open>
  The caps on offers that were answered and are not yet established: \<open>bevy-nethernet/src/pending.rs\<close> counts over the
  pending sessions each time, \<open>nethernet-tokio/src/transport/pending.rs\<close> keeps counts per network id and hands out slots
  that give their place back when dropped.  Both are instances of one contract over the multiset of pending network ids;
  proved are the caps over every history of slots, that no count is ever taken below zero, and that the two agree.
\<close>

record pending_limits =
  max_pending :: nat
  max_pending_per_network_id :: nat

definition DEFAULT_MAX_PENDING :: nat where "DEFAULT_MAX_PENDING = 64"
definition DEFAULT_MAX_PENDING_PER_NETWORK_ID :: nat where "DEFAULT_MAX_PENDING_PER_NETWORK_ID = 4"

definition pending_limits_default :: pending_limits where
  "pending_limits_default =
    \<lparr>max_pending = DEFAULT_MAX_PENDING, max_pending_per_network_id = DEFAULT_MAX_PENDING_PER_NETWORK_ID\<rparr>"

definition admits_offer :: "string list \<Rightarrow> string \<Rightarrow> pending_limits \<Rightarrow> bool" where
  "admits_offer pending nid limits =
     (let (total, same) = fold (\<lambda>x (total, same). (total + 1, same + (if x = nid then 1 else 0))) pending (0, 0) in
      total < max_pending limits \<and> same < max_pending_per_network_id limits)"

type_synonym pending_offers = "(string, nat) hash_map"
type_synonym pending_slot = string

definition try_admit :: "string \<Rightarrow> nat \<Rightarrow> nat \<Rightarrow> pending_offers \<Rightarrow> (pending_slot \<times> pending_offers) option" where
  "try_admit nid most per counts =
     (let total = sum_list (map snd counts);
          same = (case hm_get counts nid of Some n \<Rightarrow> n | None \<Rightarrow> 0) in
      if most \<le> total \<or> per \<le> same then None else Some (nid, hm_insert nid (same + 1) counts))"

text \<open>A count of zero that is taken down is an overflow of \<open>usize\<close>, the value \<open>None\<close>.\<close>

definition slot_drop :: "pending_slot \<Rightarrow> pending_offers \<Rightarrow> pending_offers option" where
  "slot_drop nid counts =
     (case hm_get counts nid of
        None \<Rightarrow> Some counts
      | Some 0 \<Rightarrow> None
      | Some (Suc n) \<Rightarrow> Some (if n = 0 then hm_remove nid counts else hm_insert nid n counts))"

section \<open>The contract\<close>

definition within_caps :: "string multiset \<Rightarrow> string \<Rightarrow> nat \<Rightarrow> nat \<Rightarrow> bool" where
  "within_caps M nid most per \<longleftrightarrow> size M < most \<and> count M nid < per"

locale pending_contract =
  fixes wf :: "'s \<Rightarrow> bool" and pending_of :: "'s \<Rightarrow> string multiset" and accepts :: "'s \<Rightarrow> string \<Rightarrow> nat \<Rightarrow> nat \<Rightarrow> bool"
    and admitted :: "string \<Rightarrow> 's \<Rightarrow> 's"
  assumes accepts_caps: "wf s \<Longrightarrow> accepts s nid most per \<longleftrightarrow> within_caps (pending_of s) nid most per"
    and admitted_wf: "wf s \<Longrightarrow> wf (admitted nid s)"
    and admitted_pending: "wf s \<Longrightarrow> pending_of (admitted nid s) = add_mset nid (pending_of s)"
begin

lemma admitted_caps:
  assumes "wf s" "accepts s nid most per"
    and "size (pending_of s) \<le> most" "\<And>x. count (pending_of s) x \<le> per"
  shows "size (pending_of (admitted nid s)) \<le> most" "count (pending_of (admitted nid s)) x \<le> per"
  using assms accepts_caps [OF assms(1), of nid most per]
  by (auto simp: admitted_pending within_caps_def Suc_le_eq)

end

section \<open>Both sides keep it\<close>

lemma fold_counts:
  "fold (\<lambda>x (total, same). (Suc total, same + (if x = nid then 1 else 0))) xs (t, s) =
     (t + length xs, s + count (mset xs) nid :: nat)"
  by (induction xs arbitrary: t s) auto

interpretation bevy_pending: pending_contract "\<lambda>_. True" mset
  "\<lambda>pending nid most per. admits_offer pending nid \<lparr>max_pending = most, max_pending_per_network_id = per\<rparr>" "(#)"
  by unfold_locales (simp_all add: admits_offer_def fold_counts within_caps_def)

definition counts_wf :: "pending_offers \<Rightarrow> bool" where
  "counts_wf m \<longleftrightarrow> hm_wf m \<and> (\<forall>nid n. hm_get m nid = Some n \<longrightarrow> 0 < n)"

definition slots_of :: "pending_offers \<Rightarrow> string multiset" where
  "slots_of m = sum_list (map (\<lambda>(nid, n). replicate_mset n nid) m)"

lemma slots_count:
  assumes "hm_wf m"
  shows "count (slots_of m) nid = (case hm_get m nid of Some n \<Rightarrow> n | None \<Rightarrow> 0)"
  using assms
  by (induction m) (auto simp: slots_of_def hm_wf_def hm_get_def map_of_eq_None_iff split: option.splits
      dest: map_of_SomeD intro: rev_image_eqI)

lemma slots_size: "size (slots_of m) = sum_list (map snd m)"
  by (induction m) (auto simp: slots_of_def)

interpretation tokio_pending: pending_contract counts_wf slots_of
  "\<lambda>m nid most per. try_admit nid most per m \<noteq> None"
  "\<lambda>nid m. hm_insert nid ((case hm_get m nid of Some n \<Rightarrow> n | None \<Rightarrow> 0) + 1) m"
proof unfold_locales
  fix m :: pending_offers and nid :: string and most per :: nat
  assume wf: "counts_wf m"
  then have hm: "hm_wf m"
    by (simp add: counts_wf_def)
  show "(try_admit nid most per m \<noteq> None) = within_caps (slots_of m) nid most per"
    by (auto simp: try_admit_def within_caps_def slots_size slots_count [OF hm] Let_def)
  show "counts_wf (hm_insert nid ((case hm_get m nid of Some n \<Rightarrow> n | None \<Rightarrow> 0) + 1) m)"
    using wf by (auto simp: counts_wf_def hm_get_insert)
  show "slots_of (hm_insert nid ((case hm_get m nid of Some n \<Rightarrow> n | None \<Rightarrow> 0) + 1) m) = add_mset nid (slots_of m)"
    using hm by (intro multiset_eqI) (auto simp: slots_count hm_get_insert split: option.splits)
qed

lemma slot_drop_slots:
  assumes "counts_wf m" "nid \<in># slots_of m"
  shows "\<exists>m'. slot_drop nid m = Some m' \<and> counts_wf m' \<and> slots_of m' = slots_of m - {#nid#}"
proof -
  have hm: "hm_wf m"
    using assms(1) by (simp add: counts_wf_def)
  from assms(2) obtain n where n: "hm_get m nid = Some (Suc n)"
    using slots_count [OF hm, of nid] by (cases "hm_get m nid") (auto simp flip: count_greater_zero_iff, metis Suc_pred)
  let ?m = "if n = 0 then hm_remove nid m else hm_insert nid n m"
  have "slots_of ?m = slots_of m - {#nid#}"
    using hm n by (intro multiset_eqI) (auto simp: slots_count hm_get_insert hm_get_remove split: option.splits)
  moreover have "counts_wf ?m"
    using assms(1) by (auto simp: counts_wf_def hm_get_insert hm_get_remove split: if_splits)
  ultimately show ?thesis
    using n by (auto simp: slot_drop_def)
qed

section \<open>Histories\<close>

text \<open>The counts with the slots that are held, under fixed limits.\<close>

inductive pending_reachable :: "pending_limits \<Rightarrow> pending_offers \<Rightarrow> pending_slot list \<Rightarrow> bool" for limits where
  none: "pending_reachable limits [] []"
| admitted: "pending_reachable limits m held \<Longrightarrow>
    try_admit nid (max_pending limits) (max_pending_per_network_id limits) m = Some (slot, m') \<Longrightarrow>
    pending_reachable limits m' (slot # held)"
| released: "pending_reachable limits m (held @ slot # held') \<Longrightarrow> slot_drop slot m = Some m' \<Longrightarrow>
    pending_reachable limits m' (held @ held')"

lemma try_admit_eq:
  "try_admit nid most per m = Some (slot, m') \<longleftrightarrow> try_admit nid most per m \<noteq> None \<and> slot = nid \<and>
     m' = hm_insert nid ((case hm_get m nid of Some n \<Rightarrow> n | None \<Rightarrow> 0) + 1) m"
  by (auto simp: try_admit_def Let_def)

lemma pending_reachable_inv:
  assumes "pending_reachable limits m held"
  shows "counts_wf m \<and> slots_of m = mset held \<and> length held \<le> max_pending limits \<and>
    (\<forall>nid. count (mset held) nid \<le> max_pending_per_network_id limits)"
  using assms
proof induction
  case none
  show ?case
    by (simp add: counts_wf_def slots_of_def)
next
  case (admitted m held nid slot m')
  note t = admitted.hyps(2) [unfolded try_admit_eq]
  from admitted.IH t tokio_pending.admitted_wf [of m nid] tokio_pending.admitted_pending [of m nid]
    tokio_pending.admitted_caps [of m nid "max_pending limits" "max_pending_per_network_id limits"]
  show ?case
    by (simp flip: size_mset)
next
  case (released m held slot held' m')
  then have "slot \<in># slots_of m"
    by simp
  with slot_drop_slots [of m slot] released have "counts_wf m'" "slots_of m' = mset (held @ held')"
    by auto
  moreover have "count (mset (held @ held')) nid \<le> count (mset (held @ slot # held')) nid" for nid
    by simp
  ultimately show ?case
    using released.IH by (auto intro: order_trans)
qed

section \<open>Properties\<close>

text \<open>C21: The two ways of counting pending offers are one.  Over every history of slots taken and dropped, the counts of the
  tokio server stand for exactly the slots held; these never exceed either cap; a further offer gets a slot exactly when
  the Bevy check over the held network ids admits it; dropping a held slot never takes a count below zero; and with no
  slot held no count is left.\<close>

theorem pending_limits_agree:
  assumes "pending_reachable limits m held"
  shows "length held \<le> max_pending limits \<and> count_list held nid \<le> max_pending_per_network_id limits \<and>
    (try_admit nid (max_pending limits) (max_pending_per_network_id limits) m \<noteq> None \<longleftrightarrow> admits_offer held nid limits) \<and>
    (\<forall>slot \<in> set held. slot_drop slot m \<noteq> None) \<and> (held = [] \<longrightarrow> m = [])"
proof -
  have inv: "counts_wf m" "slots_of m = mset held" "length held \<le> max_pending limits"
    "count (mset held) nid \<le> max_pending_per_network_id limits"
    using pending_reachable_inv [OF assms] by simp_all
  have "slot_drop slot m \<noteq> None" if "slot \<in> set held" for slot
    using slot_drop_slots [OF inv(1), of slot] that by (auto simp: inv(2))
  moreover have "m = []" if "held = []"
  proof (rule ccontr)
    assume "m \<noteq> []"
    then obtain x n rest where m: "m = (x, n) # rest"
      by (metis list.exhaust surj_pair)
    then have "hm_get m x = Some n"
      by (simp add: hm_get_def)
    then have "0 < n"
      using inv(1) unfolding counts_wf_def by blast
    with inv(2) that m show False
      by (simp add: slots_of_def)
  qed
  moreover have "try_admit nid (max_pending limits) (max_pending_per_network_id limits) m \<noteq> None \<longleftrightarrow> admits_offer held nid limits"
    using tokio_pending.accepts_caps [OF inv(1)] bevy_pending.accepts_caps [of held nid "max_pending limits" "max_pending_per_network_id limits"]
    by (simp add: inv(2) del: split_paired_Ex) (simp add: admits_offer_def)
  ultimately show ?thesis
    using inv(3,4) by (simp add: count_mset)
qed

theorem pending_limits_agree_witness:
  "\<exists>m. pending_reachable \<lparr>max_pending = 3, max_pending_per_network_id = 1\<rparr> m [''1''] \<and>
     try_admit ''1'' 3 1 m = None \<and> try_admit ''2'' 3 1 m \<noteq> None"
proof -
  let ?l = "\<lparr>max_pending = 3, max_pending_per_network_id = 1\<rparr>" and ?m = "[(''1'', 1 :: nat)]"
  have reach: "pending_reachable ?l ?m [''1'']"
    by (rule pending_reachable.admitted [OF pending_reachable.none, where nid = "''1''"])
      (simp add: try_admit_def hm_insert_def)
  from pending_limits_agree [OF reach, of "''1''"] pending_limits_agree [OF reach, of "''2''"]
  have "try_admit ''1'' 3 1 ?m = None" "try_admit ''2'' 3 1 ?m \<noteq> None"
    by (simp_all add: admits_offer_def del: split_paired_Ex split_paired_All)
  with reach show ?thesis
    by blast
qed

end
