(* ===== verification/Server_Sessions.thy ===== *)
theory Server_Sessions
  imports Admission Pending_Offers
begin

text \<open>
  The table of sessions that both Bevy servers keep (\<open>bevy-nethernet/src/server.rs\<close> and \<open>http_server.rs\<close>): the ids, the entries,
  the events they report and the count of pending offers.  \<open>entries_ok\<close> is what both promise of it: a bounded number of
  pending offers, a player for every session under a trust, and events in step with the sessions that are ready.
  Proved: each change the servers make to the table keeps it.
\<close>

record nether_session_id =
  sid_network_id :: string
  sid_connection_id :: u64

datatype nether_server_event =
    SessionConnected nether_session_id
  | SessionDisconnected nether_session_id

record session_entry =
  se_ready :: bool
  se_created :: instant
  se_remote_addr :: "socket_addr option"
  se_rtt :: "duration option"
  se_player :: "player_info option"

text \<open>What the answer to one offer draws from outside: the credentials, the clock of the SDP and the wall clock.\<close>

record offer_draw =
  drawn_credentials :: "string \<times> string"
  drawn_clock :: "nat option"
  drawn_wall :: system_time

definition session_of :: "signal \<Rightarrow> nether_session_id" where
  "session_of sgl = \<lparr>sid_network_id = network_id sgl, sid_connection_id = connection_id sgl\<rparr>"

definition pending_ids :: "(nether_session_id, 'x session_entry_scheme) hash_map \<Rightarrow> string list" where
  "pending_ids m = map (\<lambda>(who, _). sid_network_id who) (filter (\<lambda>(_, e). \<not> se_ready e) m)"

section \<open>What the table promises\<close>

definition last_event :: "nether_session_id \<Rightarrow> nether_server_event list \<Rightarrow> nether_server_event option" where
  "last_event who log =
     (case filter (\<lambda>ev. ev = SessionConnected who \<or> ev = SessionDisconnected who) log of [] \<Rightarrow> None | evs \<Rightarrow> Some (last evs))"

text \<open>Between two connects of a session there is a disconnect.\<close>

fun alternates :: "nether_server_event list \<Rightarrow> bool" where
  "alternates [] = True"
| "alternates (SessionConnected who # log) \<longleftrightarrow>
     alternates log \<and> (case filter (\<lambda>ev. ev = SessionConnected who \<or> ev = SessionDisconnected who) log of
        [] \<Rightarrow> True | ev # _ \<Rightarrow> ev = SessionDisconnected who)"
| "alternates (SessionDisconnected who # log) = alternates log"

definition is_connected :: "nether_session_id \<Rightarrow> (nether_session_id, 'x session_entry_scheme) hash_map \<Rightarrow> bool" where
  "is_connected who m \<longleftrightarrow> (\<exists>e. hm_get m who = Some e \<and> se_ready e)"

definition within_limits :: "pending_limits \<Rightarrow> (nether_session_id, 'x session_entry_scheme) hash_map \<Rightarrow> bool" where
  "within_limits limits m \<longleftrightarrow> length (pending_ids m) \<le> max_pending limits \<and>
     (\<forall>nid. count (mset (pending_ids m)) nid \<le> max_pending_per_network_id limits)"

definition entries_ok ::
  "bool \<Rightarrow> pending_limits \<Rightarrow> nether_server_event list \<Rightarrow> (nether_session_id, 'x session_entry_scheme) hash_map \<Rightarrow> bool" where
  "entries_ok trusting limits log m \<longleftrightarrow>
     hm_wf m \<and> within_limits limits m \<and> (trusting \<longrightarrow> (\<forall>who e. hm_get m who = Some e \<longrightarrow> se_player e \<noteq> None)) \<and>
     alternates log \<and> (\<forall>who. last_event who log = Some (SessionConnected who) \<longleftrightarrow> is_connected who m)"

section \<open>Lemmas\<close>

lemma last_event_alt:
  "last_event who log =
     (let evs = filter (\<lambda>ev. ev = SessionConnected who \<or> ev = SessionDisconnected who) log in if evs = [] then None else Some (last evs))"
  by (simp add: last_event_def Let_def split: list.split)

lemma last_event_append [simp]:
  "last_event who (log @ [SessionConnected w]) = (if w = who then Some (SessionConnected who) else last_event who log)"
  "last_event who (log @ [SessionDisconnected w]) = (if w = who then Some (SessionDisconnected who) else last_event who log)"
  by (simp_all add: last_event_alt)

lemma alternates_disconnected [simp]: "alternates (log @ [SessionDisconnected w]) = alternates log"
  by (induction log rule: alternates.induct) (auto split: list.splits)

lemma alternates_connected:
  assumes "alternates log" "last_event w log \<noteq> Some (SessionConnected w)"
  shows "alternates (log @ [SessionConnected w])"
  using assms
proof (induction log rule: alternates.induct)
  case (2 who log)
  let ?of = "\<lambda>log. filter (\<lambda>ev. ev = SessionConnected who \<or> ev = SessionDisconnected who) log"
  have "last_event w log \<noteq> Some (SessionConnected w)"
    using "2.prems"(2) by (auto simp: last_event_def split: list.splits if_splits)
  moreover have "?of log \<noteq> []" if "w = who"
    using "2.prems"(2) that by (auto simp: last_event_def)
  ultimately show ?case
    using 2 by (cases "?of log") auto
next
  case (3 who log)
  then have "last_event w log \<noteq> Some (SessionConnected w)"
    by (auto simp: last_event_def split: list.splits if_splits)
  with 3 show ?case
    by simp
qed simp

lemma within_limits_subset:
  assumes "mset (pending_ids m') \<subseteq># mset (pending_ids m)" "within_limits limits m"
  shows "within_limits limits m'"
  using assms size_mset_mono [OF assms(1)] mset_subset_eq_count [OF assms(1)] unfolding within_limits_def
  by (auto intro: order_trans)

lemma pending_retain: "mset (pending_ids (hm_retain P m)) \<subseteq># mset (pending_ids m)"
proof -
  have "mset (filter (\<lambda>(_, e). \<not> se_ready e) (hm_retain P m)) \<subseteq># mset (filter (\<lambda>(_, e). \<not> se_ready e) m)"
    unfolding hm_retain_def mset_filter by (intro multiset_filter_mono) simp
  then show ?thesis
    unfolding pending_ids_def mset_map by (rule image_mset_subseteq_mono)
qed

lemma pending_update:
  assumes "hm_wf m" "hm_get m who = Some e" "se_ready e \<longrightarrow> se_ready e'"
  shows "mset (pending_ids (hm_insert who e' m)) \<subseteq># mset (pending_ids m)"
  using assms
proof (induction m)
  case (Cons x m)
  obtain k v where x: "x = (k, v)"
    by (cases x)
  show ?case
  proof (cases "k = who")
    case True
    with Cons.prems show ?thesis
      by (auto simp: x hm_insert_def hm_get_def pending_ids_def)
  next
    case False
    with Cons have "mset (pending_ids (hm_insert who e' m)) \<subseteq># mset (pending_ids m)"
      by (simp add: x hm_wf_def hm_get_def)
    with False show ?thesis
      by (simp add: x hm_insert_def pending_ids_def)
  qed
qed (simp add: hm_get_def)

lemma pending_new: "hm_get m who = None \<Longrightarrow> \<not> se_ready e \<Longrightarrow> pending_ids (hm_insert who e m) = pending_ids m @ [sid_network_id who]"
  by (simp add: hm_insert_new pending_ids_def)

lemma entries_empty: "entries_ok trusting limits [] []"
  by (simp add: entries_ok_def within_limits_def pending_ids_def last_event_def is_connected_def hm_get_def hm_wf_def)

lemma entries_added:
  assumes ok: "entries_ok trusting limits log m" and new: "hm_get m who = None"
    and admits: "admits_offer (pending_ids m) (sid_network_id who) limits"
    and e: "\<not> se_ready e" "trusting \<longrightarrow> se_player e \<noteq> None"
  shows "entries_ok trusting limits log (hm_insert who e m)"
proof -
  have "admits_offer (pending_ids m) (sid_network_id who)
      \<lparr>max_pending = max_pending limits, max_pending_per_network_id = max_pending_per_network_id limits\<rparr>"
    using admits by (simp add: admits_offer_def)
  from bevy_pending.admitted_caps [OF TrueI this] ok have "within_limits limits (hm_insert who e m)"
    unfolding entries_ok_def within_limits_def pending_new [OF new e(1)] by simp
  then show ?thesis
    using ok new e by (auto simp: entries_ok_def hm_get_insert is_connected_def)
qed

lemma entries_removed:
  assumes "entries_ok trusting limits log m"
  shows "entries_ok trusting limits (log @ [SessionDisconnected who]) (hm_remove who m)"
proof -
  have "within_limits limits (hm_remove who m)"
    using assms within_limits_subset [OF pending_retain] by (auto simp: entries_ok_def hm_remove_retain)
  with assms show ?thesis
    by (auto simp: entries_ok_def hm_get_remove is_connected_def split: if_splits)
qed

lemma entries_connected:
  assumes ok: "entries_ok trusting limits log m" and e: "hm_get m who = Some e" "\<not> se_ready e"
    and e': "se_ready e'" "se_player e' = se_player e"
  shows "entries_ok trusting limits (log @ [SessionConnected who]) (hm_insert who e' m)"
proof -
  have wf: "hm_wf m"
    using ok by (simp add: entries_ok_def)
  have "within_limits limits (hm_insert who e' m)"
    by (rule within_limits_subset [OF pending_update [OF wf e(1)]]) (use e ok in \<open>simp_all add: entries_ok_def\<close>)
  moreover have "alternates (log @ [SessionConnected who])"
    using ok e by (intro alternates_connected) (auto simp: entries_ok_def is_connected_def)
  ultimately show ?thesis
    using ok e e' by (auto simp: entries_ok_def hm_get_insert is_connected_def)
qed

lemma entries_updated:
  assumes ok: "entries_ok trusting limits log m" and e: "hm_get m who = Some e"
    and e': "se_ready e' = se_ready e" "se_player e' = se_player e"
  shows "entries_ok trusting limits log (hm_insert who e' m)"
proof -
  have wf: "hm_wf m"
    using ok by (simp add: entries_ok_def)
  have "within_limits limits (hm_insert who e' m)"
    by (rule within_limits_subset [OF pending_update [OF wf e]]) (use e' ok in \<open>simp_all add: entries_ok_def\<close>)
  with ok e e' show ?thesis
    by (auto simp: entries_ok_def hm_get_insert is_connected_def split: if_splits)
qed

lemma entries_retained:
  assumes ok: "entries_ok trusting limits log m" and ready: "\<And>who e. se_ready e \<Longrightarrow> keep who e"
  shows "entries_ok trusting limits log (hm_retain keep m)"
proof -
  have wf: "hm_wf m"
    using ok by (simp add: entries_ok_def)
  have "within_limits limits (hm_retain keep m)"
    using ok within_limits_subset [OF pending_retain] by (auto simp: entries_ok_def)
  moreover have "is_connected who (hm_retain keep m) = is_connected who m" for who
    using ready by (auto simp: is_connected_def hm_get_retain [OF wf] split: option.splits if_splits)
  ultimately show ?thesis
    using ok by (auto simp: entries_ok_def hm_get_retain [OF wf] split: option.splits if_splits)
qed

end
