(* ===== verification/Session_Pool.thy ===== *)
theory Session_Pool
  imports Connection Routing
begin

text \<open>
  \<open>bevy-nethernet/src/connection.rs\<close>: the thread that owns one UDP socket and every session of a Bevy server or client.
  One iteration of its loop is \<open>drive_round\<close>, given what the iteration takes from outside: the datagram received, the
  commands waiting, the clock readings, and whether the other ends of its channels still exist.  What the thread writes
  is kept in the state: the datagrams sent, in order, and the events reported.  A result \<open>Inl ()\<close> is the thread's return,
  \<open>None\<close> a session that never returns.  The map of entries is visited in the order of its list, one of those the code may
  take.  Errors of a connection are only logged by the code, and the connection stays as the error left it.
\<close>

definition COMMAND_POLL_INTERVAL :: duration where "COMMAND_POLL_INTERVAL = 10 * millisecond"
definition MAX_IDLE :: duration where "MAX_IDLE = second"
definition RTT_REPORT_INTERVAL :: duration where "RTT_REPORT_INTERVAL = second"

datatype connection_event =
    PoolReady "socket_addr option"
  | PoolRtt duration
  | PoolMessage channel bytes
  | PoolFailed

datatype ('k, 'conn) pool_command =
    CmdAdd 'k 'conn string
  | CmdSignal 'k signal
  | CmdSend 'k channel bytes
  | CmdRemove 'k

record 'conn pool_entry =
  pe_connection :: 'conn
  pe_local_ufrag :: string
  pe_remote_addr :: "socket_addr option"
  pe_wait :: instant
  pe_reported_rtt :: "duration option"
  pe_rtt_reported_at :: "instant option"

text \<open>The locals of \<open>drive\<close>, the two channels and the socket as what was written to them.\<close>

record ('k, 'conn) pool =
  pool_entries :: "('k, 'conn pool_entry) hash_map"
  pool_router :: "'k bevy_router"
  pool_failed :: "'k list"
  pool_events :: "('k \<times> connection_event) list"
  pool_listening :: bool
  pool_sent :: "(bytes \<times> socket_addr) list"

definition pool_new :: "('k, 'conn) pool" where
  "pool_new = \<lparr>pool_entries = [], pool_router = bevy_router_default, pool_failed = [], pool_events = [],
     pool_listening = True, pool_sent = []\<rparr>"

text \<open>The handle's side of the event channel: everything reported since the last call.\<close>

definition pool_drive :: "('k, 'conn) pool \<Rightarrow> ('k \<times> connection_event) list \<times> ('k, 'conn) pool" where
  "pool_drive p = (pool_events p, p\<lparr>pool_events := []\<rparr>)"

fun run_each :: "('x \<Rightarrow> 's \<Rightarrow> ('s, 'e, unit) run) \<Rightarrow> 'x list \<Rightarrow> 's \<Rightarrow> ('s, 'e, unit) run" where
  "run_each f [] s = run_ok s"
| "run_each f (x # xs) s = run_bind (f x s) (\<lambda>_. run_each f xs)"

definition next_wait :: "('k, 'conn) pool \<Rightarrow> instant \<Rightarrow> duration" where
  "next_wait p now =
     (case map (\<lambda>(_, e). pe_wait e - now) (pool_entries p) of [] \<Rightarrow> MAX_IDLE | d # ds \<Rightarrow> foldl min d ds)"

definition read_timeout :: "('k, 'conn) pool \<Rightarrow> instant \<Rightarrow> duration" where
  "read_timeout p now = max (min (next_wait p now) COMMAND_POLL_INTERVAL) millisecond"

definition report :: "'k \<Rightarrow> connection_event \<Rightarrow> ('k, 'conn) pool \<Rightarrow> (('k, 'conn) pool, unit, unit) step" where
  "report who ev p =
     (if pool_listening p then (p\<lparr>pool_events := pool_events p @ [(who, ev)]\<rparr>, Inr ()) else (p, Inl ()))"

definition with_entry ::
  "('i, 'k, 'c, 'g, 'd, 'p, 'h, 'a, 'v, 'w) session_ops \<Rightarrow> ('m, 's, 'k) signal_ops \<Rightarrow> 'id \<Rightarrow> connection_input \<Rightarrow>
    ('id, ('i, 'c, 'd, 'p, 'h, 'a) connection) pool \<Rightarrow> (('id, ('i, 'c, 'd, 'p, 'h, 'a) connection) pool, unit, unit) run" where
  "with_entry X Y who msg p =
     (case hm_get (pool_entries p) who of
        None \<Rightarrow> run_ok p
      | Some e \<Rightarrow>
          (case connection_handle X Y (pe_connection e) msg of
             None \<Rightarrow> None
           | Some (c, _) \<Rightarrow> run_ok (p\<lparr>pool_entries := hm_insert who (e\<lparr>pe_connection := c\<rparr>) (pool_entries p)\<rparr>)))"

definition drop_entry :: "'k \<Rightarrow> ('k, 'conn) pool \<Rightarrow> ('k, 'conn) pool" where
  "drop_entry who p =
     (case hm_get (pool_entries p) who of
        None \<Rightarrow> p
      | Some e \<Rightarrow> p\<lparr>pool_entries := hm_remove who (pool_entries p),
                    pool_router := bevy_release who (pe_local_ufrag e) (pe_remote_addr e) (pool_router p)\<rparr>)"

text \<open>The first part of a round: the datagram goes to each session it is routed to.\<close>

definition drive_packet ::
  "('i, 'k, 'c, 'g, 'd, 'p, 'h, 'a, 'v, 'w) session_ops \<Rightarrow> ('m, 's, 'k) signal_ops \<Rightarrow> 'u stun_ops \<Rightarrow> ('id \<Rightarrow> instant) \<Rightarrow>
    (bytes \<times> socket_addr) option \<Rightarrow> ('id, ('i, 'c, 'd, 'p, 'h, 'a) connection) pool \<Rightarrow>
    (('id, ('i, 'c, 'd, 'p, 'h, 'a) connection) pool, unit, unit) run" where
  "drive_packet X Y U clock received p =
     (case received of
        None \<Rightarrow> run_ok p
      | Some (data, addr) \<Rightarrow>
          run_each (\<lambda>who. with_entry X Y who (ConnPacket data addr (clock who))) (bevy_route U (pool_router p) addr data) p)"

definition drive_command ::
  "('i, 'k, 'c, 'g, 'd, 'p, 'h, 'a, 'v, 'w) session_ops \<Rightarrow> ('m, 's, 'k) signal_ops \<Rightarrow> instant \<Rightarrow> ('id \<Rightarrow> instant) \<Rightarrow>
    ('id, ('i, 'c, 'd, 'p, 'h, 'a) connection) pool_command \<Rightarrow> ('id, ('i, 'c, 'd, 'p, 'h, 'a) connection) pool \<Rightarrow>
    (('id, ('i, 'c, 'd, 'p, 'h, 'a) connection) pool, unit, unit) run" where
  "drive_command X Y now clock cmd p =
     (case cmd of
        CmdAdd who c ufrag \<Rightarrow>
          run_ok (p\<lparr>pool_router := bevy_register_ufrag ufrag who (pool_router p),
            pool_entries := hm_insert who \<lparr>pe_connection = c, pe_local_ufrag = ufrag, pe_remote_addr = None,
              pe_wait = clock who, pe_reported_rtt = None, pe_rtt_reported_at = None\<rparr> (pool_entries p)\<rparr>)
      | CmdRemove who \<Rightarrow> run_ok (drop_entry who p)
      | CmdSignal who sgl \<Rightarrow> with_entry X Y who (ConnSignal sgl now) p
      | CmdSend who ch data \<Rightarrow> with_entry X Y who (ConnSend ch data now) p)"

text \<open>The rest of a round works on one entry beside the pool; here the pool's own copy of it is stale until it is put back.\<close>

definition drive_output ::
  "('i, 'k, 'c, 'g, 'd, 'p, 'h, 'a, 'v, 'w) session_ops \<Rightarrow> 'id \<Rightarrow> instant \<Rightarrow> session_output \<Rightarrow>
    ('i, 'c, 'd, 'p, 'h, 'a) connection pool_entry \<times> ('id, ('i, 'c, 'd, 'p, 'h, 'a) connection) pool \<Rightarrow>
    (('i, 'c, 'd, 'p, 'h, 'a) connection pool_entry \<times> ('id, ('i, 'c, 'd, 'p, 'h, 'a) connection) pool, unit, unit) step" where
  "drive_output X who now out st =
     (case st of (e, p) \<Rightarrow>
      (case out of
         SendPacket data addr \<Rightarrow>
           ((e, (if pe_remote_addr e = None then p\<lparr>pool_router := bevy_note_sent addr who (pool_router p)\<rparr> else p)
              \<lparr>pool_sent := pool_sent p @ [(data, addr)]\<rparr>), Inr ())
       | Event Ready \<Rightarrow> map_prod (Pair e) id (report who (PoolReady (connection_remote_addr X (pe_connection e))) p)
       | Event Failed \<Rightarrow> ((e, p\<lparr>pool_failed := pool_failed p @ [who]\<rparr>), Inr ())
       | Message ch data \<Rightarrow> map_prod (Pair e) id (report who (PoolMessage ch data) p)
       | Wait w \<Rightarrow> ((e\<lparr>pe_wait := now + w\<rparr>, p), Inr ())))"

definition poll_entry ::
  "('i, 'c, 'd, 'p, 'h, 'a) connection pool_entry \<times> ('id, ('i, 'c, 'd, 'p, 'h, 'a) connection) pool \<Rightarrow> session_output option \<times>
    ('i, 'c, 'd, 'p, 'h, 'a) connection pool_entry \<times> ('id, ('i, 'c, 'd, 'p, 'h, 'a) connection) pool" where
  "poll_entry st =
     (case st of (e, p) \<Rightarrow>
      (case connection_poll (pe_connection e) of
         None \<Rightarrow> (None, e, p)
       | Some (out, c) \<Rightarrow> (Some out, e\<lparr>pe_connection := c\<rparr>, p)))"

definition claim_selected ::
  "('i, 'k, 'c, 'g, 'd, 'p, 'h, 'a, 'v, 'w) session_ops \<Rightarrow> 'id \<Rightarrow>
    ('i, 'c, 'd, 'p, 'h, 'a) connection pool_entry \<times> ('id, ('i, 'c, 'd, 'p, 'h, 'a) connection) pool \<Rightarrow>
    ('i, 'c, 'd, 'p, 'h, 'a) connection pool_entry \<times> ('id, ('i, 'c, 'd, 'p, 'h, 'a) connection) pool" where
  "claim_selected X who st =
     (case st of (e, p) \<Rightarrow>
      (case (pe_remote_addr e, connection_remote_addr X (pe_connection e)) of
         (None, Some a) \<Rightarrow> (e\<lparr>pe_remote_addr := Some a\<rparr>, p\<lparr>pool_router := bevy_claim_addr a who (pool_router p)\<rparr>)
       | _ \<Rightarrow> (e, p)))"

definition report_rtt ::
  "('i, 'k, 'c, 'g, 'd, 'p, 'h, 'a, 'v, 'w) session_ops \<Rightarrow> 'id \<Rightarrow> instant \<Rightarrow>
    ('i, 'c, 'd, 'p, 'h, 'a) connection pool_entry \<times> ('id, ('i, 'c, 'd, 'p, 'h, 'a) connection) pool \<Rightarrow>
    (('i, 'c, 'd, 'p, 'h, 'a) connection pool_entry \<times> ('id, ('i, 'c, 'd, 'p, 'h, 'a) connection) pool, unit, unit) step" where
  "report_rtt X who now st =
     (case st of (e, p) \<Rightarrow>
      (case connection_rtt X (pe_connection e) of
         None \<Rightarrow> ((e, p), Inr ())
       | Some rtt \<Rightarrow>
           if pe_reported_rtt e \<noteq> Some rtt \<and>
             (case pe_rtt_reported_at e of None \<Rightarrow> True | Some at \<Rightarrow> RTT_REPORT_INTERVAL \<le> now - at)
           then map_prod (Pair (e\<lparr>pe_reported_rtt := Some rtt, pe_rtt_reported_at := Some now\<rparr>)) id (report who (PoolRtt rtt) p)
           else ((e, p), Inr ())))"

definition drive_entry ::
  "('i, 'k, 'c, 'g, 'd, 'p, 'h, 'a, 'v, 'w) session_ops \<Rightarrow> ('m, 's, 'k) signal_ops \<Rightarrow> instant \<Rightarrow> 'id \<Rightarrow>
    ('id, ('i, 'c, 'd, 'p, 'h, 'a) connection) pool \<Rightarrow> (('id, ('i, 'c, 'd, 'p, 'h, 'a) connection) pool, unit, unit) run" where
  "drive_entry X Y now who p =
     (case hm_get (pool_entries p) who of
        None \<Rightarrow> run_ok p
      | Some e \<Rightarrow>
          (case connection_handle X Y (pe_connection e) (ConnTimeout now) of
             None \<Rightarrow> None
           | Some (c, _) \<Rightarrow>
               map_option (map_prod (\<lambda>(e, p). p\<lparr>pool_entries := hm_insert who e (pool_entries p)\<rparr>) id)
                 (run_bind (while_poll poll_entry (drive_output X who now) (claim_selected X who (e\<lparr>pe_connection := c\<rparr>, p)))
                   (\<lambda>_ st. Some (report_rtt X who now st)))))"

definition drive_failed :: "'k \<Rightarrow> ('k, 'conn) pool \<Rightarrow> (('k, 'conn) pool, unit, unit) run" where
  "drive_failed who p = Some (report who PoolFailed (drop_entry who p))"

record ('id, 'conn) round_input =
  timeout_set :: bool
  started :: instant
  received :: "(bytes \<times> socket_addr) option"
  packet_clock :: "'id \<Rightarrow> instant"
  waiting :: "('id, 'conn) pool_command list"
  add_clock :: "'id \<Rightarrow> instant"
  commands_closed :: bool
  driven_at :: instant

definition drive_round ::
  "('i, 'k, 'c, 'g, 'd, 'p, 'h, 'a, 'v, 'w) session_ops \<Rightarrow> ('m, 's, 'k) signal_ops \<Rightarrow> 'u stun_ops \<Rightarrow>
    ('id, ('i, 'c, 'd, 'p, 'h, 'a) connection) round_input \<Rightarrow> ('id, ('i, 'c, 'd, 'p, 'h, 'a) connection) pool \<Rightarrow>
    (('id, ('i, 'c, 'd, 'p, 'h, 'a) connection) pool, unit, unit) run" where
  "drive_round X Y U inp p =
     (if \<not> timeout_set inp then Some (p, Inl ())
      else
        run_bind (drive_packet X Y U (packet_clock inp) (received inp) p) (\<lambda>_ p.
        run_bind (run_each (drive_command X Y (started inp) (add_clock inp)) (waiting inp) p) (\<lambda>_ p.
        if commands_closed inp then Some (p, Inl ())
        else
          run_bind (run_each (drive_entry X Y (driven_at inp)) (map fst (pool_entries p)) (p\<lparr>pool_failed := []\<rparr>)) (\<lambda>_ p.
            run_each drive_failed (pool_failed p) p))))"


section \<open>The invariant\<close>

text \<open>What the router may say of the entries: an address is owned by an entry that has it as its peer's, a fragment names the
  entry it was registered for, and only entries are noted as senders.  Each entry counts with its fragment and address.\<close>

type_synonym 'k roster = "'k \<Rightarrow> (string \<times> socket_addr option) option"

definition roster :: "('k, 'conn) pool \<Rightarrow> 'k roster" where
  "roster p who = map_option (\<lambda>e. (pe_local_ufrag e, pe_remote_addr e)) (hm_get (pool_entries p) who)"

definition listed :: "'k routing \<Rightarrow> 'k roster \<Rightarrow> bool" where
  "listed t m \<longleftrightarrow>
     (\<forall>a who. owner t a = Some who \<longrightarrow> (\<exists>u. m who = Some (u, Some a))) \<and>
     (\<forall>u who. named t u = Some who \<longrightarrow> (\<exists>addr. m who = Some (u, addr))) \<and>
     (\<forall>a. tried t a \<subseteq> dom m)"

definition pool_inv :: "('k, 'conn) pool \<Rightarrow> bool" where
  "pool_inv p \<longleftrightarrow> hm_wf (pool_entries p) \<and> tables_wf (pool_router p) \<and> listed (routing_of (pool_router p)) (roster p)"

text \<open>The same with one entry held beside the pool.\<close>

definition entry_inv :: "'k \<Rightarrow> 'conn pool_entry \<times> ('k, 'conn) pool \<Rightarrow> bool" where
  "entry_inv who st \<longleftrightarrow>
     (case st of (e, p) \<Rightarrow> hm_wf (pool_entries p) \<and> tables_wf (pool_router p) \<and>
        listed (routing_of (pool_router p)) ((roster p)(who \<mapsto> (pe_local_ufrag e, pe_remote_addr e))))"

lemma listedD:
  assumes "listed t m"
  shows "owner t a = Some who \<Longrightarrow> \<exists>u. m who = Some (u, Some a)"
    and "named t u = Some who \<Longrightarrow> \<exists>addr. m who = Some (u, addr)"
    and "who \<in> tried t a \<Longrightarrow> who \<in> dom m"
  using assms unfolding listed_def by blast+

lemma listed_named: "listed t m \<Longrightarrow> m who = None \<Longrightarrow> listed (table_named u who t) (m(who \<mapsto> (u, None)))"
  unfolding listed_def table_named_def by (auto split: if_splits) fastforce+

lemma listed_tried: "listed t m \<Longrightarrow> who \<in> dom m \<Longrightarrow> listed (table_tried a who t) m"
  unfolding listed_def table_tried_def by (auto split: if_splits)

lemma listed_claimed:
  assumes "listed t (m(who \<mapsto> (u, None)))"
  shows "listed (table_claimed a who t) (m(who \<mapsto> (u, Some a)))"
  unfolding listed_def
proof (intro conjI allI impI)
  fix b x
  assume "owner (table_claimed a who t) b = Some x"
  then have "b = a \<and> x = who \<or> owner t b = Some x"
    by (auto simp: table_claimed_def split: if_splits)
  then show "\<exists>v. (m(who \<mapsto> (u, Some a))) x = Some (v, Some b)"
  proof
    assume "owner t b = Some x"
    from listedD(1) [OF assms this] show ?thesis
      by (simp split: if_splits)
  qed simp
next
  fix v x
  assume "named (table_claimed a who t) v = Some x"
  then have "named t v = Some x"
    by (simp add: table_claimed_def split: if_splits)
  from listedD(2) [OF assms this] show "\<exists>addr. (m(who \<mapsto> (u, Some a))) x = Some (v, addr)"
    by (simp split: if_splits)
next
  fix b
  show "tried (table_claimed a who t) b \<subseteq> dom (m(who \<mapsto> (u, Some a)))"
    using listedD(3) [OF assms, of _ b] by (auto simp: table_claimed_def)
qed

text \<open>The release of the code, which takes the fragment whoever has it.\<close>

lemma bevy_release_any:
  assumes "tables_wf r"
  shows "routing_of (bevy_release who u addr r) = (table_released who u addr (routing_of r))\<lparr>named := (named (routing_of r))(u := None)\<rparr>"
  using assms by (auto simp: bevy_release_def routing_of_def table_released_def tables_wf_def forget_tried hm_get_remove
      fun_eq_iff Let_def split: option.splits)

lemma listed_released:
  assumes "listed t m" "m who = Some (u, addr)"
  shows "listed ((table_released who u addr t)\<lparr>named := (named t)(u := None)\<rparr>) (m(who := None))"
  unfolding listed_def
proof (intro conjI allI impI)
  fix a x
  assume "owner ((table_released who u addr t)\<lparr>named := (named t)(u := None)\<rparr>) a = Some x"
  then have "owner t a = Some x" "\<not> (addr = Some a \<and> x = who)"
    by (auto simp: table_released_def split: if_splits)
  with listedD(1) [OF assms(1), of a x] assms(2) show "\<exists>v. (m(who := None)) x = Some (v, Some a)"
    by auto
next
  fix v x
  assume "named ((table_released who u addr t)\<lparr>named := (named t)(u := None)\<rparr>) v = Some x"
  then show "\<exists>b. (m(who := None)) x = Some (v, b)"
    using listedD(2) [OF assms(1), of v x] assms(2) by (auto split: if_splits)
next
  fix a
  show "tried ((table_released who u addr t)\<lparr>named := (named t)(u := None)\<rparr>) a \<subseteq> dom (m(who := None))"
    using listedD(3) [OF assms(1), of _ a] by (auto simp: table_released_def)
qed

lemma roster_insert: "roster (p\<lparr>pool_entries := hm_insert who e (pool_entries p)\<rparr>) =
    (roster p)(who \<mapsto> (pe_local_ufrag e, pe_remote_addr e))"
  by (simp add: roster_def hm_get_insert fun_eq_iff)

lemma roster_added: "roster (p\<lparr>pool_router := r, pool_entries := hm_insert who e (pool_entries p)\<rparr>) =
    (roster p)(who \<mapsto> (pe_local_ufrag e, pe_remote_addr e))"
  by (simp add: roster_def hm_get_insert fun_eq_iff)

lemma roster_unseen [simp]:
  "roster (p\<lparr>pool_router := r\<rparr>) = roster p" "roster (p\<lparr>pool_sent := d\<rparr>) = roster p"
  "roster (p\<lparr>pool_failed := f\<rparr>) = roster p" "roster (p\<lparr>pool_events := v\<rparr>) = roster p"
  by (simp_all add: roster_def fun_eq_iff)

lemma roster_remove: "roster (p\<lparr>pool_entries := hm_remove who (pool_entries p)\<rparr>) = (roster p)(who := None)"
  by (simp add: roster_def hm_get_remove fun_eq_iff)

lemma pool_inv_unseen [simp]:
  "pool_inv (p\<lparr>pool_events := v\<rparr>) = pool_inv p" "pool_inv (p\<lparr>pool_failed := f\<rparr>) = pool_inv p"
  by (simp_all add: pool_inv_def)

lemma report_inv: "pool_inv p \<Longrightarrow> pool_inv (fst (report who ev p))"
  by (simp add: report_def)

lemma drop_entry_inv:
  assumes "pool_inv p"
  shows "pool_inv (drop_entry who p)"
proof (cases "hm_get (pool_entries p) who")
  case (Some e)
  then have "roster p who = Some (pe_local_ufrag e, pe_remote_addr e)"
    by (simp add: roster_def)
  with assms Some listed_released [of "routing_of (pool_router p)" "roster p" who] show ?thesis
    by (simp add: drop_entry_def pool_inv_def roster_remove bevy_contract.release_wf bevy_release_any)
qed (use assms in \<open>simp add: drop_entry_def\<close>)

lemma with_entry_inv: "pool_inv p \<Longrightarrow> keeps pool_inv (with_entry X Y who msg p)"
proof -
  assume inv: "pool_inv p"
  have "roster (p\<lparr>pool_entries := hm_insert who (e\<lparr>pe_connection := c\<rparr>) (pool_entries p)\<rparr>) = roster p"
    if "hm_get (pool_entries p) who = Some e" for e c
    using that unfolding roster_insert by (auto simp: roster_def fun_eq_iff)
  with inv show ?thesis
    by (auto simp: with_entry_def keeps_def run_ok_def pool_inv_def split: option.splits)
qed

lemma run_each_keeps:
  assumes "\<And>x s. x \<in> set xs \<Longrightarrow> P s \<Longrightarrow> keeps P (f x s)" "P s"
  shows "keeps P (run_each f xs s)"
  using assms
proof (induction xs arbitrary: s)
  case (Cons x xs)
  show ?case
    unfolding run_each.simps
    by (rule keeps_bind) (use Cons in \<open>auto\<close>)
qed simp


section \<open>Every round keeps it\<close>

definition pool_within :: "'k set \<Rightarrow> ('k, 'conn) pool \<Rightarrow> bool" where
  "pool_within D p \<longleftrightarrow> pool_inv p \<and> dom (roster p) \<subseteq> D"

text \<open>The ids a sequence of commands leaves, and that it adds a session only under an id that has none.\<close>

fun cmd_ids :: "'k set \<Rightarrow> ('k, 'conn) pool_command list \<Rightarrow> 'k set" where
  "cmd_ids D [] = D"
| "cmd_ids D (CmdAdd who c u # cmds) = cmd_ids (insert who D) cmds"
| "cmd_ids D (CmdRemove who # cmds) = cmd_ids (D - {who}) cmds"
| "cmd_ids D (CmdSignal who s # cmds) = cmd_ids D cmds"
| "cmd_ids D (CmdSend who ch data # cmds) = cmd_ids D cmds"

fun adds_fresh :: "'k set \<Rightarrow> ('k, 'conn) pool_command list \<Rightarrow> bool" where
  "adds_fresh D [] = True"
| "adds_fresh D (CmdAdd who c u # cmds) = (who \<notin> D \<and> adds_fresh (insert who D) cmds)"
| "adds_fresh D (CmdRemove who # cmds) = adds_fresh (D - {who}) cmds"
| "adds_fresh D (CmdSignal who s # cmds) = adds_fresh D cmds"
| "adds_fresh D (CmdSend who ch data # cmds) = adds_fresh D cmds"

lemma cmd_ids_append: "cmd_ids D (xs @ ys) = cmd_ids (cmd_ids D xs) ys"
  by (induction D xs rule: cmd_ids.induct) simp_all

lemma adds_fresh_append: "adds_fresh D (xs @ ys) \<longleftrightarrow> adds_fresh D xs \<and> adds_fresh (cmd_ids D xs) ys"
  by (induction D xs rule: cmd_ids.induct) simp_all

lemma cmd_ids_mono: "D \<subseteq> E \<Longrightarrow> cmd_ids D xs \<subseteq> cmd_ids E xs"
  by (induction D xs arbitrary: E rule: cmd_ids.induct) (simp_all, blast+)

lemma adds_fresh_mono: "adds_fresh E xs \<Longrightarrow> D \<subseteq> E \<Longrightarrow> adds_fresh D xs"
proof (induction D xs arbitrary: E rule: cmd_ids.induct)
  case (2 D who c u cmds)
  then show ?case
    using "2.IH" [of "insert who E"] by auto
next
  case (3 D who cmds)
  then show ?case
    using "3.IH" [of "E - {who}"] by auto
qed simp_all

lemma with_entry_roster: "keeps (\<lambda>q. roster q = roster p) (with_entry X Y who msg p)"
  by (auto simp: with_entry_def keeps_def run_ok_def roster_insert split: option.splits)
    (auto simp: roster_def fun_eq_iff)

lemma keeps_conj: "keeps P r \<Longrightarrow> keeps Q r \<Longrightarrow> (\<And>s. P s \<Longrightarrow> Q s \<Longrightarrow> R s) \<Longrightarrow> keeps R r"
  by (auto simp: keeps_def)

lemma with_entry_within: "pool_within D p \<Longrightarrow> keeps (pool_within D) (with_entry X Y who msg p)"
  by (rule keeps_conj [OF with_entry_inv with_entry_roster]) (auto simp: pool_within_def)

lemma drop_entry_roster: "roster (drop_entry who p) = (roster p)(who := None)"
  by (auto simp: drop_entry_def roster_def hm_get_remove fun_eq_iff split: option.splits)

lemma drop_entry_within: "pool_within D p \<Longrightarrow> pool_within (D - {who}) (drop_entry who p)"
  by (auto simp: pool_within_def drop_entry_inv drop_entry_roster)

lemma within_mono: "pool_within D p \<Longrightarrow> D \<subseteq> E \<Longrightarrow> pool_within E p"
  by (auto simp: pool_within_def)

lemma packet_within: "pool_within D p \<Longrightarrow> keeps (pool_within D) (drive_packet X Y U clock datagram p)"
  by (auto simp: drive_packet_def split: option.splits intro!: run_each_keeps with_entry_within)

lemma command_within:
  assumes "pool_within D p" "adds_fresh D [cmd]"
  shows "keeps (pool_within (cmd_ids D [cmd])) (drive_command X Y now clock cmd p)"
proof (cases cmd)
  case (CmdAdd who c u)
  then have "roster p who = None"
    using assms by (auto simp: pool_within_def)
  with assms(1) listed_named [of "routing_of (pool_router p)" "roster p" who u] show ?thesis
    by (auto simp: CmdAdd drive_command_def pool_within_def pool_inv_def
        bevy_contract.register_wf bevy_contract.register_view roster_added)
qed (use assms in \<open>auto simp: drive_command_def intro: with_entry_within drop_entry_within\<close>)

lemma commands_within:
  assumes "pool_within D p" "adds_fresh D cmds" "run_each (drive_command X Y now clock) cmds p = Some (q, Inr ())"
  shows "pool_within (cmd_ids D cmds) q"
  using assms
proof (induction cmds arbitrary: D p)
  case (Cons cmd cmds)
  have fresh: "adds_fresh D [cmd]" "adds_fresh (cmd_ids D [cmd]) cmds"
    using Cons.prems(2) adds_fresh_append [of D "[cmd]" cmds] by simp_all
  from Cons.prems(3) obtain r where r: "drive_command X Y now clock cmd p = Some (r, Inr ())"
    "run_each (drive_command X Y now clock) cmds r = Some (q, Inr ())"
    by (auto simp: run_bind_eq_Some)
  have "pool_within (cmd_ids D [cmd]) r"
    using command_within [OF Cons.prems(1) fresh(1), of X Y now clock] r(1) by (simp add: keeps_def)
  from Cons.IH [OF this fresh(2) r(2)] show ?case
    using cmd_ids_append [of D "[cmd]" cmds] by simp
qed (simp add: run_ok_def)

lemma claim_selected_inv:
  assumes "pool_inv p" "hm_get (pool_entries p) who = Some e" "pe_local_ufrag e' = pe_local_ufrag e" "pe_remote_addr e' = pe_remote_addr e"
  shows "entry_inv who (claim_selected X who (e', p))"
proof -
  have same: "(roster p)(who \<mapsto> (pe_local_ufrag e', pe_remote_addr e')) = roster p"
    using assms(2-4) by (auto simp: roster_def fun_eq_iff)
  show ?thesis
  proof (cases "pe_remote_addr e'")
    case None
    with same have "listed (routing_of (pool_router p)) ((roster p)(who \<mapsto> (pe_local_ufrag e', None)))"
      using assms(1) by (simp add: pool_inv_def)
    from listed_claimed [OF this] assms(1) same None show ?thesis
      by (auto simp: claim_selected_def entry_inv_def pool_inv_def bevy_contract.claim_view bevy_contract.claim_wf
          split: option.splits)
  qed (use assms(1) same in \<open>auto simp: claim_selected_def entry_inv_def pool_inv_def\<close>)
qed

lemma entry_inv_report: "entry_inv who (e, p) \<Longrightarrow> entry_inv who (fst (map_prod (Pair e) id (report x ev p)))"
  by (simp add: report_def entry_inv_def)

lemma drive_output_inv:
  assumes "entry_inv who st"
  shows "entry_inv who (fst (drive_output X who now out st))"
proof (cases st)
  case (Pair e p)
  let ?m = "(roster p)(who \<mapsto> (pe_local_ufrag e, pe_remote_addr e))"
  have ok: "hm_wf (pool_entries p)" "tables_wf (pool_router p)" "listed (routing_of (pool_router p)) ?m"
    using assms Pair by (simp_all add: entry_inv_def)
  have sent: "listed (table_tried a who (routing_of (pool_router p))) ?m" for a
    by (rule listed_tried [OF ok(3)]) simp
  show ?thesis
  proof (cases out)
    case (Event ev)
    then show ?thesis
      using assms entry_inv_report [of who e p] by (cases ev) (auto simp: drive_output_def Pair entry_inv_def)
  next
    case (Message ch data)
    then show ?thesis
      using assms entry_inv_report [of who e p] by (simp add: drive_output_def Pair)
  qed (use ok sent in \<open>auto simp: drive_output_def Pair entry_inv_def bevy_contract.sent_view bevy_contract.sent_wf\<close>)
qed

lemma report_rtt_inv: "entry_inv who st \<Longrightarrow> entry_inv who (fst (report_rtt X who now st))"
  by (cases st) (simp add: report_rtt_def report_def entry_inv_def split: option.split)

lemma poll_entry_inv: "entry_inv who st \<Longrightarrow> poll_entry st = (x, st') \<Longrightarrow> entry_inv who st'"
  by (auto simp: poll_entry_def entry_inv_def split: prod.splits option.splits)

lemma poll_entry_roster: "poll_entry st = (x, st') \<Longrightarrow> roster (snd st') = roster (snd st)"
  by (cases st) (auto simp: poll_entry_def split: option.splits)

lemma report_roster: "roster (fst (report who ev p)) = roster p"
  by (simp add: report_def)

lemma drive_output_roster: "roster (snd (fst (drive_output X who now out st))) = roster (snd st)"
  by (cases st; cases out) (auto simp: drive_output_def report_def split: session_event.splits)

lemma report_rtt_roster: "roster (snd (fst (report_rtt X who now st))) = roster (snd st)"
  by (cases st) (simp add: report_rtt_def report_def split: option.split)

lemma claim_selected_roster: "roster (snd (claim_selected X who st)) = roster (snd st)"
  by (cases st) (simp add: claim_selected_def split: option.split)

lemma drive_entry_within:
  assumes "pool_within D p"
  shows "keeps (pool_within D) (drive_entry X Y now who p)"
proof (cases "hm_get (pool_entries p) who")
  case (Some e)
  let ?P = "\<lambda>st. entry_inv who st \<and> roster (snd st) = roster p"
  have inv: "pool_inv p" and who: "who \<in> dom (roster p)" and dom: "dom (roster p) \<subseteq> D"
    using assms Some by (auto simp: pool_within_def roster_def)
  have parts: "keeps ?P (run_bind (while_poll poll_entry (drive_output X who now)
      (claim_selected X who (e\<lparr>pe_connection := c\<rparr>, p))) (\<lambda>_ st. Some (report_rtt X who now st)))" for c
  proof (rule keeps_bind)
    have "entry_inv who (claim_selected X who (e\<lparr>pe_connection := c\<rparr>, p))"
      by (rule claim_selected_inv [OF inv Some]) simp_all
    then show "keeps ?P (while_poll poll_entry (drive_output X who now) (claim_selected X who (e\<lparr>pe_connection := c\<rparr>, p)))"
      by (intro while_poll_keeps)
        (auto simp: claim_selected_roster drive_output_roster dest: poll_entry_roster intro: poll_entry_inv drive_output_inv)
    show "keeps ?P (Some (report_rtt X who now st))" if "?P st" for st
      using report_rtt_inv [of who st X now] report_rtt_roster [of X who now st] that
      by (cases "report_rtt X who now st") simp
  qed
  have put: "pool_within D (q\<lparr>pool_entries := hm_insert who e' (pool_entries q)\<rparr>)" if "?P (e', q)" for e' q
    using that who dom by (auto simp: entry_inv_def pool_within_def pool_inv_def roster_insert)
  show ?thesis
  proof (cases "connection_handle X Y (pe_connection e) (ConnTimeout now)")
    case (Some cr)
    with \<open>hm_get (pool_entries p) who = Some e\<close> parts [of "fst cr"] put show ?thesis
      by (cases cr) (auto simp: drive_entry_def keeps_def)
  qed (simp add: drive_entry_def Some)
qed (use assms in \<open>simp add: drive_entry_def\<close>)

lemma drive_failed_within: "pool_within D p \<Longrightarrow> keeps (pool_within D) (drive_failed who p)"
  by (cases "report who PoolFailed (drop_entry who p)")
    (auto simp: drive_failed_def report_def drop_entry_inv drop_entry_roster pool_within_def split: if_splits)

lemma drive_round_within:
  assumes "pool_within D p" "adds_fresh D (waiting inp)" "drive_round X Y U inp p = Some (q, Inr ())"
  shows "pool_within (cmd_ids D (waiting inp)) q"
proof -
  from assms(3) obtain p1 p2 p3 where p1: "drive_packet X Y U (packet_clock inp) (received inp) p = Some (p1, Inr ())"
    and p2: "run_each (drive_command X Y (started inp) (add_clock inp)) (waiting inp) p1 = Some (p2, Inr ())"
    and p3: "run_each (drive_entry X Y (driven_at inp)) (map fst (pool_entries p2)) (p2\<lparr>pool_failed := []\<rparr>) = Some (p3, Inr ())"
    and q: "run_each drive_failed (pool_failed p3) p3 = Some (q, Inr ())"
    by (auto simp: drive_round_def run_bind_eq_Some split: if_splits)
  have "pool_within D p1"
    using packet_within [OF assms(1), of X Y U "packet_clock inp" "received inp"] p1 by (simp add: keeps_def)
  from commands_within [OF this assms(2) p2] have "pool_within (cmd_ids D (waiting inp)) (p2\<lparr>pool_failed := []\<rparr>)"
    by (simp add: pool_within_def)
  then have "keeps (pool_within (cmd_ids D (waiting inp)))
      (run_each (drive_entry X Y (driven_at inp)) (map fst (pool_entries p2)) (p2\<lparr>pool_failed := []\<rparr>))"
    by (intro run_each_keeps drive_entry_within)
  with p3 have "pool_within (cmd_ids D (waiting inp)) p3"
    by (simp add: keeps_def)
  then have "keeps (pool_within (cmd_ids D (waiting inp))) (run_each drive_failed (pool_failed p3) p3)"
    by (intro run_each_keeps drive_failed_within)
  with q show ?thesis
    by (simp add: keeps_def)
qed

section \<open>Every round returns\<close>

lemma run_each_returns: "(\<And>x s. \<exists>r. f x s = Some r) \<Longrightarrow> \<exists>r. run_each f xs s = Some r"
  by (induction xs arbitrary: s) (auto simp: run_ok_def simp del: split_paired_Ex intro: run_bind_returns)

lemma connection_handle_returns: "queues_finite X \<Longrightarrow> \<exists>r. connection_handle X Y c msg = Some r"
  by (cases msg) (auto simp: connection_handle_def conn_handle_signal_def on_session_def run_ok_def simp del: split_paired_Ex
      split: signal_type.splits sum.splits dest: session_handle_returns)

lemma with_entry_returns: "queues_finite X \<Longrightarrow> \<exists>r. with_entry X Y who msg p = Some r"
proof (cases "hm_get (pool_entries p) who")
  case (Some e)
  assume "queues_finite X"
  from connection_handle_returns [OF this, of Y "pe_connection e" msg] obtain c r
    where "connection_handle X Y (pe_connection e) msg = Some (c, r)"
    by auto
  with Some show ?thesis
    by (simp add: with_entry_def run_ok_def)
qed (simp add: with_entry_def run_ok_def)

text \<open>The loop over a connection's outputs takes one from its queue each time.\<close>

definition outputs_left :: "('i, 'c, 'd, 'p, 'h, 'a) connection pool_entry \<times> 'q \<Rightarrow> nat" where
  "outputs_left st = length (session_output (conn_session (pe_connection (fst st))))"

lemma drive_output_left: "outputs_left (fst (drive_output X who now out st)) = outputs_left st"
  by (cases st; cases out) (auto simp: drive_output_def outputs_left_def report_def split: session_event.splits)

lemma poll_entry_left: "poll_entry st = (Some out, st') \<Longrightarrow> outputs_left st' < outputs_left st"
  by (cases st) (auto simp: poll_entry_def connection_poll_def session_poll_def pop_front_def outputs_left_def
      split: option.splits list.splits)

lemma outputs_return: "\<exists>r. while_poll poll_entry (drive_output X who now) st = Some r"
  by (rule while_poll_returns_measure [where m = outputs_left]) (simp add: drive_output_left poll_entry_left)

lemma drive_entry_returns: "queues_finite X \<Longrightarrow> \<exists>r. drive_entry X Y now who p = Some r"
proof (cases "hm_get (pool_entries p) who")
  case (Some e)
  assume "queues_finite X"
  from connection_handle_returns [OF this, of Y "pe_connection e" "ConnTimeout now"] obtain c r
    where c: "connection_handle X Y (pe_connection e) (ConnTimeout now) = Some (c, r)"
    by auto
  have "\<exists>r. run_bind (while_poll poll_entry (drive_output X who now) (claim_selected X who (e\<lparr>pe_connection := c\<rparr>, p)))
      (\<lambda>_ st. Some (report_rtt X who now st)) = Some r"
    by (rule run_bind_returns [OF outputs_return]) simp
  with Some c show ?thesis
    by (auto simp: drive_entry_def simp del: split_paired_Ex)
qed (simp add: drive_entry_def run_ok_def)

lemma drive_command_returns: "queues_finite X \<Longrightarrow> \<exists>r. drive_command X Y now clock cmd p = Some r"
  by (cases cmd) (auto simp: drive_command_def run_ok_def simp del: split_paired_Ex intro: with_entry_returns)

lemma drive_packet_returns: "queues_finite X \<Longrightarrow> \<exists>r. drive_packet X Y U clock datagram p = Some r"
  by (auto simp: drive_packet_def run_ok_def simp del: split_paired_Ex split: option.splits
      intro!: run_each_returns with_entry_returns)

lemma failed_result:
  assumes "run_each drive_failed whos p = Some (q, Inr ())"
  shows "pool_failed q = pool_failed p \<and> (\<forall>who. hm_get (pool_entries q) who \<noteq> None \<longrightarrow> hm_get (pool_entries p) who \<noteq> None) \<and>
    (\<forall>who \<in> set whos. hm_get (pool_entries q) who = None) \<and> pool_events q = pool_events p @ map (\<lambda>who. (who, PoolFailed)) whos"
  using assms
proof (induction whos arbitrary: p)
  case (Cons who whos)
  then obtain r where r: "drive_failed who p = Some (r, Inr ())" "run_each drive_failed whos r = Some (q, Inr ())"
    by (auto simp: run_bind_eq_Some)
  from r(1) have "pool_failed r = pool_failed p" "pool_events r = pool_events p @ [(who, PoolFailed)]"
    "hm_get (pool_entries r) x = (if x = who then None else hm_get (pool_entries p) x)" for x
    by (auto simp: drive_failed_def report_def drop_entry_def hm_get_remove split: if_splits option.splits)
  with Cons.IH [OF r(2)] show ?case
    by (auto split: if_splits) (metis option.distinct(1))
qed (simp add: run_ok_def)


section \<open>Properties\<close>

text \<open>A pool after any number of rounds; a session is added under an id that no entry has.\<close>

inductive pool_reachable ::
  "('i, 'k, 'c, 'g, 'd, 'p, 'h, 'a, 'v, 'w) session_ops \<Rightarrow> ('m, 's, 'k) signal_ops \<Rightarrow> 'u stun_ops \<Rightarrow>
    ('id, ('i, 'c, 'd, 'p, 'h, 'a) connection) pool \<Rightarrow> bool" for X Y U where
  new: "pool_reachable X Y U pool_new"
| rounds: "pool_reachable X Y U p \<Longrightarrow> drive_round X Y U inp p = Some (q, Inr ()) \<Longrightarrow>
    adds_fresh {who. hm_get (pool_entries p) who \<noteq> None} (waiting inp) \<Longrightarrow> pool_reachable X Y U q"
| collected: "pool_reachable X Y U p \<Longrightarrow> pool_drive p = (events, q) \<Longrightarrow> pool_reachable X Y U q"

lemma pool_new_inv: "pool_inv pool_new" "roster pool_new = Map.empty"
  using bevy_contract.empty_wf
  by (simp_all add: pool_inv_def pool_new_def listed_def routing_of_def bevy_router_default_def roster_def fun_eq_iff)

lemma pool_reachable_inv: "pool_reachable X Y U p \<Longrightarrow> pool_inv p"
proof (induction rule: pool_reachable.induct)
  case new
  show ?case
    by (rule pool_new_inv)
next
  case (rounds p inp q)
  have "{who. hm_get (pool_entries p) who \<noteq> None} = dom (roster p)"
    by (auto simp: roster_def)
  then have "adds_fresh (dom (roster p)) (waiting inp)"
    using rounds.hyps(3) by simp
  from drive_round_within [OF _ this rounds.hyps(2)] rounds.IH show ?case
    by (simp add: pool_within_def)
qed (auto simp: pool_drive_def)

lemma pool_routes:
  assumes "pool_inv p" "who \<in> set (bevy_route U (pool_router p) addr data)"
  shows "hm_get (pool_entries p) who \<noteq> None"
proof -
  have wf: "tables_wf (pool_router p)" and ok: "listed (routing_of (pool_router p)) (roster p)"
    using assms(1) by (simp_all add: pool_inv_def)
  have "mentions (routing_of (pool_router p)) \<subseteq> dom (roster p)"
    using listedD [OF ok] by (fastforce simp: mentions_def)
  with bevy_contract.lookup_mentions [OF wf] assms(2) have "who \<in> dom (roster p)"
    by blast
  then show ?thesis
    by (auto simp: roster_def)
qed

lemma pool_inv_empty:
  assumes "pool_inv p" "roster p = Map.empty"
  shows "pool_entries p = []" "pool_router p = bevy_router_default"
proof -
  show "pool_entries p = []"
    using assms by (intro hm_empty) (auto simp: pool_inv_def roster_def fun_eq_iff)
  show "pool_router p = bevy_router_default"
    using assms empty_routing [of "pool_router p"] by (simp add: pool_inv_def listed_def bevy_router_default_def)
qed

text \<open>C16: The sessions of a pool are isolated.  After any rounds of the thread, with sessions added under fresh ids: a
  datagram is routed to entries only; an address is owned by an entry whose peer it is, and all its datagrams go to that
  entry alone; and when the last entry is gone the router's tables are as they were at the start.  A round that goes on
  removes every session whose connection failed in it and reports each of them.\<close>

theorem session_pool_isolated:
  assumes "pool_reachable X Y U p"
  shows "(\<forall>addr data. \<forall>who \<in> set (bevy_route U (pool_router p) addr data). hm_get (pool_entries p) who \<noteq> None) \<and>
    (\<forall>addr who. hm_get (by_addr (pool_router p)) addr = Some who \<longrightarrow>
       (\<exists>e. hm_get (pool_entries p) who = Some e \<and> pe_remote_addr e = Some addr) \<and>
       (\<forall>data. bevy_route U (pool_router p) addr data = [who])) \<and>
    (pool_entries p = [] \<longrightarrow> pool_router p = bevy_router_default) \<and>
    (\<forall>inp q. drive_round X Y U inp p = Some (q, Inr ()) \<longrightarrow>
       (\<forall>who \<in> set (pool_failed q). hm_get (pool_entries q) who = None \<and> (who, PoolFailed) \<in> set (pool_events q)))"
proof (intro conjI allI impI ballI)
  have wf: "tables_wf (pool_router p)" and ok: "listed (routing_of (pool_router p)) (roster p)"
    using pool_reachable_inv [OF assms] by (simp_all add: pool_inv_def)
  show "hm_get (pool_entries p) who \<noteq> None" if "who \<in> set (bevy_route U (pool_router p) addr data)" for addr data who
    by (rule pool_routes [OF pool_reachable_inv [OF assms] that])
  show "\<exists>e. hm_get (pool_entries p) who = Some e \<and> pe_remote_addr e = Some addr"
    if "hm_get (by_addr (pool_router p)) addr = Some who" for addr who
    using listedD(1) [OF ok, of addr who] that by (auto simp: routing_of_def roster_def)
  show "bevy_route U (pool_router p) addr data = [who]" if "hm_get (by_addr (pool_router p)) addr = Some who" for addr who data
    using that by (simp add: bevy_route_def)
  show "pool_router p = bevy_router_default" if "pool_entries p = []"
    using pool_inv_empty(2) [OF pool_reachable_inv [OF assms]] that by (simp add: roster_def fun_eq_iff)
next
  fix inp q who
  assume round: "drive_round X Y U inp p = Some (q, Inr ())" and who: "who \<in> set (pool_failed q)"
  from round obtain r where "run_each drive_failed (pool_failed r) r = Some (q, Inr ())"
    by (auto simp: drive_round_def run_bind_eq_Some split: if_splits)
  from failed_result [OF this] who show "hm_get (pool_entries q) who = None" "(who, PoolFailed) \<in> set (pool_events q)"
    by auto
qed

text \<open>The thread never hangs in a round: when the queues of the machines below the sessions are finite, every round
  returns, whatever it received, whatever commands waited and however many outputs the sessions had; and it waits on its
  socket between one and ten milliseconds.\<close>

lemma session_pool_round_returns:
  assumes "queues_finite X"
  shows "(\<exists>r. drive_round X Y U inp p = Some r) \<and> millisecond \<le> read_timeout p now \<and>
    read_timeout p now \<le> COMMAND_POLL_INTERVAL"
proof
  show "\<exists>r. drive_round X Y U inp p = Some r"
    unfolding drive_round_def
    by (auto simp: drive_failed_def assms simp del: split_paired_Ex
        intro!: run_bind_returns run_each_returns drive_packet_returns drive_command_returns drive_entry_returns)
qed (simp add: read_timeout_def COMMAND_POLL_INTERVAL_def millisecond_def)


text \<open>A session whose deadline passed before it was first driven.\<close>

definition overdue_connection ::
  "(sample_agent, bytes, (bytes \<times> socket_addr) list, bool, unit, sample_assoc) connection" where
  "overdue_connection = \<lparr>conn_session = sample_waiting, conn_id = 1, conn_network_id = ''2'', conn_remote_identity = None\<rparr>"

definition overdue_session ::
  "(sample_agent, bytes, (bytes \<times> socket_addr) list, bool, unit, sample_assoc) session" where
  "overdue_session = sample_waiting\<lparr>session_output := [Wait (10 * second), Event Failed],
     session_channels := (session_channels sample_waiting)\<lparr>failed_emitted := True\<rparr>\<rparr>"

lemma overdue_fails:
  "session_handle sample_machines sample_waiting (Timeout (11 * second)) = Some (overdue_session, Inr ())"
proof -
  have ice: "on_ice (ice_handle_timeout (ice_calls sample_machines) (11 * second)) sample_waiting = (sample_waiting, Inr ())"
    by (simp add: on_ice_def ice_handle_timeout_def on_agent_def sample_machines_def sample_ice_def sample_waiting_def sample_session_def)
  have "pump sample_machines (11 * second) sample_waiting = run_ok (fail_when_overdue (11 * second) (emit_ready sample_waiting))"
    by (rule sample_idle_loops) (simp_all add: sample_waiting_def sample_session_def)
  with ice show ?thesis
    by (simp add: session_handle_def handle_timeout_def)
      (simp add: overdue_session_def sample_waiting_def sample_session_def emit_ready_def fail_when_overdue_def fail_def
        establish_deadline_def channels_default_def DEFAULT_ESTABLISH_DEADLINE_def second_def push_wait_def
        session_poll_timeout_def least_instant_def push_output_def ice_poll_timeout_def poll_part_def run_ok_def
        sample_machines_def [THEN arg_cong, of ice_calls] sample_ice_def)
qed


definition overdue_round ::
  "(nat, (sample_agent, bytes, (bytes \<times> socket_addr) list, bool, unit, sample_assoc) connection) round_input" where
  "overdue_round = \<lparr>timeout_set = True, started = 1, received = Some ([1], sample_addr), packet_clock = (\<lambda>_. 1),
     waiting = [CmdAdd 5 overdue_connection ''u''], add_clock = (\<lambda>_. 1), commands_closed = False, driven_at = 11 * second\<rparr>"

lemma overdue_handled:
  "connection_handle sample_machines sample_signals overdue_connection (ConnTimeout (11 * second)) =
     Some (overdue_connection\<lparr>conn_session := overdue_session\<rparr>, Inr ())"
  by (simp add: connection_handle_def on_session_def overdue_connection_def overdue_fails)

lemma overdue_entry:
  assumes "hm_get (pool_entries p) 5 = Some e" "pe_connection e = overdue_connection" "pe_remote_addr e = None"
  shows "\<exists>e'. drive_entry sample_machines sample_signals (11 * second) 5 p =
    Some (p\<lparr>pool_failed := pool_failed p @ [5], pool_entries := hm_insert 5 e' (pool_entries p)\<rparr>, Inr ()) \<and>
    pe_local_ufrag e' = pe_local_ufrag e \<and> pe_remote_addr e' = None"
proof -
  have quiet: "session_remote_addr sample_machines (overdue_session\<lparr>session_output := q\<rparr>) = None"
    "session_remote_addr sample_machines overdue_session = None"
    "session_rtt sample_machines (overdue_session\<lparr>session_output := q\<rparr>) = None" for q
    by (simp_all add: session_remote_addr_def session_rtt_def overdue_session_def sample_waiting_def sample_session_def
        selected_remote_addr_def sample_machines_def sample_ice_def)
  have out: "session_output overdue_session = [Wait (10 * second), Event Failed]"
    by (simp add: overdue_session_def)
  show ?thesis
    using assms
    by (simp add: drive_entry_def overdue_handled claim_selected_def connection_remote_addr_def quiet
        while_poll.simps poll_entry_def connection_poll_def session_poll_def pop_front_def out drive_output_def
        report_rtt_def connection_rtt_def) (rule exI, rule conjI, rule refl, simp)
qed

lemma overdue_dropped:
  "drive_round sample_machines sample_signals sample_stun overdue_round pool_new =
     Some (pool_new\<lparr>pool_failed := [5], pool_events := [(5, PoolFailed)]\<rparr>, Inr ())"
proof -
  let ?e = "\<lparr>pe_connection = overdue_connection, pe_local_ufrag = ''u'', pe_remote_addr = None, pe_wait = 1,
    pe_reported_rtt = None, pe_rtt_reported_at = None\<rparr>"
  let ?p = "pool_new\<lparr>pool_router := bevy_register_ufrag ''u'' 5 bevy_router_default, pool_entries := [(5 :: nat, ?e)]\<rparr>"
  obtain e' where e': "drive_entry sample_machines sample_signals (11 * second) 5 ?p =
      Some (?p\<lparr>pool_failed := pool_failed ?p @ [5], pool_entries := hm_insert 5 e' (pool_entries ?p)\<rparr>, Inr ())"
      "pe_local_ufrag e' = ''u''" "pe_remote_addr e' = None"
    using overdue_entry [of ?p ?e] by (auto simp: hm_get_def)
  have "run_each drive_failed [5] (?p\<lparr>pool_failed := [5], pool_entries := [(5, e')]\<rparr>) =
      Some (pool_new\<lparr>pool_failed := [5], pool_events := [(5, PoolFailed)]\<rparr>, Inr ())"
    using e'(2,3) by (simp add: drive_failed_def drop_entry_def hm_get_def report_def pool_new_def hm_remove_def
        bevy_release_def bevy_register_ufrag_def bevy_router_default_def hm_insert_def forget_id_def hm_retain_def run_ok_def)
  with e'(1) show ?thesis
    by (simp add: drive_round_def overdue_round_def drive_packet_def bevy_route_def is_stun_def sample_stun_def
        drive_command_def hm_insert_def)
      (simp add: pool_new_def bevy_router_default_def)
qed

theorem session_pool_isolated_witness:
  "\<exists>p. pool_reachable sample_machines sample_signals sample_stun (p :: (nat, _) pool) \<and> pool_failed p = [5] \<and>
     pool_router p = bevy_router_default \<and>
     (5, PoolFailed) \<in> set (pool_events p)"
proof -
  let ?p = "pool_new\<lparr>pool_failed := [5 :: nat], pool_events := [(5, PoolFailed)]\<rparr>"
  have new: "pool_reachable sample_machines sample_signals sample_stun (pool_new :: (nat, _) pool)"
    by (rule pool_reachable.new)
  have reach: "pool_reachable sample_machines sample_signals sample_stun ?p"
    by (rule pool_reachable.rounds [OF new overdue_dropped])
      (simp add: overdue_round_def pool_new_def)
  have "pool_router ?p = bevy_router_default" "(5, PoolFailed) \<in> set (pool_events ?p)"
    using session_pool_isolated [OF reach] session_pool_isolated [OF new] overdue_dropped by (simp_all add: pool_new_def)
  with reach show ?thesis
    by (intro exI [of _ ?p]) (simp add: pool_new_def)
qed

lemma session_pool_round_returns_witness:
  "(\<exists>r. drive_round sample_machines sample_signals sample_stun overdue_round pool_new = Some r) \<and>
   queues_finite sample_machines \<and> read_timeout (pool_new :: (nat, nat) pool) 0 = COMMAND_POLL_INTERVAL"
proof -
  have "read_timeout (pool_new :: (nat, nat) pool) 0 = COMMAND_POLL_INTERVAL"
    by (simp add: read_timeout_def next_wait_def pool_new_def MAX_IDLE_def COMMAND_POLL_INTERVAL_def millisecond_def second_def)
  with session_pool_round_returns [OF sample_queues_finite, of sample_signals sample_stun overdue_round pool_new]
    sample_queues_finite show ?thesis
    by blast
qed

end
