(* ===== verification/Lan_Server.thy ===== *)
theory Lan_Server
  imports Lan_Signaler Server_Sessions Session_Pool
begin

text \<open>
  \<open>bevy-nethernet/src/server.rs\<close>: the LAN server of the Bevy crate, polled once per frame.  It composes the LAN signaler,
  the admission of offers, the limit on pending offers and the session pool.  The pool runs on its own thread: the server
  sees it as the commands it puts in a channel and the events it finds in another, so the commands are kept in the state
  and the events of a frame are an argument of \<open>update\<close>.  The datagrams of a frame, the clocks and the random credentials
  of an answered offer are arguments too.  A result \<open>Inl ()\<close> is a panic of the identity code, \<open>None\<close> a session that never
  returns.
\<close>

definition MAX_DATAGRAMS_PER_TICK :: nat where "MAX_DATAGRAMS_PER_TICK = 1024"

record ('sk, 'vk, 'conn) nether_server =
  srv_signaler :: lan_signaler
  srv_commands :: "(nether_session_id, 'conn) pool_command list"
  srv_local_addr :: socket_addr
  srv_advertised :: "ip_addr list"
  srv_identity :: "('sk, 'vk) server_identity option"
  srv_token_trust :: "token_trust option"
  srv_infer_peer_candidates :: bool
  srv_timeouts :: timeouts
  srv_pending_limits :: pending_limits
  srv_sessions :: "(nether_session_id, session_entry) hash_map"
  srv_received :: "(nether_session_id \<times> bytes) list"
  srv_received_unreliable :: "(nether_session_id \<times> bytes) list"
  srv_events :: "nether_server_event list"
  srv_sent :: "(bytes \<times> socket_addr) list"

definition nether_server_new ::
  "u64 \<Rightarrow> lan_signaler_config \<Rightarrow> socket_addr \<Rightarrow> ip_addr list \<Rightarrow> ('sk, 'vk, 'conn) nether_server" where
  "nether_server_new nid config addr advertised =
    \<lparr>srv_signaler = lan_signaler_new nid config, srv_commands = [], srv_local_addr = addr, srv_advertised = advertised,
     srv_identity = None, srv_token_trust = None, srv_infer_peer_candidates = True, srv_timeouts = timeouts_default,
     srv_pending_limits = pending_limits_default, srv_sessions = [], srv_received = [], srv_received_unreliable = [],
     srv_events = [], srv_sent = []\<rparr>"

definition srv_set_identity :: "('sk, 'vk) server_identity \<Rightarrow> ('sk, 'vk, 'conn) nether_server \<Rightarrow> ('sk, 'vk, 'conn) nether_server" where
  "srv_set_identity ident s = s\<lparr>srv_identity := Some ident\<rparr>"

definition srv_set_token_trust :: "token_trust option \<Rightarrow> ('sk, 'vk, 'conn) nether_server \<Rightarrow> ('sk, 'vk, 'conn) nether_server" where
  "srv_set_token_trust trust s = s\<lparr>srv_token_trust := trust\<rparr>"

definition srv_set_timeouts :: "timeouts \<Rightarrow> ('sk, 'vk, 'conn) nether_server \<Rightarrow> ('sk, 'vk, 'conn) nether_server" where
  "srv_set_timeouts t s = s\<lparr>srv_timeouts := t\<rparr>"

definition srv_set_infer_peer_candidates :: "bool \<Rightarrow> ('sk, 'vk, 'conn) nether_server \<Rightarrow> ('sk, 'vk, 'conn) nether_server" where
  "srv_set_infer_peer_candidates infer s = s\<lparr>srv_infer_peer_candidates := infer\<rparr>"

definition srv_set_pending_limits :: "pending_limits \<Rightarrow> ('sk, 'vk, 'conn) nether_server \<Rightarrow> ('sk, 'vk, 'conn) nether_server" where
  "srv_set_pending_limits limits s = s\<lparr>srv_pending_limits := limits\<rparr>"

text \<open>Every call of the signaler drops its error.\<close>

definition signaler_takes ::
  "discovery_prims \<Rightarrow> lan_signaler_input \<Rightarrow> ('sk, 'vk, 'conn) nether_server \<Rightarrow> ('sk, 'vk, 'conn) nether_server" where
  "signaler_takes P msg s = s\<lparr>srv_signaler := fst (lan_handle P (srv_signaler s) msg)\<rparr>"

definition srv_set_server_data :: "discovery_prims \<Rightarrow> server_data \<Rightarrow> ('sk, 'vk, 'conn) nether_server \<Rightarrow> ('sk, 'vk, 'conn) nether_server" where
  "srv_set_server_data P data s = signaler_takes P (InSetServerData data) s"

definition srv_ready_sessions :: "('sk, 'vk, 'conn) nether_server \<Rightarrow> nether_session_id list" where
  "srv_ready_sessions s = map fst (filter (\<lambda>(_, e). se_ready e) (srv_sessions s))"

definition srv_player :: "nether_session_id \<Rightarrow> ('sk, 'vk, 'conn) nether_server \<Rightarrow> player_info option" where
  "srv_player who s = opt_bind (hm_get (srv_sessions s) who) se_player"

definition srv_rtt :: "nether_session_id \<Rightarrow> ('sk, 'vk, 'conn) nether_server \<Rightarrow> duration option" where
  "srv_rtt who s = opt_bind (hm_get (srv_sessions s) who) se_rtt"

definition srv_remote_addr :: "nether_session_id \<Rightarrow> ('sk, 'vk, 'conn) nether_server \<Rightarrow> socket_addr option" where
  "srv_remote_addr who s = opt_bind (hm_get (srv_sessions s) who) se_remote_addr"

definition pool_takes ::
  "(nether_session_id, 'conn) pool_command \<Rightarrow> ('sk, 'vk, 'conn) nether_server \<Rightarrow> ('sk, 'vk, 'conn) nether_server" where
  "pool_takes cmd s = s\<lparr>srv_commands := srv_commands s @ [cmd]\<rparr>"

definition srv_send_on ::
  "nether_session_id \<Rightarrow> channel \<Rightarrow> bytes \<Rightarrow> ('sk, 'vk, 'conn) nether_server \<Rightarrow>
    (('sk, 'vk, 'conn) nether_server, protocol_error, unit) step" where
  "srv_send_on who ch data s =
     (if \<not> hm_contains (srv_sessions s) who then (s, Inl (Other ''unknown session''))
      else st_ok (pool_takes (CmdSend who ch data) s))"

definition srv_recv ::
  "('sk, 'vk, 'conn) nether_server \<Rightarrow> ((nether_session_id \<times> bytes) \<times> ('sk, 'vk, 'conn) nether_server) option" where
  "srv_recv = pop_front srv_received (\<lambda>q s. s\<lparr>srv_received := q\<rparr>)"

definition srv_recv_unreliable ::
  "('sk, 'vk, 'conn) nether_server \<Rightarrow> ((nether_session_id \<times> bytes) \<times> ('sk, 'vk, 'conn) nether_server) option" where
  "srv_recv_unreliable = pop_front srv_received_unreliable (\<lambda>q s. s\<lparr>srv_received_unreliable := q\<rparr>)"

definition srv_disconnect :: "nether_session_id \<Rightarrow> ('sk, 'vk, 'conn) nether_server \<Rightarrow> ('sk, 'vk, 'conn) nether_server" where
  "srv_disconnect who s =
     (if hm_get (srv_sessions s) who = None then s
      else (pool_takes (CmdRemove who) (s\<lparr>srv_sessions := hm_remove who (srv_sessions s)\<rparr>))
        \<lparr>srv_events := srv_events s @ [SessionDisconnected who]\<rparr>)"

definition srv_next_event ::
  "('sk, 'vk, 'conn) nether_server \<Rightarrow> (nether_server_event \<times> ('sk, 'vk, 'conn) nether_server) option" where
  "srv_next_event = pop_front srv_events (\<lambda>q s. s\<lparr>srv_events := q\<rparr>)"

section \<open>Signals\<close>

definition srv_policy :: "('sk, 'vk, 'conn) nether_server \<Rightarrow> ('sk, 'vk) offer_policy" where
  "srv_policy s =
     (let policy = with_establish_deadline (establish (srv_timeouts s))
            (with_inferred_peer_candidates (srv_infer_peer_candidates s) (policy_new Trickle));
          policy = (case srv_identity s of Some ident \<Rightarrow> with_identity ident policy | None \<Rightarrow> policy)
      in case srv_token_trust s of Some trust \<Rightarrow> with_token_trust trust policy | None \<Rightarrow> policy)"

definition srv_handle_offer ::
  "discovery_prims \<Rightarrow> ('sk, 'vk, 'sig, 'rsa) identity_ops \<Rightarrow> ('i, 'k, 'c, 'g, 'd, 'p, 'h, 'a, 'v, 'w) session_ops \<Rightarrow>
    ('m, 's, 'k) signal_ops \<Rightarrow> (nether_session_id \<Rightarrow> offer_draw) \<Rightarrow> signal \<Rightarrow> instant \<Rightarrow>
    ('sk, 'vk, ('i, 'c, 'd, 'p, 'h, 'a) connection) nether_server \<Rightarrow>
    (('sk, 'vk, ('i, 'c, 'd, 'p, 'h, 'a) connection) nether_server, unit, unit) run" where
  "srv_handle_offer P I X Y draw offer now s =
     (let who = session_of offer;
          refuse = (\<lambda>code s. run_ok (signaler_takes P (InSignal (signal_error (connection_id offer) code (network_id offer)) now) s)) in
      if hm_contains (srv_sessions s) who then run_ok s
      else if \<not> admits_offer (pending_ids (srv_sessions s)) (network_id offer) (srv_pending_limits s)
      then refuse IncomingConnectionIgnored s
      else
        (let signaled_from = opt_bind (parse_u64 (network_id offer)) (lan_address (srv_signaler s)) in
         case admit I Y (srv_policy s) offer signaled_from (drawn_wall (draw who)) of
           (trust, Inl AdmissionPanics) \<Rightarrow> Some (s\<lparr>srv_token_trust := trust\<rparr>, Inl ())
         | (trust, Inl (Refused e)) \<Rightarrow> refuse (admission_code e) (s\<lparr>srv_token_trust := trust\<rparr>)
         | (trust, Inr adm) \<Rightarrow>
             (let s = s\<lparr>srv_token_trust := trust\<rparr> in
              case answer_advertising I X Y (drawn_credentials (draw who)) (drawn_clock (draw who)) adm
                  (srv_local_addr s) (srv_advertised s) now of
                None \<Rightarrow> None
              | Some (Inl AdmissionPanics) \<Rightarrow> Some (s, Inl ())
              | Some (Inl (Refused e)) \<Rightarrow> refuse (admission_code e) s
              | Some (Inr answered) \<Rightarrow>
                  (let s = fold (\<lambda>sgl. signaler_takes P (InSignal sgl now)) (ans_signals answered) s;
                       s = pool_takes (CmdAdd who (ans_connection answered) (ans_local_ufrag answered)) s in
                   run_ok (s\<lparr>srv_sessions := hm_insert who
                     \<lparr>se_ready = False, se_created = now, se_remote_addr = None, se_rtt = None, se_player = ans_player answered\<rparr>
                     (srv_sessions s)\<rparr>)))))"

definition srv_handle_signal ::
  "discovery_prims \<Rightarrow> ('sk, 'vk, 'sig, 'rsa) identity_ops \<Rightarrow> ('i, 'k, 'c, 'g, 'd, 'p, 'h, 'a, 'v, 'w) session_ops \<Rightarrow>
    ('m, 's, 'k) signal_ops \<Rightarrow> (nether_session_id \<Rightarrow> offer_draw) \<Rightarrow> signal \<Rightarrow> instant \<Rightarrow>
    ('sk, 'vk, ('i, 'c, 'd, 'p, 'h, 'a) connection) nether_server \<Rightarrow>
    (('sk, 'vk, ('i, 'c, 'd, 'p, 'h, 'a) connection) nether_server, unit, unit) run" where
  "srv_handle_signal P I X Y draw sgl now s =
     (if sig_type sgl = Offer then srv_handle_offer P I X Y draw sgl now s
      else if hm_contains (srv_sessions s) (session_of sgl) then run_ok (pool_takes (CmdSignal (session_of sgl) sgl) s)
      else run_ok s)"


section \<open>The frame\<close>

definition serve_output ::
  "discovery_prims \<Rightarrow> ('sk, 'vk, 'sig, 'rsa) identity_ops \<Rightarrow> ('i, 'k, 'c, 'g, 'd, 'p, 'h, 'a, 'v, 'w) session_ops \<Rightarrow>
    ('m, 's, 'k) signal_ops \<Rightarrow> (nether_session_id \<Rightarrow> offer_draw) \<Rightarrow> instant \<Rightarrow> lan_signaler_output \<Rightarrow>
    ('sk, 'vk, ('i, 'c, 'd, 'p, 'h, 'a) connection) nether_server \<Rightarrow>
    (('sk, 'vk, ('i, 'c, 'd, 'p, 'h, 'a) connection) nether_server, unit, unit) run" where
  "serve_output P I X Y draw now out s =
     (case out of
        OutDatagram buf addr \<Rightarrow> run_ok (s\<lparr>srv_sent := srv_sent s @ [(buf, addr)]\<rparr>)
      | OutSignal sgl \<Rightarrow> srv_handle_signal P I X Y draw sgl now s
      | OutServerDiscovered _ _ \<Rightarrow> run_ok s
      | OutWait _ \<Rightarrow> run_ok s)"

text \<open>The loop polls the signaler that its own body gives more to do.\<close>

partial_function (option) serve_outputs ::
  "discovery_prims \<Rightarrow> ('sk, 'vk, 'sig, 'rsa) identity_ops \<Rightarrow> ('i, 'k, 'c, 'g, 'd, 'p, 'h, 'a, 'v, 'w) session_ops \<Rightarrow>
    ('m, 's, 'k) signal_ops \<Rightarrow> (nether_session_id \<Rightarrow> offer_draw) \<Rightarrow> instant \<Rightarrow>
    ('sk, 'vk, ('i, 'c, 'd, 'p, 'h, 'a) connection) nether_server \<Rightarrow>
    (('sk, 'vk, ('i, 'c, 'd, 'p, 'h, 'a) connection) nether_server, unit, unit) run" where
  "serve_outputs P I X Y draw now s =
     (case lan_poll (srv_signaler s) of
        None \<Rightarrow> Some (s, Inr ())
      | Some (out, sg) \<Rightarrow>
          (case serve_output P I X Y draw now out (s\<lparr>srv_signaler := sg\<rparr>) of
             None \<Rightarrow> None
           | Some (s', Inl e) \<Rightarrow> Some (s', Inl e)
           | Some (s', Inr _) \<Rightarrow> serve_outputs P I X Y draw now s'))"

declare serve_outputs.simps [code]

text \<open>One event of the pool; the ids that failed are collected beside the server.\<close>

definition srv_pool_event ::
  "nether_session_id \<times> connection_event \<Rightarrow> ('sk, 'vk, 'conn) nether_server \<times> nether_session_id list \<Rightarrow>
    ('sk, 'vk, 'conn) nether_server \<times> nether_session_id list" where
  "srv_pool_event ev st =
     (case (ev, st) of ((who, ev), (s, failed)) \<Rightarrow>
      (case hm_get (srv_sessions s) who of
         None \<Rightarrow> (s, failed)
       | Some e \<Rightarrow>
           (case ev of
              PoolReady addr \<Rightarrow>
                if \<not> se_ready e
                then (s\<lparr>srv_sessions := hm_insert who (e\<lparr>se_ready := True, se_remote_addr := addr\<rparr>) (srv_sessions s),
                        srv_events := srv_events s @ [SessionConnected who]\<rparr>, failed)
                else (s, failed)
            | PoolRtt rtt \<Rightarrow> (s\<lparr>srv_sessions := hm_insert who (e\<lparr>se_rtt := Some rtt\<rparr>) (srv_sessions s)\<rparr>, failed)
            | PoolMessage Reliable data \<Rightarrow> (s\<lparr>srv_received := srv_received s @ [(who, data)]\<rparr>, failed)
            | PoolMessage Unreliable data \<Rightarrow> (s\<lparr>srv_received_unreliable := srv_received_unreliable s @ [(who, data)]\<rparr>, failed)
            | PoolFailed \<Rightarrow> (s, failed @ [who]))))"

text \<open>\<open>retain\<close> with the removals it sends to the pool, in the order of the entries.\<close>

definition expire_unestablished :: "instant \<Rightarrow> ('sk, 'vk, 'conn) nether_server \<Rightarrow> ('sk, 'vk, 'conn) nether_server" where
  "expire_unestablished now s =
     (let keep = (\<lambda>_ e. se_ready e \<or> now - se_created e < establish (srv_timeouts s)) in
      s\<lparr>srv_sessions := hm_retain keep (srv_sessions s),
        srv_commands := srv_commands s @ map (\<lambda>(who, _). CmdRemove who) (filter (\<lambda>(who, e). \<not> keep who e) (srv_sessions s))\<rparr>)"

record frame_input =
  frame_now :: instant
  frame_datagrams :: "(bytes \<times> socket_addr) list"
  frame_draw :: "nether_session_id \<Rightarrow> offer_draw"
  frame_events :: "(nether_session_id \<times> connection_event) list"

definition frame_signals ::
  "discovery_prims \<Rightarrow> frame_input \<Rightarrow> ('sk, 'vk, 'conn) nether_server \<Rightarrow> ('sk, 'vk, 'conn) nether_server" where
  "frame_signals P f s =
     signaler_takes P (InUpdate (frame_now f))
       (fold (\<lambda>(datagram, addr). signaler_takes P (InDatagram datagram (canonical addr) (frame_now f)))
          (take MAX_DATAGRAMS_PER_TICK (frame_datagrams f)) s)"

definition frame_pool :: "frame_input \<Rightarrow> ('sk, 'vk, 'conn) nether_server \<Rightarrow> ('sk, 'vk, 'conn) nether_server" where
  "frame_pool f s =
     (case fold srv_pool_event (frame_events f) (s, []) of
        (s, failed) \<Rightarrow> expire_unestablished (frame_now f) (fold srv_disconnect failed s))"

definition srv_update ::
  "discovery_prims \<Rightarrow> ('sk, 'vk, 'sig, 'rsa) identity_ops \<Rightarrow> ('i, 'k, 'c, 'g, 'd, 'p, 'h, 'a, 'v, 'w) session_ops \<Rightarrow>
    ('m, 's, 'k) signal_ops \<Rightarrow> frame_input \<Rightarrow> ('sk, 'vk, ('i, 'c, 'd, 'p, 'h, 'a) connection) nether_server \<Rightarrow>
    (('sk, 'vk, ('i, 'c, 'd, 'p, 'h, 'a) connection) nether_server, unit, unit) run" where
  "srv_update P I X Y f s =
     run_bind (serve_outputs P I X Y (frame_draw f) (frame_now f) (frame_signals P f s)) (\<lambda>_ s. run_ok (frame_pool f s))"

section \<open>What a step may change\<close>

definition sessions_ok ::
  "bool \<Rightarrow> pending_limits \<Rightarrow> nether_server_event list \<Rightarrow> nether_session_id set \<Rightarrow>
    (nether_session_id, session_entry) hash_map \<Rightarrow> (nether_session_id, 'conn) pool_command list \<Rightarrow> bool" where
  "sessions_ok trusting limits log D m cmds \<longleftrightarrow>
     entries_ok trusting limits log m \<and> adds_fresh D cmds \<and> cmd_ids D cmds \<subseteq> {who. hm_get m who \<noteq> None}"

definition server_inv ::
  "bool \<Rightarrow> pending_limits \<Rightarrow> nether_server_event list \<Rightarrow> nether_session_id set \<Rightarrow> ('sk, 'vk, 'conn) nether_server \<Rightarrow> bool" where
  "server_inv trusting limits polled D s \<longleftrightarrow>
     (srv_token_trust s \<noteq> None) = trusting \<and> srv_pending_limits s = limits \<and>
     sessions_ok trusting limits (polled @ srv_events s) D (srv_sessions s) (srv_commands s)"


section \<open>Lemmas\<close>

text \<open>What each change of the sessions keeps.\<close>

lemma ok_added:
  assumes ok: "sessions_ok trusting limits log D m cmds" and new: "hm_get m who = None"
    and admits: "admits_offer (pending_ids m) (sid_network_id who) limits"
    and e: "\<not> se_ready e" "trusting \<longrightarrow> se_player e \<noteq> None"
  shows "sessions_ok trusting limits log D (hm_insert who e m) (cmds @ [CmdAdd who c u])"
proof -
  have "who \<notin> cmd_ids D cmds"
    using ok new by (auto simp: sessions_ok_def)
  then show ?thesis
    using ok entries_added [OF _ new admits e] by (auto simp: sessions_ok_def adds_fresh_append cmd_ids_append hm_get_insert)
qed

lemma ok_removed:
  assumes "sessions_ok trusting limits log D m cmds"
  shows "sessions_ok trusting limits (log @ [SessionDisconnected who]) D (hm_remove who m) (cmds @ [CmdRemove who])"
  using assms entries_removed [of trusting limits log m who]
  by (auto simp: sessions_ok_def adds_fresh_append cmd_ids_append hm_get_remove split: if_splits)

lemma ok_connected:
  assumes ok: "sessions_ok trusting limits log D m cmds" and e: "hm_get m who = Some e" "\<not> se_ready e"
    and e': "se_ready e'" "se_player e' = se_player e"
  shows "sessions_ok trusting limits (log @ [SessionConnected who]) D (hm_insert who e' m) cmds"
  using ok e entries_connected [OF _ e e'] by (auto simp: sessions_ok_def hm_get_insert)

lemma ok_updated:
  assumes ok: "sessions_ok trusting limits log D m cmds" and e: "hm_get m who = Some e"
    and e': "se_ready e' = se_ready e" "se_player e' = se_player e"
  shows "sessions_ok trusting limits log D (hm_insert who e' m) cmds"
  using ok e entries_updated [OF _ e e'] by (auto simp: sessions_ok_def hm_get_insert)

lemma ok_told:
  assumes "sessions_ok trusting limits log D m cmds"
  shows "sessions_ok trusting limits log D m (cmds @ [CmdSignal who sgl])"
    and "sessions_ok trusting limits log D m (cmds @ [CmdSend who ch data])"
  using assms by (simp_all add: sessions_ok_def adds_fresh_append cmd_ids_append)

lemma cmd_ids_removes: "cmd_ids D (map (\<lambda>(who, _). CmdRemove who) xs) = D - fst ` set xs"
  by (induction xs arbitrary: D) (auto simp: rev_image_eqI)

lemma adds_fresh_removes: "adds_fresh D (map (\<lambda>(who, _). CmdRemove who) xs)"
  by (induction xs arbitrary: D) auto

lemma ok_retained:
  assumes ok: "sessions_ok trusting limits log D m cmds" and ready: "\<And>who e. se_ready e \<Longrightarrow> keep who e"
  shows "sessions_ok trusting limits log D (hm_retain keep m)
    (cmds @ map (\<lambda>(who, _). CmdRemove who) (filter (\<lambda>(who, e). \<not> keep who e) m))"
proof -
  have entries: "entries_ok trusting limits log m" and wf: "hm_wf m"
    using ok by (simp_all add: sessions_ok_def entries_ok_def)
  have "entries_ok trusting limits log (hm_retain keep m)"
    by (rule entries_retained [OF entries]) (rule ready)
  moreover have "keep who e" if "hm_get m who = Some e" "who \<notin> fst ` set (filter (\<lambda>(who, e). \<not> keep who e) m)" for who e
    using that hm_get_mem [OF wf, of who e] by force
  ultimately show ?thesis
    using ok by (fastforce simp: sessions_ok_def adds_fresh_append cmd_ids_append cmd_ids_removes adds_fresh_removes
        hm_get_retain [OF wf] split: option.splits)
qed


section \<open>Every operation keeps the invariant\<close>

lemma signaler_takes_inv [simp]: "server_inv trusting limits polled D (signaler_takes P msg s) = server_inv trusting limits polled D s"
  by (simp add: signaler_takes_def server_inv_def)

lemma fold_signaler_inv [simp]:
  "server_inv trusting limits polled D (fold (\<lambda>x. signaler_takes P (f x)) xs s) = server_inv trusting limits polled D s"
  by (induction xs arbitrary: s) simp_all

lemma disconnect_inv: "server_inv trusting limits polled D s \<Longrightarrow> server_inv trusting limits polled D (srv_disconnect who s)"
  using ok_removed [of trusting limits "polled @ srv_events s" D "srv_sessions s" "srv_commands s" who]
  by (simp add: srv_disconnect_def server_inv_def pool_takes_def)

lemma send_on_inv:
  "server_inv trusting limits polled D s \<Longrightarrow> server_inv trusting limits polled D (fst (srv_send_on who ch data s))"
  by (simp add: srv_send_on_def server_inv_def pool_takes_def st_ok_def ok_told)

lemma pool_event_inv:
  assumes "server_inv trusting limits polled D (fst st)"
  shows "server_inv trusting limits polled D (fst (srv_pool_event ev st))"
proof (cases ev; cases st)
  fix who event s failed
  assume ev: "ev = (who, event)" and st: "st = (s, failed)"
  show ?thesis
  proof (cases "hm_get (srv_sessions s) who")
    case (Some e)
    have ok: "sessions_ok trusting limits (polled @ srv_events s) D (srv_sessions s) (srv_commands s)"
      and conf: "(srv_token_trust s \<noteq> None) = trusting" "srv_pending_limits s = limits"
      using assms st by (simp_all add: server_inv_def)
    show ?thesis
    proof (cases event)
      case (PoolReady addr)
      with ok_connected [OF ok Some] Some conf ok show ?thesis
        by (simp add: srv_pool_event_def ev st server_inv_def)
    next
      case (PoolRtt rtt)
      with ok_updated [OF ok Some] Some conf show ?thesis
        by (simp add: srv_pool_event_def ev st server_inv_def)
    next
      case (PoolMessage ch data)
      with Some conf ok show ?thesis
        by (cases ch) (simp_all add: srv_pool_event_def ev st server_inv_def)
    qed (use Some conf ok in \<open>simp add: srv_pool_event_def ev st server_inv_def\<close>)
  qed (use assms in \<open>simp add: srv_pool_event_def ev st\<close>)
qed

lemma frame_pool_inv:
  assumes "server_inv trusting limits polled D s"
  shows "server_inv trusting limits polled D (frame_pool f s)"
proof -
  have events: "server_inv trusting limits polled D (fst (fold srv_pool_event evs st))"
    if "server_inv trusting limits polled D (fst st)" for evs st
    using that by (induction evs arbitrary: st) (simp_all add: pool_event_inv)
  have failed: "server_inv trusting limits polled D (fold srv_disconnect whos t)"
    if "server_inv trusting limits polled D t" for whos t
    using that by (induction whos arbitrary: t) (simp_all add: disconnect_inv)
  have expired: "server_inv trusting limits polled D (expire_unestablished now t)"
    if "server_inv trusting limits polled D t" for now t
    using that ok_retained [of trusting limits "polled @ srv_events t" D "srv_sessions t" "srv_commands t"
        "\<lambda>_ e. se_ready e \<or> now - se_created e < establish (srv_timeouts t)"]
    by (simp add: expire_unestablished_def server_inv_def Let_def)
  obtain t whos where fold: "fold srv_pool_event (frame_events f) (s, []) = (t, whos)"
    by (cases "fold srv_pool_event (frame_events f) (s, [])")
  with events [of "(s, [])" "frame_events f"] assms have "server_inv trusting limits polled D t"
    by simp
  from expired [OF failed [OF this]] fold show ?thesis
    by (simp add: frame_pool_def)
qed

text \<open>Admission keeps whether there is a trust, and with one an admitted offer has a player.\<close>

lemma policy_trust [simp]: "policy_token_trust (srv_policy s) = srv_token_trust s"
  by (simp add: srv_policy_def Let_def with_token_trust_def with_identity_def with_establish_deadline_def
      with_inferred_peer_candidates_def policy_new_def split: option.split)

lemma admit_trust: "admit I Y policy offer addr wall = (trust, r) \<Longrightarrow> (trust = None) = (policy_token_trust policy = None)"
  by (auto simp: admit_def Let_def split: sum.splits prod.splits option.splits)

lemma admit_player:
  "admit I Y policy offer addr wall = (trust, Inr adm) \<Longrightarrow> policy_token_trust policy \<noteq> None \<Longrightarrow> adm_player adm \<noteq> None"
  by (auto elim!: admit_ok split: option.splits)

lemma answered_player: "answer_advertising I X Y drawn clock adm addr advertised now = Some (Inr answered) \<Longrightarrow> ans_player answered = adm_player adm"
  by (auto simp: answer_advertising_def Let_def split: sum.splits prod.splits option.splits)

lemma fold_signaler_same [simp]:
  "srv_sessions (fold (\<lambda>x. signaler_takes P (f x)) xs s) = srv_sessions s"
  "srv_commands (fold (\<lambda>x. signaler_takes P (f x)) xs s) = srv_commands s"
  "srv_events (fold (\<lambda>x. signaler_takes P (f x)) xs s) = srv_events s"
  "srv_token_trust (fold (\<lambda>x. signaler_takes P (f x)) xs s) = srv_token_trust s"
  "srv_pending_limits (fold (\<lambda>x. signaler_takes P (f x)) xs s) = srv_pending_limits s"
  by (induction xs arbitrary: s) (simp_all add: signaler_takes_def)


lemma handle_offer_inv:
  assumes "server_inv trusting limits polled D s"
  shows "keeps (server_inv trusting limits polled D) (srv_handle_offer P I X Y draw offer now s)"
proof (cases "hm_contains (srv_sessions s) (session_of offer) \<or>
    \<not> admits_offer (pending_ids (srv_sessions s)) (network_id offer) (srv_pending_limits s)")
  case False
  then have new: "hm_get (srv_sessions s) (session_of offer) = None"
    and room: "admits_offer (pending_ids (srv_sessions s)) (sid_network_id (session_of offer)) (srv_pending_limits s)"
    by (simp_all add: hm_contains_get session_of_def)
  obtain trust r where adm: "admit I Y (srv_policy s) offer (opt_bind (parse_u64 (network_id offer)) (lan_address (srv_signaler s)))
      (drawn_wall (draw (session_of offer))) = (trust, r)"
    by fastforce
  note t = admit_trust [OF adm, simplified]
  have kept: "server_inv trusting limits polled D (s\<lparr>srv_token_trust := trust\<rparr>)"
    using assms t by (simp add: server_inv_def)
  show ?thesis
  proof (cases r)
    case (Inl e)
    with adm kept False show ?thesis
      by (cases e) (simp_all add: srv_handle_offer_def Let_def)
  next
    case (Inr a)
    have player: "trusting \<longrightarrow> adm_player a \<noteq> None"
      using admit_player [OF adm [unfolded Inr]] assms by (simp add: server_inv_def)
    let ?ans = "answer_advertising I X Y (drawn_credentials (draw (session_of offer))) (drawn_clock (draw (session_of offer))) a
      (srv_local_addr s) (srv_advertised s) now"
    show ?thesis
    proof (cases "\<exists>answered. ?ans = Some (Inr answered)")
      case True
      then obtain answered where ans: "?ans = Some (Inr answered)"
        by blast
      have "sessions_ok trusting limits (polled @ srv_events s) D (srv_sessions s) (srv_commands s)"
        "srv_pending_limits s = limits"
        using assms by (simp_all add: server_inv_def)
      from ok_added [OF this(1) new room [unfolded this(2)]] answered_player [OF ans] player
      show ?thesis
        using adm Inr ans False assms t by (simp add: srv_handle_offer_def Let_def pool_takes_def server_inv_def)
    next
      case no: False
      show ?thesis
      proof (cases ?ans)
        case (Some x)
        with no obtain e where "?ans = Some (Inl e)"
          by (cases x) auto
        with adm Inr kept False show ?thesis
          by (cases e) (simp_all add: srv_handle_offer_def Let_def)
      qed (use adm Inr False in \<open>simp add: srv_handle_offer_def Let_def\<close>)
    qed
  qed
qed (use assms in \<open>auto simp: srv_handle_offer_def Let_def\<close>)

lemma srv_signal_inv:
  assumes "server_inv trusting limits polled D s"
  shows "keeps (server_inv trusting limits polled D) (srv_handle_signal P I X Y draw sgl now s)"
proof -
  have "server_inv trusting limits polled D (pool_takes (CmdSignal who sgl) s)" for who
    using assms by (simp add: server_inv_def pool_takes_def ok_told)
  with assms show ?thesis
    by (simp add: srv_handle_signal_def handle_offer_inv)
qed

lemma serve_output_inv:
  assumes "server_inv trusting limits polled D s"
  shows "keeps (server_inv trusting limits polled D) (serve_output P I X Y draw now out s)"
  using assms srv_signal_inv [OF assms, of P I X Y draw _ now]
  by (cases out) (simp_all add: serve_output_def server_inv_def)

lemma polled_signaler_inv [simp]:
  "server_inv trusting limits polled D (s\<lparr>srv_signaler := sg\<rparr>) = server_inv trusting limits polled D s"
  by (simp add: server_inv_def)

lemma serve_outputs_keeps:
  assumes step: "\<And>out t. Q t \<Longrightarrow> keeps Q (serve_output P I X Y draw now out t)"
    and poll: "\<And>sg t. Q t \<Longrightarrow> Q (t\<lparr>srv_signaler := sg\<rparr>)"
    and start: "Q s"
  shows "keeps Q (serve_outputs P I X Y draw now s)"
  unfolding keeps_def
proof (intro allI impI)
  fix u x
  assume "serve_outputs P I X Y draw now s = Some (u, x)"
  then have "fst ((((((P, I), X), Y), draw), now), s) = (((((P, I), X), Y), draw), now) \<longrightarrow>
      Q (snd ((((((P, I), X), Y), draw), now), s)) \<longrightarrow> Q (fst (u, x))"
  proof (rule serve_outputs.raw_induct [of "\<lambda>a r. fst a = (((((P, I), X), Y), draw), now) \<longrightarrow> Q (snd a) \<longrightarrow> Q (fst r)", rotated])
    fix loop P' I' X' Y' draw' now' t r
    assume IH: "\<And>P' I' X' Y' draw' now' t r. loop P' I' X' Y' draw' now' t = Some r \<Longrightarrow>
        fst ((((((P', I'), X'), Y'), draw'), now'), t) = (((((P, I), X), Y), draw), now) \<longrightarrow>
        Q (snd ((((((P', I'), X'), Y'), draw'), now'), t)) \<longrightarrow> Q (fst r)"
      and body: "(case lan_poll (srv_signaler t) of None \<Rightarrow> Some (t, Inr ())
        | Some (out, sg) \<Rightarrow>
            (case serve_output P' I' X' Y' draw' now' out (t\<lparr>srv_signaler := sg\<rparr>) of
               None \<Rightarrow> None
             | Some (s', Inl e) \<Rightarrow> Some (s', Inl e)
             | Some (s', Inr _) \<Rightarrow> loop P' I' X' Y' draw' now' s')) = Some r"
    show "fst ((((((P', I'), X'), Y'), draw'), now'), t) = (((((P, I), X), Y), draw), now) \<longrightarrow>
        Q (snd ((((((P', I'), X'), Y'), draw'), now'), t)) \<longrightarrow> Q (fst r)"
    proof (intro impI)
      assume "fst ((((((P', I'), X'), Y'), draw'), now'), t) = (((((P, I), X), Y), draw), now)"
      then have same: "P' = P" "I' = I" "X' = X" "Y' = Y" "draw' = draw" "now' = now"
        by simp_all
      assume "Q (snd ((((((P', I'), X'), Y'), draw'), now'), t))"
      then have t: "Q t"
        by simp
      have loop: "loop P I X Y draw now v = Some r \<Longrightarrow> Q v \<Longrightarrow> Q (fst r)" for v
        using IH [of P I X Y draw now v r] by simp
      show "Q (fst r)"
      proof (cases "lan_poll (srv_signaler t)")
        case None
        with body t show ?thesis
          by auto
      next
        case (Some os)
        obtain out sg where os: "os = (out, sg)"
          by (cases os)
        with body Some same obtain v y where v: "serve_output P I X Y draw now out (t\<lparr>srv_signaler := sg\<rparr>) = Some (v, y)"
          by (auto split: option.splits)
        then have "Q v"
          using step [OF poll [OF t], of out sg] by (simp add: keeps_def)
        with body Some os same v loop show ?thesis
          by (cases y) auto
      qed
    qed
  qed
  with start show "Q u"
    by simp
qed

lemma serve_outputs_inv:
  "server_inv trusting limits polled D s \<Longrightarrow> keeps (server_inv trusting limits polled D) (serve_outputs P I X Y draw now s)"
  by (rule serve_outputs_keeps) (simp_all add: serve_output_inv)

lemma frame_signals_inv: "server_inv trusting limits polled D (frame_signals P f s) = server_inv trusting limits polled D s"
  by (simp add: frame_signals_def case_prod_unfold)

lemma update_inv:
  assumes "server_inv trusting limits polled D s"
  shows "keeps (server_inv trusting limits polled D) (srv_update P I X Y f s)"
  unfolding srv_update_def
  by (rule keeps_bind [OF serve_outputs_inv]) (simp_all add: assms frame_signals_inv frame_pool_inv)


section \<open>Every frame returns\<close>

text \<open>A signal handed to the signaler adds datagrams to its outputs and nothing else.\<close>

definition signals_left :: "lan_signaler_output list \<Rightarrow> nat" where
  "signals_left q = length (filter (\<lambda>out. case out of OutSignal _ \<Rightarrow> True | _ \<Rightarrow> False) q)"

lemma signal_taken: "signals_left (ls_output (fst (lan_handle P sg (InSignal sgl now)))) = signals_left (ls_output sg)"
  by (auto simp: handle_signal_def send_signal_def st_ok_def signals_left_def split: option.splits sum.splits)

lemma takes_signals:
  "signals_left (ls_output (srv_signaler (signaler_takes P (InSignal sgl now) s))) = signals_left (ls_output (srv_signaler s))"
  by (simp add: signaler_takes_def signal_taken del: lan_handle.simps)

lemma fold_takes_signals:
  "signals_left (ls_output (srv_signaler (fold (\<lambda>x. signaler_takes P (InSignal x now)) xs s))) =
     signals_left (ls_output (srv_signaler s))"
  by (induction xs arbitrary: s) (simp_all add: takes_signals)

lemma handle_signal_left:
  assumes "srv_handle_signal P I X Y draw sgl now s = Some (t, x)"
  shows "signals_left (ls_output (srv_signaler t)) = signals_left (ls_output (srv_signaler s))"
  using assms
  by (auto simp: srv_handle_signal_def srv_handle_offer_def pool_takes_def run_ok_def Let_def takes_signals fold_takes_signals
      split: if_splits prod.splits sum.splits admission_failure.splits option.splits)

lemma add_inferred_returns: "queues_finite X \<Longrightarrow> add_inferred X Y offer now lines c \<noteq> None"
proof (induction lines arbitrary: c)
  case (Cons line lines)
  let ?msg = "ConnSignal (signal_candidate (connection_id offer) line (network_id offer)) now"
  obtain c' r where "connection_handle X Y c ?msg = Some (c', r)"
    using connection_handle_returns [OF Cons.prems, of Y c ?msg] by auto
  with Cons.IH [OF Cons.prems, of c'] show ?case
    by auto
qed simp

lemma accept_returns: "queues_finite X \<Longrightarrow> accept X Y clock s d offer remote cs mode now \<noteq> None"
  using session_handle_returns [of X s "RemoteDescription remote cs now"] by (auto simp: accept_def split: sum.splits)

lemma answer_returns:
  assumes "queues_finite X"
  shows "answer_advertising I X Y drawn clock adm addr advertised now \<noteq> None"
proof -
  have "accept X Y c s d offer remote cs mode n = None \<longleftrightarrow> False" "add_inferred X Y offer n lines conn = None \<longleftrightarrow> False"
    for c s d offer remote cs mode n lines conn
    using accept_returns [OF assms] add_inferred_returns [OF assms] by blast+
  note never = this
  show ?thesis
    by (simp add: answer_advertising_def Let_def never split: sum.split prod.split option.split)
qed

lemma handle_signal_returns:
  assumes "queues_finite X"
  shows "srv_handle_signal P I X Y draw sgl now s \<noteq> None"
proof -
  have "answer_advertising I X Y drawn clock adm addr advertised n = None \<longleftrightarrow> False" for drawn clock adm addr advertised n
    using answer_returns [OF assms] by blast
  note never = this
  show ?thesis
    by (simp add: srv_handle_signal_def srv_handle_offer_def run_ok_def Let_def never
        split: prod.split sum.split admission_failure.split option.split)
qed

lemma serve_outputs_returns:
  assumes "queues_finite X"
  shows "\<exists>r. serve_outputs P I X Y draw now s = Some r"
proof (induction s rule: wf_induct_rule [OF wf_measures [of "[\<lambda>s. signals_left (ls_output (srv_signaler s)),
    \<lambda>s. length (ls_output (srv_signaler s))]"]])
  case (1 s)
  show ?case
  proof (cases "ls_output (srv_signaler s)")
    case Nil
    then show ?thesis
      by (simp add: serve_outputs.simps lan_poll_def pop_front_def)
  next
    case (Cons out q)
    let ?sg = "(srv_signaler s)\<lparr>ls_output := q\<rparr>"
    let ?s = "s\<lparr>srv_signaler := ?sg\<rparr>"
    have poll: "lan_poll (srv_signaler s) = Some (out, ?sg)"
      by (simp add: lan_poll_def pop_front_def Cons)
    have "serve_output P I X Y draw now out ?s \<noteq> None"
      by (cases out) (simp_all add: serve_output_def run_ok_def handle_signal_returns [OF assms] del: not_None_eq)
    then obtain t x where t: "serve_output P I X Y draw now out ?s = Some (t, x)"
      by auto
    have "(t, s) \<in> measures [\<lambda>s. signals_left (ls_output (srv_signaler s)), \<lambda>s. length (ls_output (srv_signaler s))]"
    proof (cases out)
      case (OutSignal sgl)
      with t have "signals_left (ls_output (srv_signaler t)) = signals_left q"
        using handle_signal_left [of P I X Y draw sgl now ?s t x] by (simp add: serve_output_def)
      with Cons OutSignal show ?thesis
        by (simp add: signals_left_def)
    qed (use t Cons in \<open>auto simp: serve_output_def run_ok_def signals_left_def\<close>)
    from "1.IH" [OF this] show ?thesis
      using poll t by (cases x) (auto simp: serve_outputs.simps [of P I X Y draw now s])
  qed
qed

lemma update_returns: "queues_finite X \<Longrightarrow> \<exists>r. srv_update P I X Y f s = Some r"
  unfolding srv_update_def by (rule run_bind_returns [OF serve_outputs_returns]) (simp_all add: run_ok_def)

end
