(* ===== verification/Lan_Server_System.thy ===== *)
theory Lan_Server_System
  imports Lan_Server
begin

text \<open>
  The LAN server of the Bevy crate together with the thread of its session pool: frames, calls of the application and
  rounds of the thread, interleaved in any order.  What the server's invariant promises of its commands is what the pool's
  invariant needs of them, so the two hold together.
\<close>

section \<open>The server and its pool\<close>

text \<open>A server that was configured before its first frame.\<close>

definition configured ::
  "('sk, 'vk) server_identity option \<Rightarrow> token_trust option \<Rightarrow> timeouts \<Rightarrow> bool \<Rightarrow> pending_limits \<Rightarrow>
    ('sk, 'vk, 'conn) nether_server \<Rightarrow> ('sk, 'vk, 'conn) nether_server" where
  "configured ident trust t infer limits s =
     srv_set_pending_limits limits (srv_set_infer_peer_candidates infer (srv_set_timeouts t (srv_set_token_trust trust
       (case ident of Some i \<Rightarrow> srv_set_identity i s | None \<Rightarrow> s))))"

text \<open>The server with the thread of its pool: frames, the calls of the application, and rounds of the thread that take the
  commands waiting at that moment, in any order.  The events the application took are kept.\<close>

inductive system_reachable ::
  "discovery_prims \<Rightarrow> ('sk, 'vk, 'sig, 'rsa) identity_ops \<Rightarrow> ('i, 'k, 'c, 'g, 'd, 'p, 'h, 'a, 'v, 'w) session_ops \<Rightarrow>
    ('m, 's, 'k) signal_ops \<Rightarrow> 'u stun_ops \<Rightarrow> bool \<Rightarrow> pending_limits \<Rightarrow>
    ('sk, 'vk, ('i, 'c, 'd, 'p, 'h, 'a) connection) nether_server \<Rightarrow>
    (nether_session_id, ('i, 'c, 'd, 'p, 'h, 'a) connection) pool \<Rightarrow> nether_server_event list \<Rightarrow> bool"
  for P I X Y U trusting limits where
  begun: "trusting = (trust \<noteq> None) \<Longrightarrow>
    system_reachable P I X Y U trusting limits
      (configured ident trust t infer limits (nether_server_new nid config addr advertised)) pool_new []"
| framed: "system_reachable P I X Y U trusting limits s p polled \<Longrightarrow> pool_drive p = (frame_events f, q) \<Longrightarrow>
    srv_update P I X Y f s = Some (t, Inr ()) \<Longrightarrow> system_reachable P I X Y U trusting limits t q polled"
| thread: "system_reachable P I X Y U trusting limits s p polled \<Longrightarrow> srv_commands s = waiting inp @ rest \<Longrightarrow>
    drive_round X Y U inp p = Some (q, Inr ()) \<Longrightarrow>
    system_reachable P I X Y U trusting limits (s\<lparr>srv_commands := rest\<rparr>) q polled"
| told: "system_reachable P I X Y U trusting limits s p polled \<Longrightarrow>
    system_reachable P I X Y U trusting limits (fst (srv_send_on who ch data s)) p polled"
| hung_up: "system_reachable P I X Y U trusting limits s p polled \<Longrightarrow>
    system_reachable P I X Y U trusting limits (srv_disconnect who s) p polled"
| event: "system_reachable P I X Y U trusting limits s p polled \<Longrightarrow> srv_next_event s = Some (ev, t) \<Longrightarrow>
    system_reachable P I X Y U trusting limits t p (polled @ [ev])"
| read: "system_reachable P I X Y U trusting limits s p polled \<Longrightarrow> srv_recv s = Some (m, t) \<or> srv_recv_unreliable s = Some (m, t) \<Longrightarrow>
    system_reachable P I X Y U trusting limits t p polled"

lemma begun_inv:
  assumes "trusting = (trust \<noteq> None)"
  shows "server_inv trusting limits [] {} (configured ident trust t infer limits (nether_server_new nid config addr advertised))"
proof -
  have "last_event who [] = None" for who
    by (simp add: last_event_def)
  with assms show ?thesis
    by (cases ident) (simp_all add: configured_def nether_server_new_def srv_set_pending_limits_def srv_set_infer_peer_candidates_def
      srv_set_timeouts_def srv_set_token_trust_def srv_set_identity_def server_inv_def sessions_ok_def entries_ok_def within_limits_def
      pending_ids_def is_connected_def)
qed

lemma thread_inv:
  assumes inv: "server_inv trusting limits polled (dom (roster p)) s" and pool: "pool_inv p"
    and cmds: "srv_commands s = waiting inp @ rest" and round: "drive_round X Y U inp p = Some (q, Inr ())"
  shows "server_inv trusting limits polled (dom (roster q)) (s\<lparr>srv_commands := rest\<rparr>) \<and> pool_inv q"
proof -
  have fresh: "adds_fresh (dom (roster p)) (waiting inp)" "adds_fresh (cmd_ids (dom (roster p)) (waiting inp)) rest"
    using inv cmds by (simp_all add: server_inv_def sessions_ok_def adds_fresh_append)
  have "pool_within (dom (roster p)) p"
    using pool by (simp add: pool_within_def)
  from drive_round_within [OF this fresh(1) round] have q: "pool_inv q" "dom (roster q) \<subseteq> cmd_ids (dom (roster p)) (waiting inp)"
    by (simp_all add: pool_within_def)
  from inv cmds q adds_fresh_mono [OF fresh(2) q(2)] cmd_ids_mono [OF q(2), of rest] show ?thesis
    by (auto simp: server_inv_def sessions_ok_def cmd_ids_append)
qed

lemma event_inv:
  assumes "server_inv trusting limits polled D s" "srv_next_event s = Some (ev, t)"
  shows "server_inv trusting limits (polled @ [ev]) D t"
  using assms by (auto simp: srv_next_event_def pop_front_def server_inv_def split: list.splits)

lemma read_inv:
  assumes "server_inv trusting limits polled D s" "srv_recv s = Some (m, t) \<or> srv_recv_unreliable s = Some (m, t)"
  shows "server_inv trusting limits polled D t"
  using assms by (auto simp: srv_recv_def srv_recv_unreliable_def pop_front_def server_inv_def split: list.splits)

lemma system_inv:
  "system_reachable P I X Y U trusting limits s p polled \<Longrightarrow> server_inv trusting limits polled (dom (roster p)) s \<and> pool_inv p"
proof (induction rule: system_reachable.induct)
  case (begun trust ident t infer nid config addr advertised)
  show ?case
    using begun_inv [OF begun, of limits ident t infer nid config addr advertised] by (simp add: pool_new_inv)
next
  case (framed s p polled f q t)
  then have "roster q = roster p" "pool_inv q"
    by (auto simp: pool_drive_def)
  with framed update_inv [of trusting limits polled "dom (roster p)" s P I X Y f] show ?case
    by (simp add: keeps_def)
next
  case (thread s p polled inp rest q)
  then show ?case
    using thread_inv by blast
qed (auto simp: send_on_inv disconnect_inv intro: event_inv read_inv)

section \<open>Properties\<close>

text \<open>C3: The LAN server and the thread of its session pool, over every interleaving of frames, calls and rounds.  The offers
  answered and not yet established stay within both limits.  When the server was given a token trust, every session has the
  player its offer was validated for.  For each session the last event the application is told of is that it connected
  exactly while the session is one of the server's ready sessions, and two connects always have a disconnect between
  them.  The pool gets each session under an id it has no other for, so its datagrams are routed to live sessions only; and
  when the server has no session left and its commands were carried out, the pool has none either and its router is
  empty.\<close>

theorem lan_server_system:
  assumes "system_reachable P I X Y U trusting limits s p polled"
  shows "length (pending_ids (srv_sessions s)) \<le> max_pending limits \<and>
    count_list (pending_ids (srv_sessions s)) nid \<le> max_pending_per_network_id limits \<and>
    (trusting \<longrightarrow> (\<forall>who. hm_get (srv_sessions s) who \<noteq> None \<longrightarrow> srv_player who s \<noteq> None)) \<and>
    alternates (polled @ srv_events s) \<and>
    (\<forall>who. last_event who (polled @ srv_events s) = Some (SessionConnected who) \<longleftrightarrow> who \<in> set (srv_ready_sessions s)) \<and>
    adds_fresh {who. hm_get (pool_entries p) who \<noteq> None} (srv_commands s) \<and>
    (\<forall>addr data. \<forall>who \<in> set (bevy_route U (pool_router p) addr data). hm_get (pool_entries p) who \<noteq> None) \<and>
    (srv_sessions s = [] \<and> srv_commands s = [] \<longrightarrow> pool_entries p = [] \<and> pool_router p = bevy_router_default)"
proof -
  have inv: "sessions_ok trusting limits (polled @ srv_events s) (dom (roster p)) (srv_sessions s) (srv_commands s)" and pool: "pool_inv p"
    using system_inv [OF assms] by (simp_all add: server_inv_def)
  have wf: "hm_wf (srv_sessions s)"
    using inv by (simp add: sessions_ok_def entries_ok_def)
  have dom: "{who. hm_get (pool_entries p) who \<noteq> None} = dom (roster p)"
    by (auto simp: roster_def)
  have ready: "who \<in> set (srv_ready_sessions s) \<longleftrightarrow> is_connected who (srv_sessions s)" for who
    using hm_get_mem [OF wf] by (force simp: srv_ready_sessions_def is_connected_def)
  have "pool_entries p = []" "pool_router p = bevy_router_default" if none: "srv_sessions s = []" "srv_commands s = []"
  proof -
    have "roster p = Map.empty"
      using inv none by (simp add: sessions_ok_def)
    then show "pool_entries p = []" "pool_router p = bevy_router_default"
      using pool_inv_empty [OF pool] by simp_all
  qed
  then show ?thesis
    using inv ready pool_routes [OF pool] unfolding dom
    by (auto simp: sessions_ok_def entries_ok_def within_limits_def count_mset srv_player_def)
qed

text \<open>A server on network 5 that hears the offer of host 4 in one frame, with an agent that reads the offer's lines.\<close>

definition offer_limits :: pending_limits where
  "offer_limits = \<lparr>max_pending = 3, max_pending_per_network_id = 1\<rparr>"

definition offer_server ::
  "(u8, u8, (sample_agent, bytes, (bytes \<times> socket_addr) list, bool, unit, sample_assoc) connection) nether_server" where
  "offer_server = configured None None timeouts_default False offer_limits
     (nether_server_new 5 (lan_config_default\<lparr>broadcast_address := None\<rparr>) sample_addr [])"

definition heard_offer :: signal where
  "heard_offer = signal_offer 7 sample_answer ''4''"

definition offer_draw_of :: "nether_session_id \<Rightarrow> offer_draw" where
  "offer_draw_of who = \<lparr>drawn_credentials = (''u'', ''p''), drawn_clock = Some 3, drawn_wall = 0\<rparr>"

lemma heard_parses: "\<exists>d. parse_offer line_signals heard_offer = Inr (d, []) \<and> desc_role d = DtlsServer"
proof -
  have "List.map_filter (strip_prefix FINGERPRINT_PREFIX) (sdp_text_lines sample_answer) = [''sha-256 AB:CD'']"
    by (simp add: sample_answer_def crlf_def sdp_text_lines_def is_crlf_def strip_prefix_def FINGERPRINT_PREFIX_def
        List.map_filter_simps)
  then have "find_map (strip_prefix FINGERPRINT_PREFIX) (sdp_text_lines sample_answer) = Some ''sha-256 AB:CD''"
    by (simp add: find_map_filter)
  then show ?thesis
    by (simp add: heard_offer_def parse_offer_def signal_offer_def signal_new_def line_signals_def description_parse_def
        line_sdp_def parse_media_def media_attr_def parse_fingerprint_def split_once_def parse_setup_def
        parse_max_message_size_def media_candidates_def List.map_filter_simps)
qed

lemma answerer_made:
  "\<exists>d. with_advertised sample_machines (''u'', ''p'') sample_addr [] False now =
     Inr (sample_session\<lparr>is_controlling := False\<rparr>, d)"
  by (simp add: with_advertised_def ice_with_advertised_def certificate_generate_def crypto_provider_def
      certificate_fingerprint_def sample_machines_def sample_ice_def sample_certificates_def sample_session_def)

lemma answerer_takes:
  assumes "0 < within"
  shows "\<exists>s. session_handle sample_machines (sample_session\<lparr>is_controlling := False, establish_within := within\<rparr>)
    (RemoteDescription d [] now) = Some (s, Inr ())"
  using assms
  by (simp add: session_handle_def set_remote_description_def on_ice_def ice_set_remote_credentials_def on_agent_def
      sample_idle_loops sample_session_def Let_def emit_ready_def fail_when_overdue_def establish_deadline_def channels_default_def
      run_ok_def sample_machines_def [THEN arg_cong, of ice_calls] sample_ice_def)

lemma heard_answered:
  assumes "admit I line_signals policy heard_offer addr 0 = (None, Inr a)" "policy_identity policy = None"
    and "policy_infer_peer_candidates policy = False" "policy_establish_deadline policy = Some within" "0 < within"
  shows "\<exists>answered. answer_advertising I sample_machines line_signals (''u'', ''p'') clock a sample_addr [] now = Some (Inr answered)"
proof -
  obtain d cs where parts: "parse_offer line_signals heard_offer = Inr (d, cs)" "adm_description a = d" "adm_candidates a = cs"
    "adm_offer a = heard_offer" "adm_policy a = policy"
    by (rule admit_ok [OF assms(1)])
  have "cs = []"
    using heard_parses parts(1) by auto
  obtain own where own: "with_advertised sample_machines (''u'', ''p'') sample_addr [] False now =
      Inr (sample_session\<lparr>is_controlling := False\<rparr>, own)"
    using answerer_made by blast
  obtain s where "session_handle sample_machines (sample_session\<lparr>is_controlling := False, establish_within := within\<rparr>)
      (RemoteDescription d [] now) = Some (s, Inr ())"
    using answerer_takes [OF assms(5)] by blast
  with own parts \<open>cs = []\<close> assms(2-4) show ?thesis
    by (simp add: answer_advertising_def Let_def set_establish_deadline_def accept_def heard_offer_def signal_offer_def
        signal_new_def sign_answer_def)
qed


lemma heard_session:
  assumes "srv_sessions s = []" "srv_token_trust s = None" "srv_identity s = None" "srv_infer_peer_candidates s = False"
    and "srv_timeouts s = timeouts_default" "srv_pending_limits s = offer_limits" "srv_local_addr s = sample_addr" "srv_advertised s = []"
  shows "\<exists>t c u e. srv_handle_signal P I sample_machines line_signals offer_draw_of heard_offer now s = Some (t, Inr ()) \<and>
    srv_sessions t = [(session_of heard_offer, e)] \<and> \<not> se_ready e \<and> se_created e = now \<and> srv_timeouts t = timeouts_default \<and>
    srv_commands t = srv_commands s @ [CmdAdd (session_of heard_offer) c u] \<and> srv_events t = srv_events s"
proof -
  let ?policy = "srv_policy s"
  let ?addr = "opt_bind (parse_u64 (network_id heard_offer)) (lan_address (srv_signaler s))"
  have policy: "policy_identity ?policy = None" "policy_infer_peer_candidates ?policy = False"
    "policy_establish_deadline ?policy = Some (10 * second)"
    using assms(2-5) by (simp_all add: srv_policy_def Let_def with_establish_deadline_def with_inferred_peer_candidates_def
        policy_new_def establish_def timeouts_default_def)
  obtain d where "parse_offer line_signals heard_offer = Inr (d, [])"
    using heard_parses by blast
  then obtain a where a: "admit I line_signals ?policy heard_offer ?addr 0 = (None, Inr a)"
    using assms(2) by (simp add: admit_def)
  have pos: "0 < 10 * second"
    by (simp add: second_def)
  obtain answered where ans: "answer_advertising I sample_machines line_signals (''u'', ''p'') (Some 3) a sample_addr [] now = Some (Inr answered)"
    using heard_answered [OF a policy pos] by blast
  have offer: "sig_type heard_offer = Offer"
    by (simp add: heard_offer_def signal_offer_def signal_new_def)
  have room: "admits_offer [] (network_id heard_offer) offer_limits"
    by (simp add: admits_offer_def offer_limits_def)
  have same: "srv_timeouts (fold (\<lambda>x. signaler_takes P (InSignal x now)) xs t) = srv_timeouts t" for xs t
    by (induction xs arbitrary: t) (simp_all add: signaler_takes_def)
  show ?thesis
    using assms a ans offer room
    by (simp add: srv_handle_signal_def srv_handle_offer_def hm_contains_def pending_ids_def Let_def offer_draw_of_def
        run_ok_def pool_takes_def hm_insert_def same)
qed

text \<open>Outputs that are no signals leave the sessions alone.\<close>

lemma serve_quiet:
  assumes "signals_left (ls_output (srv_signaler s)) = 0"
  shows "\<exists>t. serve_outputs P I X Y draw now s = Some (t, Inr ()) \<and> srv_sessions t = srv_sessions s \<and>
    srv_commands t = srv_commands s \<and> srv_events t = srv_events s \<and> srv_timeouts t = srv_timeouts s"
  using assms
proof (induction "ls_output (srv_signaler s)" arbitrary: s)
  case Nil
  then show ?case
    by (simp add: serve_outputs.simps lan_poll_def pop_front_def)
next
  case (Cons out q)
  let ?s = "s\<lparr>srv_signaler := (srv_signaler s)\<lparr>ls_output := q\<rparr>\<rparr>"
  have poll: "lan_poll (srv_signaler s) = Some (out, (srv_signaler s)\<lparr>ls_output := q\<rparr>)"
    using Cons.hyps(2) by (simp add: lan_poll_def pop_front_def flip: Cons.hyps(2))
  have quiet: "signals_left q = 0" "\<nexists>sgl. out = OutSignal sgl"
    using Cons.prems unfolding Cons.hyps(2) [symmetric] by (auto simp: signals_left_def split: if_splits lan_signaler_output.splits)
  obtain t where t: "serve_output P I X Y draw now out ?s = Some (t, Inr ())" "srv_signaler t = srv_signaler ?s"
    "srv_sessions t = srv_sessions s" "srv_commands t = srv_commands s" "srv_events t = srv_events s" "srv_timeouts t = srv_timeouts s"
    using quiet(2) by (cases out) (auto simp: serve_output_def run_ok_def)
  from Cons.hyps(1) [of t] t quiet(1) show ?case
    by (simp add: serve_outputs.simps [of P I X Y draw now s] poll)
qed

lemma heard_datagram:
  "\<exists>buf. let sg = fst (lan_handle sample_prims (srv_signaler offer_server) (InDatagram buf (host_addr 2 50000) 11)) in
     ls_output sg = [OutSignal heard_offer] \<and> ls_pending sg = [] \<and> broadcast_address (ls_config sg) = None"
proof -
  let ?sig = "signal_offer 7 sample_answer ''5''"
  have four: "u64_to_string 4 = ''4''"
    by (simp add: u64_to_string_def dec.simps digit_char_def) code_simp+
  obtain buf where enc: "packet_encode sample_prims (packets.Message \<lparr>recipient_id = 5, pkt_data = signal_to_string ?sig\<rparr>) 4 = Inr buf"
    by (auto simp: packet_encode_def message_packet_serialize_def write_bytes_u32_def MAX_BYTES_def Let_def sample_answer_def crlf_def
        signal_to_string_def signal_offer_def signal_new_def u64_to_string_def dec.simps)
  have "is_str (sig_data ?sig)"
    by (simp add: signal_offer_def signal_new_def sample_answer_def crlf_def is_ascii_is_str)
  then have "packet_decode sample_prims buf = Inr (packets.Message \<lparr>recipient_id = 5, pkt_data = signal_to_string ?sig\<rparr>, 4)"
    by (intro packet_round_trip_lemma [OF sample_prims_ok _ enc]) (simp add: signal_to_string_is_str)
  moreover have sg: "srv_signaler offer_server = lan_signaler_new 5 (lan_config_default\<lparr>broadcast_address := None\<rparr>)"
    by (simp add: offer_server_def configured_def nether_server_new_def srv_set_pending_limits_def
        srv_set_infer_peer_candidates_def srv_set_timeouts_def srv_set_token_trust_def)
  ultimately show ?thesis
    using signal_text_not_ping [of ?sig]
    by (intro exI [of _ buf]) (simp add: Let_def handle_datagram_def handle_message_def lan_signaler_new_def pinned_elsewhere_def
        signal_round_trip st_ok_def four heard_offer_def signal_offer_def signal_new_def \<open>is_str (sig_data ?sig)\<close>)
qed


lemma idle_update:
  assumes "ls_pending sg = []" "broadcast_address (ls_config sg) = None"
  shows "\<exists>w. ls_output (fst (lan_handle P sg (InUpdate now))) = ls_output sg @ [OutWait w]"
  using assms by (simp add: handle_update_def retransmit_def broadcast_def expire_def st_ok_def due_signals_def retained_def Let_def)

lemma offer_heard:
  "\<exists>t e c u. system_reachable sample_prims sample_identity sample_machines line_signals sample_stun False offer_limits t pool_new [] \<and>
     srv_sessions t = [(session_of heard_offer, e)] \<and> \<not> se_ready e \<and> srv_commands t = [CmdAdd (session_of heard_offer) c u]"
proof -
  obtain buf where sg: "ls_output (fst (lan_handle sample_prims (srv_signaler offer_server) (InDatagram buf (host_addr 2 50000) 11))) =
      [OutSignal heard_offer]"
    "ls_pending (fst (lan_handle sample_prims (srv_signaler offer_server) (InDatagram buf (host_addr 2 50000) 11))) = []"
    "broadcast_address (ls_config (fst (lan_handle sample_prims (srv_signaler offer_server) (InDatagram buf (host_addr 2 50000) 11)))) = None"
    using heard_datagram by (auto simp: Let_def)
  define f where "f = \<lparr>frame_now = 11, frame_datagrams = [(buf, host_addr 2 50000)], frame_draw = offer_draw_of, frame_events = []\<rparr>"
  define s1 where "s1 = frame_signals sample_prims f offer_server"
  have plain: "canonical (host_addr 2 50000) = host_addr 2 50000"
    by (simp add: canonical_def host_addr_def)
  obtain w where out: "ls_output (srv_signaler s1) = [OutSignal heard_offer, OutWait w]"
    using idle_update [OF sg(2,3), of sample_prims 11] sg(1)
    by (auto simp: s1_def f_def frame_signals_def MAX_DATAGRAMS_PER_TICK_def signaler_takes_def plain simp del: lan_handle.simps)
  let ?s = "s1\<lparr>srv_signaler := (srv_signaler s1)\<lparr>ls_output := [OutWait w]\<rparr>\<rparr>"
  have conf: "srv_sessions ?s = []" "srv_token_trust ?s = None" "srv_identity ?s = None" "srv_infer_peer_candidates ?s = False"
    "srv_timeouts ?s = timeouts_default" "srv_pending_limits ?s = offer_limits" "srv_local_addr ?s = sample_addr"
    "srv_advertised ?s = []" "srv_commands ?s = []" "srv_events ?s = []"
    by (simp_all add: s1_def f_def frame_signals_def MAX_DATAGRAMS_PER_TICK_def signaler_takes_def offer_server_def configured_def
        nether_server_new_def srv_set_pending_limits_def srv_set_infer_peer_candidates_def srv_set_timeouts_def srv_set_token_trust_def)
  obtain t1 c u e where t1: "srv_handle_signal sample_prims sample_identity sample_machines line_signals offer_draw_of heard_offer 11 ?s =
      Some (t1, Inr ())" "srv_sessions t1 = [(session_of heard_offer, e)]" "\<not> se_ready e" "se_created e = 11"
      "srv_timeouts t1 = timeouts_default" "srv_commands t1 = [CmdAdd (session_of heard_offer) c u]" "srv_events t1 = []"
    using heard_session [OF conf(1-8), of sample_prims sample_identity 11] conf(9,10) by auto
  have "signals_left (ls_output (srv_signaler t1)) = 0"
    using handle_signal_left [OF t1(1)] by (simp add: signals_left_def)
  from serve_quiet [OF this] obtain t2 where
    t2: "serve_outputs sample_prims sample_identity sample_machines line_signals offer_draw_of 11 t1 = Some (t2, Inr ())"
      "srv_sessions t2 = srv_sessions t1" "srv_commands t2 = srv_commands t1" "srv_timeouts t2 = srv_timeouts t1"
    by blast
  have "serve_outputs sample_prims sample_identity sample_machines line_signals offer_draw_of 11 s1 = Some (t2, Inr ())"
    using t1(1) t2(1) out
    by (simp add: serve_outputs.simps [of _ _ _ _ _ _ s1] lan_poll_def pop_front_def serve_output_def)
  then have upd: "srv_update sample_prims sample_identity sample_machines line_signals f offer_server = Some (frame_pool f t2, Inr ())"
    by (simp add: srv_update_def f_def flip: s1_def [unfolded f_def]) (simp add: run_ok_def)
  have final: "srv_sessions (frame_pool f t2) = [(session_of heard_offer, e)]"
    "srv_commands (frame_pool f t2) = [CmdAdd (session_of heard_offer) c u]"
    using t1(2-6) t2(2-4) by (simp_all add: frame_pool_def f_def expire_unestablished_def hm_retain_def timeouts_default_def
        establish_def second_def Let_def)
  have "pool_drive (pool_new :: (nether_session_id, _) pool) = (frame_events f, pool_new)"
    by (simp add: pool_drive_def pool_new_def f_def)
  moreover have "system_reachable sample_prims sample_identity sample_machines line_signals sample_stun False offer_limits offer_server pool_new []"
    unfolding offer_server_def by (rule system_reachable.begun) simp
  ultimately have "system_reachable sample_prims sample_identity sample_machines line_signals sample_stun False offer_limits
      (frame_pool f t2) pool_new []"
    using upd by (blast intro: system_reachable.framed)
  with final t1(3) show ?thesis
    by blast
qed

theorem lan_server_system_witness:
  "\<exists>t c u. system_reachable sample_prims sample_identity sample_machines line_signals sample_stun False offer_limits t pool_new [] \<and>
     pending_ids (srv_sessions t) = [''4''] \<and> count_list (pending_ids (srv_sessions t)) ''4'' \<le> 1 \<and>
     srv_commands t = [CmdAdd (session_of heard_offer) c u] \<and>
     adds_fresh {who. hm_get (pool_entries (pool_new :: (_, (sample_agent, bytes, (bytes \<times> socket_addr) list, bool, unit, sample_assoc) connection) pool)) who \<noteq> None}
       (srv_commands t) \<and>
     last_event (session_of heard_offer) (srv_events t) \<noteq> Some (SessionConnected (session_of heard_offer))"
proof -
  obtain t e c u where t: "system_reachable sample_prims sample_identity sample_machines line_signals sample_stun False offer_limits t pool_new []"
    "srv_sessions t = [(session_of heard_offer, e)]" "\<not> se_ready e" "srv_commands t = [CmdAdd (session_of heard_offer) c u]"
    using offer_heard by blast
  have ids: "pending_ids (srv_sessions t) = [''4'']"
    using t(2,3) by (simp add: pending_ids_def session_of_def heard_offer_def signal_offer_def signal_new_def)
  have "session_of heard_offer \<notin> set (srv_ready_sessions t)"
    using t(2,3) by (simp add: srv_ready_sessions_def)
  with lan_server_system [OF t(1), of "''4''"] t ids show ?thesis
    by (auto simp: offer_limits_def)
qed

end
