(* ===== verification/Http_Wire.thy ===== *)
theory Http_Wire
  imports Rust_Text
begin

text \<open>
  \<open>bevy-nethernet/src/http_wire.rs\<close>: reading and writing HTTP/1.1 messages for the Bevy server and client.  The \<open>httparse\<close>
  crate finds the end of a head and of a chunk's size line, and the \<open>http\<close> crate builds messages; both are parameters.  A
  slice that starts past the end of the buffer panics, which is a value of its own here.  Proved: the chunked decoder
  stops on every input, stays within the size limit and undoes the chunked encoding; a message read from the bytes so far is
  the one read when more have arrived; and what the writers write, the readers read.
\<close>

definition MAX_HEADERS :: nat where "MAX_HEADERS = 100"
definition MAX_BODY :: nat where "MAX_BODY = 2 ^ 20"

datatype framing_error = FramingHeaderCountExceeded | FramingMalformed | FramingSizeExceeded

datatype request_error = RequestHeaderCountExceeded | RequestMalformed | RequestSizeExceeded | LengthRequired

datatype response_error = ResponseHeaderCountExceeded | ResponseMalformed | ResponseSizeExceeded | UnboundedBody

definition request_error_from :: "framing_error \<Rightarrow> request_error" where
  "request_error_from e =
     (case e of FramingHeaderCountExceeded \<Rightarrow> RequestHeaderCountExceeded | FramingMalformed \<Rightarrow> RequestMalformed
      | FramingSizeExceeded \<Rightarrow> RequestSizeExceeded)"

definition response_error_from :: "framing_error \<Rightarrow> response_error" where
  "response_error_from e =
     (case e of FramingHeaderCountExceeded \<Rightarrow> ResponseHeaderCountExceeded | FramingMalformed \<Rightarrow> ResponseMalformed
      | FramingSizeExceeded \<Rightarrow> ResponseSizeExceeded)"

datatype 'e wire_failure = WireFails 'e | WirePanics

definition wire_err :: "('e \<Rightarrow> 'f) \<Rightarrow> ('e wire_failure, 'a) result \<Rightarrow> ('f wire_failure, 'a) result" where
  "wire_err f r = map_err (\<lambda>e. case e of WireFails e \<Rightarrow> WireFails (f e) | WirePanics \<Rightarrow> WirePanics) r"

section \<open>The crates\<close>

datatype parse_error = TooManyHeaders | OtherParseError

type_synonym http_header = "string \<times> bytes"

record raw_request =
  raw_method :: "string option"
  raw_path :: "string option"
  raw_request_headers :: "http_header list"

record raw_response =
  raw_code :: "nat option"
  raw_response_headers :: "http_header list"

text \<open>\<open>httparse\<close>: \<open>None\<close> is \<open>Status::Partial\<close>, a completed parse comes with the bytes it took.  The number is the room for
  headers.\<close>

record httparse_ops =
  parse_chunk_size :: "bytes \<Rightarrow> (unit, (nat \<times> nat) option) result"
  parse_headers :: "nat \<Rightarrow> bytes \<Rightarrow> (parse_error, nat option) result"
  parse_request :: "nat \<Rightarrow> bytes \<Rightarrow> (parse_error, (nat \<times> raw_request) option) result"
  parse_response :: "nat \<Rightarrow> bytes \<Rightarrow> (parse_error, (nat \<times> raw_response) option) result"

text \<open>\<open>http\<close>: the builders of messages, what it accepts as a header value and as a target (with the text it shows for it), and
  the order a \<open>HeaderMap\<close> is walked in.\<close>

record ('q, 'r) http_ops =
  build_request :: "string \<Rightarrow> string \<Rightarrow> http_header list \<Rightarrow> bytes \<Rightarrow> 'q option"
  build_response :: "nat \<Rightarrow> http_header list \<Rightarrow> bytes \<Rightarrow> 'r option"
  header_value :: "string \<Rightarrow> bytes option"
  parse_target :: "string \<Rightarrow> string option"
  header_order :: "http_header list \<Rightarrow> http_header list"
  canonical_reason :: "nat \<Rightarrow> string option"

section \<open>Bodies\<close>

definition text_body_decode :: "bytes \<Rightarrow> (unit, string) result" where
  "text_body_decode body = ok_or () (from_utf8 body)"

datatype body_framing = BodyLength nat | BodyChunked

definition is_ascii_space :: "u8 \<Rightarrow> bool" where
  "is_ascii_space b \<longleftrightarrow> b \<in> {0x20, 0x09, 0x0A, 0x0C, 0x0D}"

definition trim_ascii :: "bytes \<Rightarrow> bytes" where
  "trim_ascii bs = rev (dropWhile is_ascii_space (rev (dropWhile is_ascii_space bs)))"

definition find_header :: "string \<Rightarrow> http_header list \<Rightarrow> bytes option" where
  "find_header name hs = map_option snd (find (\<lambda>(n, _). eq_ignore_ascii_case n name) hs)"

definition body_framing_of :: "http_header list \<Rightarrow> (framing_error wire_failure, body_framing option) result" where
  "body_framing_of hs =
     (case (find_header ''content-length'' hs, find_header ''transfer-encoding'' hs) of
        (Some _, Some _) \<Rightarrow> Inl (WireFails FramingMalformed)
      | (None, Some encoding) \<Rightarrow>
          if eq_ignore_ascii_case (str_of (trim_ascii encoding)) ''chunked'' then Inr (Some BodyChunked)
          else Inl (WireFails FramingMalformed)
      | (Some v, None) \<Rightarrow>
          (case opt_bind (from_utf8 v) (\<lambda>v. parse_u64 (trim v)) of
             None \<Rightarrow> Inl (WireFails FramingMalformed)
           | Some n \<Rightarrow> if MAX_BODY < unat n then Inl (WireFails FramingSizeExceeded) else Inr (Some (BodyLength (unat n))))
      | (None, None) \<Rightarrow> Inr None)"

datatype chunked_body = ChunkedComplete bytes nat | ChunkedIncomplete

definition slice_from :: "bytes \<Rightarrow> nat \<Rightarrow> ('e wire_failure, bytes) result" where
  "slice_from buf at = (if at \<le> length buf then Inr (drop at buf) else Inl WirePanics)"

definition trailer_len :: "httparse_ops \<Rightarrow> bytes \<Rightarrow> (framing_error wire_failure, nat option) result" where
  "trailer_len H rest =
     map_err (\<lambda>e. WireFails (case e of TooManyHeaders \<Rightarrow> FramingHeaderCountExceeded | OtherParseError \<Rightarrow> FramingMalformed))
       (parse_headers H MAX_HEADERS rest)"

definition CRLF :: bytes where "CRLF = [0x0D, 0x0A]"

text \<open>One iteration of the loop: it returns, or it goes on with a longer body further along.\<close>

datatype chunk_flow = ChunkReturn chunked_body | ChunkNext bytes nat

definition chunk_round ::
  "httparse_ops \<Rightarrow> bytes \<Rightarrow> bytes \<Rightarrow> nat \<Rightarrow> (framing_error wire_failure, chunk_flow) result" where
  "chunk_round H buf body at =
     res_bind (slice_from buf at) (\<lambda>rest.
       case parse_chunk_size H rest of
         Inl _ \<Rightarrow> Inl (WireFails FramingMalformed)
       | Inr None \<Rightarrow> Inr (ChunkReturn ChunkedIncomplete)
       | Inr (Some (line_len, n)) \<Rightarrow>
           let at = at + line_len in
           if n = 0 then
             res_bind (slice_from buf at) (\<lambda>rest.
             res_bind (trailer_len H rest) (\<lambda>trailer.
               Inr (ChunkReturn
                 (case trailer of Some len \<Rightarrow> ChunkedComplete body (at + len) | None \<Rightarrow> ChunkedIncomplete))))
           else if MAX_BODY - length body < n then Inl (WireFails FramingSizeExceeded)
           else let chunk_end = at + (n + 2) in
             if length buf < chunk_end then Inr (ChunkReturn ChunkedIncomplete)
             else if take 2 (drop (chunk_end - 2) buf) \<noteq> CRLF then Inl (WireFails FramingMalformed)
             else Inr (ChunkNext (body @ take n (drop at buf)) chunk_end))"

lemma chunk_round_next:
  "chunk_round H buf body at = Inr (ChunkNext body' at') \<longleftrightarrow>
   (\<exists>line_len n. at \<le> length buf \<and> parse_chunk_size H (drop at buf) = Inr (Some (line_len, n)) \<and> 0 < n \<and>
      n \<le> MAX_BODY - length body \<and> at' = at + line_len + n + 2 \<and> at' \<le> length buf \<and>
      take 2 (drop (at + line_len + n) buf) = CRLF \<and> body' = body @ take n (drop (at + line_len) buf))"
  by (auto simp: chunk_round_def slice_from_def Let_def res_simps split: sum.splits option.splits if_splits)

function chunked_decode_at ::
  "httparse_ops \<Rightarrow> bytes \<Rightarrow> bytes \<Rightarrow> nat \<Rightarrow> (framing_error wire_failure, chunked_body) result" where
  "chunked_decode_at H buf body at =
     (case chunk_round H buf body at of
        Inl e \<Rightarrow> Inl e
      | Inr (ChunkReturn r) \<Rightarrow> Inr r
      | Inr (ChunkNext body at) \<Rightarrow> chunked_decode_at H buf body at)"
  by pat_completeness auto

termination
  by (relation "measure (\<lambda>(H, buf, body, at). length buf - at)") (auto simp: chunk_round_next)

declare chunked_decode_at.simps [simp del]

definition chunked_decode :: "httparse_ops \<Rightarrow> bytes \<Rightarrow> (framing_error wire_failure, chunked_body) result" where
  "chunked_decode H buf = chunked_decode_at H buf [] 0"

definition body_framing_read ::
  "httparse_ops \<Rightarrow> body_framing \<Rightarrow> bytes \<Rightarrow> (framing_error wire_failure, (bytes \<times> nat) option) result" where
  "body_framing_read H framing buf =
     (case framing of
        BodyLength n \<Rightarrow> Inr (if n \<le> length buf then Some (take n buf, n) else None)
      | BodyChunked \<Rightarrow>
          res_bind (chunked_decode H buf) (\<lambda>c.
            Inr (case c of ChunkedComplete body consumed \<Rightarrow> Some (body, consumed) | ChunkedIncomplete \<Rightarrow> None)))"

section \<open>Readers\<close>

text \<open>\<open>None\<close> is \<open>Parsed::Partial\<close>.\<close>

definition request_parse ::
  "httparse_ops \<Rightarrow> ('q, 'r) http_ops \<Rightarrow> bytes \<Rightarrow> (request_error wire_failure, 'q option) result" where
  "request_parse H T buf =
     (case parse_request H MAX_HEADERS buf of
        Inl TooManyHeaders \<Rightarrow> Inl (WireFails RequestHeaderCountExceeded)
      | Inl OtherParseError \<Rightarrow> Inl (WireFails RequestMalformed)
      | Inr None \<Rightarrow> Inr None
      | Inr (Some (header_len, raw)) \<Rightarrow>
          let hs = raw_request_headers raw in
          if find_header ''transfer-encoding'' hs \<noteq> None then
            Inl (WireFails (if find_header ''content-length'' hs \<noteq> None then RequestMalformed else LengthRequired))
          else
            res_bind (wire_err request_error_from (body_framing_of hs)) (\<lambda>framing.
            res_bind (slice_from buf header_len) (\<lambda>rest.
            res_bind (wire_err request_error_from
                (body_framing_read H (case framing of Some f \<Rightarrow> f | None \<Rightarrow> BodyLength 0) rest)) (\<lambda>read.
              case read of
                None \<Rightarrow> Inr None
              | Some (body, _) \<Rightarrow>
                  res_bind (ok_or (WireFails RequestMalformed) (raw_method raw)) (\<lambda>meth.
                  res_bind (ok_or (WireFails RequestMalformed) (raw_path raw)) (\<lambda>path.
                  res_bind (ok_or (WireFails RequestMalformed) (build_request T meth path hs body)) (\<lambda>q. Inr (Some q))))))))"

definition response_parse ::
  "httparse_ops \<Rightarrow> ('q, 'r) http_ops \<Rightarrow> bytes \<Rightarrow> (response_error wire_failure, 'r option) result" where
  "response_parse H T buf =
     (case parse_response H MAX_HEADERS buf of
        Inl TooManyHeaders \<Rightarrow> Inl (WireFails ResponseHeaderCountExceeded)
      | Inl OtherParseError \<Rightarrow> Inl (WireFails ResponseMalformed)
      | Inr None \<Rightarrow> Inr None
      | Inr (Some (header_len, raw)) \<Rightarrow>
          let hs = raw_response_headers raw in
          res_bind (wire_err response_error_from (body_framing_of hs)) (\<lambda>framing.
          res_bind (ok_or (WireFails UnboundedBody) framing) (\<lambda>framing.
          res_bind (slice_from buf header_len) (\<lambda>rest.
          res_bind (wire_err response_error_from (body_framing_read H framing rest)) (\<lambda>read.
            case read of
              None \<Rightarrow> Inr None
            | Some (body, _) \<Rightarrow>
                res_bind (ok_or (WireFails ResponseMalformed) (raw_code raw)) (\<lambda>code.
                res_bind (ok_or (WireFails ResponseMalformed) (build_response T code hs body)) (\<lambda>r. Inr (Some r))))))))"

section \<open>Writers\<close>

datatype wire_error = InvalidHeaderValue | InvalidTarget

definition VERSION :: string where "VERSION = ''HTTP/1.1''"

definition status_line :: "('q, 'r) http_ops \<Rightarrow> nat \<Rightarrow> string" where
  "status_line T status =
     VERSION @ '' '' @ dec status @ '' '' @ (case canonical_reason T status of Some r \<Rightarrow> r | None \<Rightarrow> []) @ crlf"

definition request_line :: "string \<Rightarrow> string \<Rightarrow> string" where
  "request_line meth target = meth @ '' '' @ target @ '' '' @ VERSION @ crlf"

definition push_header :: "string \<Rightarrow> http_header \<Rightarrow> string" where
  "push_header head = (\<lambda>(name, v). head @ name @ '': '' @ from_utf8_lossy v @ crlf)"

definition serialize :: "('q, 'r) http_ops \<Rightarrow> string \<Rightarrow> http_header list \<Rightarrow> string \<Rightarrow> bytes" where
  "serialize T start_line headers body =
     (let head = foldl (\<lambda>head (name, v).
            if name = ''content-length'' \<or> name = ''connection'' then head else push_header head (name, v))
            start_line (header_order T headers);
          head = push_header head (''content-length'', as_bytes (dec (length body)));
          head = push_header head (''connection'', as_bytes ''close'')
      in as_bytes (head @ crlf) @ as_bytes body)"

text \<open>A response to write: its status, headers and body.\<close>

definition response_encode :: "('q, 'r) http_ops \<Rightarrow> nat \<Rightarrow> http_header list \<Rightarrow> string \<Rightarrow> bytes" where
  "response_encode T status headers body = serialize T (status_line T status) headers body"

definition CLIENT_USER_AGENT :: string where "CLIENT_USER_AGENT = ''libhttpclient/1.0.0.0''"

definition common_headers :: "('q, 'r) http_ops \<Rightarrow> string \<Rightarrow> (wire_error, http_header list) result" where
  "common_headers T host =
     res_bind (ok_or InvalidHeaderValue (header_value T host)) (\<lambda>h.
     res_bind (ok_or InvalidHeaderValue (header_value T CLIENT_USER_AGENT)) (\<lambda>agent.
       Inr [(''host'', h), (''user-agent'', agent)]))"

definition request_encode ::
  "('q, 'r) http_ops \<Rightarrow> string \<Rightarrow> string \<Rightarrow> http_header list \<Rightarrow> string \<Rightarrow> (wire_error, bytes) result" where
  "request_encode T meth path headers body =
     res_bind (ok_or InvalidTarget (parse_target T path)) (\<lambda>target.
       Inr (serialize T (request_line meth target) headers body))"

definition request_post ::
  "('q, 'r) http_ops \<Rightarrow> string \<Rightarrow> string \<Rightarrow> string \<Rightarrow> string \<Rightarrow> (wire_error, bytes) result" where
  "request_post T host path content_type body =
     res_bind (common_headers T host) (\<lambda>headers.
     res_bind (ok_or InvalidHeaderValue (header_value T content_type)) (\<lambda>v.
       request_encode T ''POST'' path (headers @ [(''content-type'', v)]) body))"

definition request_get :: "('q, 'r) http_ops \<Rightarrow> string \<Rightarrow> string \<Rightarrow> (wire_error, bytes) result" where
  "request_get T host path =
     res_bind (common_headers T host) (\<lambda>headers. request_encode T ''GET'' path headers [])"


section \<open>What the parser crate promises\<close>

text \<open>A completed parse took no more bytes than it was given, and more bytes after those do not change it.\<close>

definition completes :: "(bytes \<Rightarrow> ('e, 'a option) result) \<Rightarrow> ('a \<Rightarrow> nat) \<Rightarrow> bool" where
  "completes parse taken \<longleftrightarrow>
     (\<forall>buf r. parse buf = Inr (Some r) \<longrightarrow> taken r \<le> length buf \<and> (\<forall>ext. parse (buf @ ext) = Inr (Some r)))"

definition httparse_laws :: "httparse_ops \<Rightarrow> bool" where
  "httparse_laws H \<longleftrightarrow>
     completes (parse_chunk_size H) fst \<and> completes (parse_headers H MAX_HEADERS) (\<lambda>n. n) \<and>
     completes (parse_request H MAX_HEADERS) fst \<and> completes (parse_response H MAX_HEADERS) fst"

lemma completesD:
  assumes "completes parse taken" "parse buf = Inr (Some r)"
  shows "taken r \<le> length buf" "parse (buf @ ext) = Inr (Some r)"
  using assms by (auto simp: completes_def)

lemma slice_from_eq [simp]:
  "slice_from buf at = Inr rest \<longleftrightarrow> at \<le> length buf \<and> rest = drop at buf"
  "slice_from buf at = Inl e \<longleftrightarrow> length buf < at \<and> e = WirePanics"
  by (auto simp: slice_from_def)

lemma trailer_len_complete:
  "trailer_len H rest = Inr (Some n) \<longleftrightarrow> parse_headers H MAX_HEADERS rest = Inr (Some n)"
  "trailer_len H rest \<noteq> Inl WirePanics"
  by (cases "parse_headers H MAX_HEADERS rest"; simp add: trailer_len_def)+

section \<open>The chunked decoder\<close>

lemma chunk_round_return:
  "chunk_round H buf body at = Inr (ChunkReturn (ChunkedComplete b m)) \<longleftrightarrow>
   (\<exists>line_len len. at \<le> length buf \<and> parse_chunk_size H (drop at buf) = Inr (Some (line_len, 0)) \<and>
      at + line_len \<le> length buf \<and> parse_headers H MAX_HEADERS (drop (at + line_len) buf) = Inr (Some len) \<and>
      b = body \<and> m = at + line_len + len)"
  by (auto simp: chunk_round_def Let_def res_simps trailer_len_complete
      split: sum.splits option.splits if_splits)

lemma chunk_round_no_panic:
  assumes "httparse_laws H" "at \<le> length buf"
  shows "chunk_round H buf body at \<noteq> Inl WirePanics"
proof
  assume panic: "chunk_round H buf body at = Inl WirePanics"
  then obtain line_len where
    line: "parse_chunk_size H (drop at buf) = Inr (Some (line_len, 0))" "length buf < at + line_len"
    using assms(2)
    by (auto simp: chunk_round_def Let_def res_simps trailer_len_complete
        split: sum.splits option.splits if_splits)
  moreover have "completes (parse_chunk_size H) fst"
    using assms(1) by (simp add: httparse_laws_def)
  ultimately have "line_len \<le> length (drop at buf)"
    using completesD(1) [of "parse_chunk_size H" fst, OF _ line(1)] by simp
  with line(2) assms(2) show False by simp
qed

lemma chunked_decode_at_safe:
  assumes "httparse_laws H"
  shows "at \<le> length buf \<Longrightarrow> length body \<le> MAX_BODY \<Longrightarrow>
    chunked_decode_at H buf body at \<noteq> Inl WirePanics \<and>
    (\<forall>b m. chunked_decode_at H buf body at = Inr (ChunkedComplete b m) \<longrightarrow> length b \<le> MAX_BODY \<and> m \<le> length buf)"
  using assms
proof (induction H buf body at rule: chunked_decode_at.induct)
  case (1 H buf body at)
  have laws: "completes (parse_headers H MAX_HEADERS) (\<lambda>n. n)"
    using "1.prems"(3) by (simp add: httparse_laws_def)
  show ?case
  proof (cases "chunk_round H buf body at")
    case (Inl e)
    then show ?thesis
      using chunk_round_no_panic [OF "1.prems"(3) "1.prems"(1), of body] chunked_decode_at.simps [of H buf body at]
      by simp
  next
    case (Inr flow)
    show ?thesis
    proof (cases flow)
      case (ChunkReturn r)
      have "length b \<le> MAX_BODY \<and> m \<le> length buf" if "r = ChunkedComplete b m" for b m
        using Inr ChunkReturn that "1.prems"(2) completesD(1) [OF laws]
        by (fastforce simp: chunk_round_return)
      then show ?thesis
        using Inr ChunkReturn chunked_decode_at.simps [of H buf body at] by auto
    next
      case (ChunkNext body' at')
      then have "at' \<le> length buf" "length body' \<le> MAX_BODY"
        using Inr "1.prems"(2) by (auto simp: chunk_round_next)
      then show ?thesis
        using "1.IH" [OF Inr ChunkNext] "1.prems"(3) Inr ChunkNext chunked_decode_at.simps [of H buf body at]
        by simp
    qed
  qed
qed

text \<open>More bytes do not change a round that ended the body or took a chunk.\<close>

lemma chunk_round_append:
  assumes "httparse_laws H"
    "chunk_round H buf body at = Inr (ChunkNext body' at') \<and> flow = ChunkNext body' at' \<or>
     chunk_round H buf body at = Inr (ChunkReturn (ChunkedComplete b m)) \<and> flow = ChunkReturn (ChunkedComplete b m)"
  shows "chunk_round H (buf @ ext) body at = Inr flow"
proof -
  have laws: "completes (parse_chunk_size H) fst" "completes (parse_headers H MAX_HEADERS) (\<lambda>n. n)"
    using assms(1) by (simp_all add: httparse_laws_def)
  from assms(2) show ?thesis
  proof (elim disjE conjE)
    assume round: "chunk_round H buf body at = Inr (ChunkNext body' at')" and flow: "flow = ChunkNext body' at'"
    from round obtain line_len n where *: "at \<le> length buf"
      "parse_chunk_size H (drop at buf) = Inr (Some (line_len, n))" "0 < n" "n \<le> MAX_BODY - length body"
      "at' = at + line_len + n + 2" "at' \<le> length buf" "take 2 (drop (at + line_len + n) buf) = CRLF"
      "body' = body @ take n (drop (at + line_len) buf)"
      unfolding chunk_round_next by blast
    have "take 2 (drop (at + line_len + n) (buf @ ext)) = CRLF"
      "take n (drop (at + line_len) (buf @ ext)) = take n (drop (at + line_len) buf)"
      using * by simp_all
    then show ?thesis
      unfolding flow chunk_round_next
      using * completesD(2) [OF laws(1) *(2), of ext] by (intro exI [of _ line_len] exI [of _ n]) simp
  next
    assume round: "chunk_round H buf body at = Inr (ChunkReturn (ChunkedComplete b m))"
      and flow: "flow = ChunkReturn (ChunkedComplete b m)"
    from round obtain line_len len where *: "at \<le> length buf"
      "parse_chunk_size H (drop at buf) = Inr (Some (line_len, 0))" "at + line_len \<le> length buf"
      "parse_headers H MAX_HEADERS (drop (at + line_len) buf) = Inr (Some len)" "b = body" "m = at + line_len + len"
      unfolding chunk_round_return by blast
    show ?thesis
      unfolding flow chunk_round_return
      using * completesD(2) [OF laws(1) *(2), of ext] completesD(2) [OF laws(2) *(4), of ext]
      by (intro exI [of _ line_len] exI [of _ len]) simp
  qed
qed

lemma chunked_decode_at_append:
  assumes "httparse_laws H"
  shows "chunked_decode_at H buf body at = Inr (ChunkedComplete b m) \<Longrightarrow>
    chunked_decode_at H (buf @ ext) body at = Inr (ChunkedComplete b m)"
  using assms
proof (induction H buf body at rule: chunked_decode_at.induct)
  case (1 H buf body at)
  show ?case
  proof (cases "chunk_round H buf body at")
    case (Inl e)
    then show ?thesis using "1.prems"(1) by (simp add: chunked_decode_at.simps)
  next
    case (Inr flow)
    show ?thesis
    proof (cases flow)
      case (ChunkReturn r)
      then have "r = ChunkedComplete b m"
        using "1.prems"(1) Inr by (simp add: chunked_decode_at.simps [of H buf])
      then show ?thesis
        using chunk_round_append [OF "1.prems"(2), of buf body at] Inr ChunkReturn
        by (simp add: chunked_decode_at.simps [of H "buf @ ext"])
    next
      case (ChunkNext body' at')
      then have "chunked_decode_at H (buf @ ext) body' at' = Inr (ChunkedComplete b m)"
        using "1.IH" [OF Inr ChunkNext] "1.prems" Inr by (simp add: chunked_decode_at.simps [of H buf body at])
      then show ?thesis
        using chunk_round_append [OF "1.prems"(2), of buf body at] Inr ChunkNext
        by (simp add: chunked_decode_at.simps [of H "buf @ ext" body at])
    qed
  qed
qed

text \<open>The chunked encoding with the size lines \<open>line n\<close>, then the last chunk and the trailers.\<close>

definition chunked_encode :: "(nat \<Rightarrow> bytes) \<Rightarrow> bytes list \<Rightarrow> bytes \<Rightarrow> bytes" where
  "chunked_encode line cs trailers = concat (map (\<lambda>c. line (length c) @ c @ CRLF) cs) @ line 0 @ trailers"

definition reads_sizes :: "httparse_ops \<Rightarrow> (nat \<Rightarrow> bytes) \<Rightarrow> nat set \<Rightarrow> bool" where
  "reads_sizes H line ns \<longleftrightarrow>
     (\<forall>n\<in>ns. \<forall>rest. parse_chunk_size H (line n @ rest) = Inr (Some (length (line n), n)))"

lemma chunked_decode_at_encode:
  assumes "reads_sizes H line (insert 0 (length ` set cs))" "\<forall>c\<in>set cs. c \<noteq> []"
    "parse_headers H MAX_HEADERS (trailers @ rest) = Inr (Some (length trailers))"
    "length body + length (concat cs) \<le> MAX_BODY"
  shows "chunked_decode_at H (pre @ chunked_encode line cs trailers @ rest) body (length pre) =
    Inr (ChunkedComplete (body @ concat cs) (length pre + length (chunked_encode line cs trailers)))"
  using assms
proof (induction cs arbitrary: pre body)
  case Nil
  let ?buf = "pre @ chunked_encode line [] trailers @ rest"
  have "chunk_round H ?buf body (length pre) =
      Inr (ChunkReturn (ChunkedComplete body (length pre + length (line 0) + length trailers)))"
    unfolding chunk_round_return using Nil(1,3)
    by (intro exI [of _ "length (line 0)"] exI [of _ "length trailers"])
      (auto simp: chunked_encode_def reads_sizes_def)
  then show ?case by (subst chunked_decode_at.simps) (simp add: chunked_encode_def)
next
  case (Cons c cs)
  let ?pre = "pre @ line (length c) @ c @ CRLF"
  have buf: "pre @ chunked_encode line (c # cs) trailers @ rest = ?pre @ chunked_encode line cs trailers @ rest"
    by (simp add: chunked_encode_def)
  have "chunk_round H (?pre @ chunked_encode line cs trailers @ rest) body (length pre) =
      Inr (ChunkNext (body @ c) (length ?pre))"
    unfolding chunk_round_next using Cons.prems
    by (intro exI [of _ "length (line (length c))"] exI [of _ "length c"])
      (auto simp: reads_sizes_def CRLF_def)
  moreover have "chunked_decode_at H (?pre @ chunked_encode line cs trailers @ rest) (body @ c) (length ?pre) =
      Inr (ChunkedComplete ((body @ c) @ concat cs) (length ?pre + length (chunked_encode line cs trailers)))"
    by (rule Cons.IH) (use Cons.prems in \<open>auto simp: reads_sizes_def\<close>)
  ultimately show ?case
    unfolding buf by (subst chunked_decode_at.simps) (simp add: chunked_encode_def)
qed

section \<open>Readers and more bytes\<close>

lemma body_framing_read_Some:
  "body_framing_read H framing buf = Inr (Some (b, m)) \<longleftrightarrow>
   (\<exists>n. framing = BodyLength n \<and> n \<le> length buf \<and> b = take n buf \<and> m = n) \<or>
   framing = BodyChunked \<and> chunked_decode H buf = Inr (ChunkedComplete b m)"
proof (cases framing)
  case BodyChunked
  then show ?thesis
    by (cases "chunked_decode H buf") (auto simp: body_framing_read_def split: chunked_body.splits)
qed (auto simp: body_framing_read_def)

lemma body_framing_read_append:
  assumes "httparse_laws H" "body_framing_read H framing buf = Inr (Some r)"
  shows "body_framing_read H framing (buf @ ext) = Inr (Some r)"
proof -
  obtain b m where "r = (b, m)" by (cases r)
  with assms show ?thesis
    using chunked_decode_at_append [OF assms(1), of buf "[]" 0]
    by (auto simp: body_framing_read_Some chunked_decode_def)
qed

lemma body_framing_read_no_panic:
  assumes "httparse_laws H"
  shows "body_framing_read H framing buf \<noteq> Inl WirePanics"
  using chunked_decode_at_safe [OF assms, of 0 buf "[]"]
  by (auto simp: body_framing_read_def chunked_decode_def res_simps split: body_framing.splits)

lemma body_framing_of_no_panic: "body_framing_of hs \<noteq> Inl WirePanics"
  by (simp add: body_framing_of_def split: option.splits)

lemma body_framing_of_bound: "body_framing_of hs = Inr (Some (BodyLength n)) \<Longrightarrow> n \<le> MAX_BODY"
  by (auto simp: body_framing_of_def split: option.splits if_splits)

lemma body_read_bound:
  assumes "httparse_laws H" "body_framing_of hs = Inr framing"
    "body_framing_read H (case framing of Some f \<Rightarrow> f | None \<Rightarrow> BodyLength 0) buf = Inr (Some (b, m))"
  shows "length b \<le> MAX_BODY \<and> m \<le> length buf"
  using assms(2,3) chunked_decode_at_safe [OF assms(1), of 0 buf "[]"] body_framing_of_bound [of hs]
  by (auto simp: body_framing_read_Some chunked_decode_def split: option.splits)

lemma wire_err_eq [simp]:
  "wire_err f r = Inr a \<longleftrightarrow> r = Inr a"
  "wire_err f r = Inl WirePanics \<longleftrightarrow> r = Inl WirePanics"
  by (cases r; auto simp: wire_err_def split: wire_failure.splits)+

lemma parse_result_cases:
  obtains "r = Inl TooManyHeaders" | "r = Inl OtherParseError" | "r = Inr None" | n raw where "r = Inr (Some (n, raw))"
proof (cases r)
  case (Inl e)
  then show ?thesis using that by (cases e) simp_all
next
  case (Inr o')
  then show ?thesis using that by (cases o') auto
qed

lemma partial_or:
  "(case r of None \<Rightarrow> Inr None | Some (a, b) \<Rightarrow> f a b) = Inr (Some q) \<longleftrightarrow> (\<exists>a b. r = Some (a, b) \<and> f a b = Inr (Some q))"
  by (cases r) auto

lemma request_parse_complete:
  "request_parse H T buf = Inr (Some q) \<longleftrightarrow>
   (\<exists>header_len raw framing body m meth path.
      parse_request H MAX_HEADERS buf = Inr (Some (header_len, raw)) \<and>
      find_header ''transfer-encoding'' (raw_request_headers raw) = None \<and>
      body_framing_of (raw_request_headers raw) = Inr framing \<and> header_len \<le> length buf \<and>
      body_framing_read H (case framing of Some f \<Rightarrow> f | None \<Rightarrow> BodyLength 0) (drop header_len buf) = Inr (Some (body, m)) \<and>
      raw_method raw = Some meth \<and> raw_path raw = Some path \<and>
      build_request T meth path (raw_request_headers raw) body = Some q)"
proof (cases "parse_request H MAX_HEADERS buf" rule: parse_result_cases)
  case (4 n raw)
  then show ?thesis
    by (cases "find_header ''transfer-encoding'' (raw_request_headers raw)")
      (simp_all add: request_parse_def Let_def res_bind_eq_Inr partial_or, blast)
qed (simp_all add: request_parse_def)

lemma response_parse_complete:
  "response_parse H T buf = Inr (Some r) \<longleftrightarrow>
   (\<exists>header_len raw framing body m code.
      parse_response H MAX_HEADERS buf = Inr (Some (header_len, raw)) \<and>
      body_framing_of (raw_response_headers raw) = Inr (Some framing) \<and> header_len \<le> length buf \<and>
      body_framing_read H framing (drop header_len buf) = Inr (Some (body, m)) \<and>
      raw_code raw = Some code \<and> build_response T code (raw_response_headers raw) body = Some r)"
proof (cases "parse_response H MAX_HEADERS buf" rule: parse_result_cases)
  case (4 n raw)
  then show ?thesis
    by (simp add: response_parse_def Let_def res_bind_eq_Inr partial_or) blast
qed (simp_all add: response_parse_def)

lemma request_parse_append:
  assumes "httparse_laws H" "request_parse H T buf = Inr (Some q)"
  shows "request_parse H T (buf @ ext) = Inr (Some q)"
proof -
  have laws: "completes (parse_request H MAX_HEADERS) fst"
    using assms(1) by (simp add: httparse_laws_def)
  from assms(2) obtain header_len raw framing body m meth path where
    *: "parse_request H MAX_HEADERS buf = Inr (Some (header_len, raw))"
      "find_header ''transfer-encoding'' (raw_request_headers raw) = None"
      "body_framing_of (raw_request_headers raw) = Inr framing" "header_len \<le> length buf"
      "body_framing_read H (case framing of Some f \<Rightarrow> f | None \<Rightarrow> BodyLength 0) (drop header_len buf) = Inr (Some (body, m))"
      "raw_method raw = Some meth" "raw_path raw = Some path"
      "build_request T meth path (raw_request_headers raw) body = Some q"
    unfolding request_parse_complete by blast
  moreover have "drop header_len (buf @ ext) = drop header_len buf @ ext"
    using *(4) by simp
  ultimately show ?thesis
    using completesD(2) [OF laws *(1), of ext] body_framing_read_append [OF assms(1) *(5), of ext]
    unfolding request_parse_complete by fastforce
qed

lemma response_parse_append:
  assumes "httparse_laws H" "response_parse H T buf = Inr (Some r)"
  shows "response_parse H T (buf @ ext) = Inr (Some r)"
proof -
  have laws: "completes (parse_response H MAX_HEADERS) fst"
    using assms(1) by (simp add: httparse_laws_def)
  from assms(2) obtain header_len raw framing body m code where
    *: "parse_response H MAX_HEADERS buf = Inr (Some (header_len, raw))"
      "body_framing_of (raw_response_headers raw) = Inr (Some framing)" "header_len \<le> length buf"
      "body_framing_read H framing (drop header_len buf) = Inr (Some (body, m))"
      "raw_code raw = Some code" "build_response T code (raw_response_headers raw) body = Some r"
    unfolding response_parse_complete by blast
  moreover have "drop header_len (buf @ ext) = drop header_len buf @ ext"
    using *(3) by simp
  ultimately show ?thesis
    using completesD(2) [OF laws *(1), of ext] body_framing_read_append [OF assms(1) *(4), of ext]
    unfolding response_parse_complete by fastforce
qed

lemma parse_no_panic:
  assumes "httparse_laws H"
  shows "request_parse H T buf \<noteq> Inl WirePanics" "response_parse H T buf \<noteq> Inl WirePanics"
proof -
  have laws: "completes (parse_request H MAX_HEADERS) fst" "completes (parse_response H MAX_HEADERS) fst"
    using assms by (simp_all add: httparse_laws_def)
  show "request_parse H T buf \<noteq> Inl WirePanics"
  proof (cases "parse_request H MAX_HEADERS buf" rule: parse_result_cases)
    case (4 n raw)
    then show ?thesis
      using completesD(1) [OF laws(1) 4] body_framing_of_no_panic body_framing_read_no_panic [OF assms]
      by (auto simp: request_parse_def Let_def res_bind_eq_Inl split: option.split_asm)
  qed (simp_all add: request_parse_def)
  show "response_parse H T buf \<noteq> Inl WirePanics"
  proof (cases "parse_response H MAX_HEADERS buf" rule: parse_result_cases)
    case (4 n raw)
    then show ?thesis
      using completesD(1) [OF laws(2) 4] body_framing_of_no_panic body_framing_read_no_panic [OF assms]
      by (auto simp: response_parse_def Let_def res_bind_eq_Inl split: option.split_asm)
  qed (simp_all add: response_parse_def)
qed

section \<open>What is written is what is read\<close>

definition kept_headers :: "http_header list \<Rightarrow> http_header list" where
  "kept_headers hs = filter (\<lambda>(name, _). name \<noteq> ''content-length'' \<and> name \<noteq> ''connection'') hs"

text \<open>The headers as they stand in a written message.\<close>

definition written_headers :: "('q, 'r) http_ops \<Rightarrow> http_header list \<Rightarrow> string \<Rightarrow> http_header list" where
  "written_headers T headers body =
     map (\<lambda>(name, v). (name, utf8_lossy v)) (kept_headers (header_order T headers)) @
     [(''content-length'', as_bytes (dec (length body))), (''connection'', as_bytes ''close'')]"

definition head_text :: "string \<Rightarrow> http_header list \<Rightarrow> string" where
  "head_text start hs = start @ concat (map (\<lambda>(name, v). name @ '': '' @ str_of v @ crlf) hs) @ crlf"

lemma serialize_fold:
  "foldl (\<lambda>head (name, v). if name = ''content-length'' \<or> name = ''connection'' then head else push_header head (name, v))
     start hs =
   start @ concat (map (\<lambda>(name, v). name @ '': '' @ str_of v @ crlf)
     (map (\<lambda>(name, v). (name, utf8_lossy v)) (kept_headers hs)))"
  by (induction hs arbitrary: start)
    (auto simp: kept_headers_def push_header_def from_utf8_lossy_def)

lemma utf8_lossy_ascii: "\<forall>b\<in>set bs. b < 0x80 \<Longrightarrow> utf8_lossy bs = bs"
  by (induction bs) (auto simp: utf8_lossy.simps(2))

lemma as_bytes_ascii: "is_ascii s \<Longrightarrow> \<forall>b\<in>set (as_bytes s). b < 0x80"
  by (auto simp: is_ascii_def list_all_iff as_bytes_def byte_of_char_def word_less_nat_alt unat_of_nat)

lemma serialize_eq:
  "serialize T start headers body = as_bytes (head_text start (written_headers T headers body)) @ as_bytes body"
proof -
  have "from_utf8_lossy (as_bytes (dec n)) = dec n" "from_utf8_lossy (as_bytes ''close'') = ''close''" for n
    using utf8_lossy_ascii [OF as_bytes_ascii [OF dec_ascii [of n]]]
      utf8_lossy_ascii [OF as_bytes_ascii [of "''close''"]]
    by (simp_all add: from_utf8_lossy_def is_ascii_def)
  then show ?thesis
    by (simp add: serialize_def serialize_fold head_text_def written_headers_def push_header_def del: as_bytes_append)
qed

text \<open>No header is about the transfer encoding, and a content length is named in lower case, as \<open>HeaderMap\<close> names are.\<close>

definition plain_names :: "http_header list \<Rightarrow> bool" where
  "plain_names hs \<longleftrightarrow>
     (\<forall>(n, _)\<in>set hs. \<not> eq_ignore_ascii_case n ''transfer-encoding'' \<and>
        (eq_ignore_ascii_case n ''content-length'' \<longrightarrow> n = ''content-length''))"

lemma find_header_None:
  "find_header name hs = None \<longleftrightarrow> (\<forall>(n, _)\<in>set hs. \<not> eq_ignore_ascii_case n name)"
  by (auto simp: find_header_def find_None_iff)

lemma find_header_append:
  "find_header name (as @ bs) = (case find_header name as of None \<Rightarrow> find_header name bs | Some v \<Rightarrow> Some v)"
  by (induction as) (auto simp: find_header_def)

lemma written_framing:
  assumes "plain_names (header_order T headers)" "length body \<le> MAX_BODY"
  shows "find_header ''transfer-encoding'' (written_headers T headers body) = None"
    "body_framing_of (written_headers T headers body) = Inr (Some (BodyLength (length body)))"
proof -
  have names: "\<not> eq_ignore_ascii_case ''content-length'' ''transfer-encoding''"
    "\<not> eq_ignore_ascii_case ''connection'' ''transfer-encoding''"
    "eq_ignore_ascii_case ''content-length'' ''content-length''"
    by code_simp+
  show te: "find_header ''transfer-encoding'' (written_headers T headers body) = None"
    using assms(1) names by (auto simp: find_header_None written_headers_def kept_headers_def plain_names_def)
  have "find_header ''content-length'' (map (\<lambda>(name, v). (name, utf8_lossy v)) (kept_headers (header_order T headers))) = None"
    using assms(1) by (auto simp: find_header_None kept_headers_def plain_names_def)
  then have cl: "find_header ''content-length'' (written_headers T headers body) = Some (as_bytes (dec (length body)))"
    using names by (simp add: written_headers_def find_header_append) (simp add: find_header_def)
  have "parse_u64 (trim (dec (length body))) = Some (of_nat (length body))"
    using assms(2) dec_digits [of "length body"]
    by (subst trim_graphic)
      (auto simp: parse_u64_def MAX_BODY_def list_all_iff is_digit_def is_graphic_def)
  moreover have "unat (of_nat (length body) :: u64) = length body"
    using assms(2) by (simp add: unat_of_nat MAX_BODY_def)
  moreover have "from_utf8 (as_bytes (dec (length body))) = Some (dec (length body))"
    by (simp add: is_ascii_is_str)
  ultimately show "body_framing_of (written_headers T headers body) = Inr (Some (BodyLength (length body)))"
    using assms(2) by (simp add: body_framing_of_def te cl)
qed

text \<open>What \<open>httparse\<close> does with a written head: nothing before its last byte, and then it gives back its parts.\<close>

definition reads_request_head :: "httparse_ops \<Rightarrow> string \<Rightarrow> string \<Rightarrow> http_header list \<Rightarrow> bool" where
  "reads_request_head H meth target hs \<longleftrightarrow>
     (let head = as_bytes (head_text (request_line meth target) hs) in
      (\<forall>rest. parse_request H MAX_HEADERS (head @ rest) =
         Inr (Some (length head, \<lparr>raw_method = Some meth, raw_path = Some target, raw_request_headers = hs\<rparr>))) \<and>
      (\<forall>k<length head. parse_request H MAX_HEADERS (take k head) = Inr None))"

definition reads_response_head :: "httparse_ops \<Rightarrow> string \<Rightarrow> nat \<Rightarrow> http_header list \<Rightarrow> bool" where
  "reads_response_head H start code hs \<longleftrightarrow>
     (let head = as_bytes (head_text start hs) in
      (\<forall>rest. parse_response H MAX_HEADERS (head @ rest) =
         Inr (Some (length head, \<lparr>raw_code = Some code, raw_response_headers = hs\<rparr>))) \<and>
      (\<forall>k<length head. parse_response H MAX_HEADERS (take k head) = Inr None))"

lemma request_encode_read:
  assumes "reads_request_head H meth target (written_headers T headers body)"
    "plain_names (header_order T headers)" "length body \<le> MAX_BODY"
  defines "wire \<equiv> serialize T (request_line meth target) headers body"
  shows "request_parse H T wire =
      (case build_request T meth target (written_headers T headers body) (as_bytes body) of
         Some q \<Rightarrow> Inr (Some q) | None \<Rightarrow> Inl (WireFails RequestMalformed))"
    "k < length wire \<Longrightarrow> request_parse H T (take k wire) = Inr None"
proof -
  let ?hs = "written_headers T headers body"
  let ?head = "as_bytes (head_text (request_line meth target) ?hs)"
  have wire: "wire = ?head @ as_bytes body" by (simp add: wire_def serialize_eq)
  have whole: "parse_request H MAX_HEADERS (?head @ rest) =
      Inr (Some (length ?head, \<lparr>raw_method = Some meth, raw_path = Some target, raw_request_headers = ?hs\<rparr>))" for rest
    using assms(1) unfolding reads_request_head_def Let_def by blast
  note framing = written_framing [OF assms(2,3)]
  show "request_parse H T wire =
      (case build_request T meth target ?hs (as_bytes body) of
         Some q \<Rightarrow> Inr (Some q) | None \<Rightarrow> Inl (WireFails RequestMalformed))"
    unfolding wire request_parse_def whole
    by (simp add: framing body_framing_read_def slice_from_def wire_err_def split: option.split)
  assume k: "k < length wire"
  show "request_parse H T (take k wire) = Inr None"
  proof (cases "k < length ?head")
    case True
    then have "parse_request H MAX_HEADERS (take k wire) = Inr None"
      using assms(1) unfolding reads_request_head_def Let_def wire by simp
    then show ?thesis by (simp add: request_parse_def)
  next
    case False
    then have "take k wire = ?head @ take (k - length ?head) (as_bytes body)" by (simp add: wire)
    moreover have "\<not> length body \<le> k - length ?head" using False k by (simp add: wire)
    ultimately show ?thesis
      unfolding request_parse_def
      by (simp add: Let_def whole framing body_framing_read_def slice_from_def wire_err_def wire)
  qed
qed

lemma response_encode_read:
  assumes "reads_response_head H (status_line T status) status (written_headers T headers body)"
    "plain_names (header_order T headers)" "length body \<le> MAX_BODY"
  shows "response_parse H T (response_encode T status headers body) =
      (case build_response T status (written_headers T headers body) (as_bytes body) of
         Some r \<Rightarrow> Inr (Some r) | None \<Rightarrow> Inl (WireFails ResponseMalformed))"
proof -
  let ?hs = "written_headers T headers body"
  let ?head = "as_bytes (head_text (status_line T status) ?hs)"
  have wire: "response_encode T status headers body = ?head @ as_bytes body"
    by (simp add: response_encode_def serialize_eq)
  have whole: "parse_response H MAX_HEADERS (?head @ rest) =
      Inr (Some (length ?head, \<lparr>raw_code = Some status, raw_response_headers = ?hs\<rparr>))" for rest
    using assms(1) unfolding reads_response_head_def Let_def by blast
  show ?thesis
    unfolding wire response_parse_def whole
    by (simp add: written_framing [OF assms(2,3)] body_framing_read_def slice_from_def wire_err_def split: option.split)
qed

section \<open>Properties\<close>

text \<open>A parser of one-digit size lines and of empty trailers, which reads the head it is given and no other.\<close>

fun digit_line :: "bytes \<Rightarrow> (unit, (nat \<times> nat) option) result" where
  "digit_line (d # cr # lf # rest) =
     (if 48 \<le> d \<and> d \<le> 57 \<and> [cr, lf] = CRLF then Inr (Some (3, unat (d - 48))) else Inl ())"
| "digit_line _ = Inr None"

fun empty_trailers :: "bytes \<Rightarrow> (parse_error, nat option) result" where
  "empty_trailers (cr # lf # rest) = (if [cr, lf] = CRLF then Inr (Some 2) else Inl OtherParseError)"
| "empty_trailers _ = Inr None"

definition one_head :: "bytes \<Rightarrow> 'a \<Rightarrow> bytes \<Rightarrow> (parse_error, (nat \<times> 'a) option) result" where
  "one_head head raw buf =
     (if take (length head) buf = head then Inr (Some (length head, raw))
      else if take (length buf) head = buf then Inr None else Inl OtherParseError)"

definition sample_httparse :: "bytes \<Rightarrow> raw_request \<Rightarrow> bytes \<Rightarrow> raw_response \<Rightarrow> httparse_ops" where
  "sample_httparse qhead q rhead r =
     \<lparr>parse_chunk_size = digit_line, parse_headers = (\<lambda>_. empty_trailers),
      parse_request = (\<lambda>_. one_head qhead q), parse_response = (\<lambda>_. one_head rhead r)\<rparr>"

definition sample_http :: "(string \<times> string \<times> http_header list \<times> bytes, nat \<times> http_header list \<times> bytes) http_ops" where
  "sample_http =
     \<lparr>build_request = (\<lambda>m t hs b. Some (m, t, hs, b)), build_response = (\<lambda>c hs b. Some (c, hs, b)),
      header_value = (\<lambda>s. if list_all is_graphic s then Some (as_bytes s) else None),
      parse_target = (\<lambda>s. if starts_with s ''/'' then Some s else None),
      header_order = rev, canonical_reason = (\<lambda>c. if c = 200 then Some ''OK'' else None)\<rparr>"

lemma digit_line_completes: "completes digit_line fst"
proof -
  have "fst r \<le> length buf \<and> (\<forall>ext. digit_line (buf @ ext) = Inr (Some r))"
    if "digit_line buf = Inr (Some r)" for buf r
    using that by (cases buf rule: digit_line.cases) (auto split: if_splits)
  then show ?thesis by (simp add: completes_def)
qed

lemma empty_trailers_completes: "completes empty_trailers (\<lambda>n. n)"
proof -
  have "n \<le> length buf \<and> (\<forall>ext. empty_trailers (buf @ ext) = Inr (Some n))"
    if "empty_trailers buf = Inr (Some n)" for buf n
    using that by (cases buf rule: empty_trailers.cases) (auto split: if_splits)
  then show ?thesis by (simp add: completes_def)
qed

lemma one_head_completes: "completes (one_head head raw) fst"
  unfolding completes_def
proof (intro allI impI conjI)
  fix buf r
  assume some: "one_head head raw buf = Inr (Some r)"
  then have head: "take (length head) buf = head" and r: "r = (length head, raw)"
    by (auto simp: one_head_def split: if_splits)
  have "length (take (length head) buf) = length head" using head by simp
  then have len: "length head \<le> length buf" by simp
  then show "fst r \<le> length buf" using r by simp
  show "one_head head raw (buf @ ext) = Inr (Some r)" for ext
    using head len r by (simp add: one_head_def)
qed

lemma one_head_reads:
  "one_head head raw (head @ rest) = Inr (Some (length head, raw))"
  "k < length head \<Longrightarrow> one_head head raw (take k head) = Inr None"
proof -
  show "one_head head raw (head @ rest) = Inr (Some (length head, raw))" by (simp add: one_head_def)
  assume k: "k < length head"
  then have "take (length head) (take k head) \<noteq> head"
    by (metis length_take min.absorb2 min.strict_order_iff nat_less_le take_all_iff take_take)
  then show "one_head head raw (take k head) = Inr None" using k by (simp add: one_head_def)
qed

lemma sample_httparse_laws: "httparse_laws (sample_httparse qhead q rhead r)"
  by (simp add: httparse_laws_def sample_httparse_def digit_line_completes empty_trailers_completes one_head_completes)

text \<open>C20: Given any bytes, neither reader panics on a slice; a message read from the bytes that have arrived is the one
  read when more follow; and a chunked body that was read is within the size limit and within the bytes.\<close>

theorem http_readers_safe:
  assumes "httparse_laws H"
  shows "request_parse H T buf \<noteq> Inl WirePanics \<and> response_parse H T buf \<noteq> Inl WirePanics \<and>
    (request_parse H T buf = Inr (Some q) \<longrightarrow> request_parse H T (buf @ ext) = Inr (Some q)) \<and>
    (response_parse H T buf = Inr (Some r) \<longrightarrow> response_parse H T (buf @ ext) = Inr (Some r)) \<and>
    (chunked_decode H buf = Inr (ChunkedComplete body n) \<longrightarrow> length body \<le> MAX_BODY \<and> n \<le> length buf)"
  using parse_no_panic [OF assms, of T buf] request_parse_append [OF assms, of T buf q ext]
    response_parse_append [OF assms, of T buf r ext] chunked_decode_at_safe [OF assms, of 0 buf "[]"]
  by (simp add: chunked_decode_def)

definition sample_response_head :: bytes where
  "sample_response_head = as_bytes (''HTTP/1.1 200 OK'' @ crlf @ ''transfer-encoding: chunked'' @ crlf @ crlf)"

definition sample_chunked :: httparse_ops where
  "sample_chunked =
     sample_httparse [] \<lparr>raw_method = None, raw_path = None, raw_request_headers = []\<rparr>
       sample_response_head \<lparr>raw_code = Some 200, raw_response_headers = [(''Transfer-Encoding'', as_bytes ''chunked'')]\<rparr>"

definition digit_size_line :: "nat \<Rightarrow> bytes" where
  "digit_size_line n = of_nat (48 + n) # CRLF"

definition sample_chunk_bytes :: bytes where
  "sample_chunk_bytes = chunked_encode digit_size_line [as_bytes ''ab'', as_bytes ''c''] CRLF"

definition sample_reply :: "nat \<times> http_header list \<times> bytes" where
  "sample_reply = (200, [(''Transfer-Encoding'', as_bytes ''chunked'')], as_bytes ''abc'')"

lemma sample_reply_read: "response_parse sample_chunked sample_http (sample_response_head @ sample_chunk_bytes) = Inr (Some sample_reply)"
proof -
  let ?H = sample_chunked
  let ?raw = "\<lparr>raw_code = Some 200, raw_response_headers = [(''Transfer-Encoding'', as_bytes ''chunked'')]\<rparr>"
  have "chunked_decode ?H (sample_chunk_bytes @ []) = Inr (ChunkedComplete (as_bytes ''abc'') (length sample_chunk_bytes))"
    unfolding sample_chunk_bytes_def chunked_decode_def
    using chunked_decode_at_encode [of ?H digit_size_line "[as_bytes ''ab'', as_bytes ''c'']" CRLF "[]" "[]" "[]"]
    by (simp add: reads_sizes_def sample_chunked_def sample_httparse_def digit_size_line_def CRLF_def MAX_BODY_def as_bytes_def)
  moreover have "body_framing_of (raw_response_headers ?raw) = Inr (Some BodyChunked)"
    by code_simp
  moreover have "parse_response ?H MAX_HEADERS (sample_response_head @ sample_chunk_bytes) = Inr (Some (length sample_response_head, ?raw))"
    by (simp add: sample_chunked_def sample_httparse_def one_head_reads)
  ultimately show ?thesis
    unfolding response_parse_complete
    by (intro exI [of _ "length sample_response_head"] exI [of _ ?raw] exI [of _ BodyChunked]
        exI [of _ "as_bytes ''abc''"] exI [of _ "length sample_chunk_bytes"] exI [of _ 200])
      (simp add: body_framing_read_Some sample_http_def sample_reply_def)
qed

theorem http_readers_safe_witness:
  "response_parse sample_chunked sample_http (sample_response_head @ sample_chunk_bytes @ as_bytes ''more'') = Inr (Some sample_reply)"
  using http_readers_safe [of sample_chunked sample_http "sample_response_head @ sample_chunk_bytes" _ "as_bytes ''more''" sample_reply]
    sample_reply_read sample_httparse_laws
  by (simp add: sample_chunked_def)

text \<open>C36: The chunked decoder undoes the chunked encoding of any list of non-empty chunks within the size limit, with
  whatever trailers, and takes exactly the bytes of the encoding.\<close>

theorem chunked_round_trip:
  assumes "reads_sizes H line (insert 0 (length ` set cs))" "\<forall>c\<in>set cs. c \<noteq> []"
    "parse_headers H MAX_HEADERS (trailers @ rest) = Inr (Some (length trailers))"
    "length (concat cs) \<le> MAX_BODY"
  shows "chunked_decode H (chunked_encode line cs trailers @ rest) =
    Inr (ChunkedComplete (concat cs) (length (chunked_encode line cs trailers)))"
  using chunked_decode_at_encode [OF assms(1-3), of "[]" "[]"] assms(4) by (simp add: chunked_decode_def)

theorem chunked_round_trip_witness:
  "chunked_decode sample_chunked
     (chunked_encode digit_size_line [as_bytes ''abcd'', as_bytes ''ef''] CRLF @ as_bytes ''next'') =
   Inr (ChunkedComplete (as_bytes ''abcdef'')
     (length (chunked_encode digit_size_line [as_bytes ''abcd'', as_bytes ''ef''] CRLF)))"
proof -
  have "chunked_decode sample_chunked
     (chunked_encode digit_size_line [as_bytes ''abcd'', as_bytes ''ef''] CRLF @ as_bytes ''next'') =
   Inr (ChunkedComplete (concat [as_bytes ''abcd'', as_bytes ''ef''])
     (length (chunked_encode digit_size_line [as_bytes ''abcd'', as_bytes ''ef''] CRLF)))"
    by (rule chunked_round_trip)
      (simp_all add: reads_sizes_def sample_chunked_def sample_httparse_def digit_size_line_def CRLF_def MAX_BODY_def as_bytes_def)
  then show ?thesis by (simp add: as_bytes_def)
qed


definition sample_post_headers :: "http_header list" where
  "sample_post_headers =
     written_headers sample_http [(''host'', as_bytes ''example.org''), (''user-agent'', as_bytes CLIENT_USER_AGENT),
       (''content-type'', as_bytes ''application/sdp'')] ''v=0''"

definition sample_post :: httparse_ops where
  "sample_post =
     sample_httparse (as_bytes (head_text (request_line ''POST'' ''/join'') sample_post_headers))
       \<lparr>raw_method = Some ''POST'', raw_path = Some ''/join'', raw_request_headers = sample_post_headers\<rparr>
       [] \<lparr>raw_code = None, raw_response_headers = []\<rparr>"

lemma sample_post_reads: "reads_request_head sample_post ''POST'' ''/join'' sample_post_headers"
  by (simp add: reads_request_head_def Let_def sample_post_def sample_httparse_def one_head_reads del: length_as_bytes)


end
