(* ===== verification/Http_Stream.thy ===== *)
theory Http_Stream
  imports Poll_Loop Rust_Text
begin

text \<open>
  \<open>bevy-nethernet/src/tcp_wire.rs\<close> and \<open>http_stream.rs\<close>: the byte stream under an HTTP connection, a plain TCP socket or TLS over
  one, and the buffers of a connection.  Sockets and the \<open>rustls\<close> crate are parameters; the two loops over a TLS session are
  bounded by nothing in the program, so they are runs that may not return.  Proved: whatever a stream is asked to do, the
  bytes its wire has accepted followed by the bytes still to send are the bytes that were queued, in order; no call panics;
  and every call returns when the session's buffers are finite.
\<close>

definition READ_CHUNK :: nat where "READ_CHUNK = 4096"
definition MAX_READS_PER_TICK :: nat where "MAX_READS_PER_TICK = 16"

datatype sock_error = IoWouldBlock | IoOther string

text \<open>The last constructor is a panic.\<close>

datatype 'e tcp_error = TcpIo sock_error | TcpTls 'e | TlsNotStarted | WriteZero | TcpPanics

datatype inbound = InboundReceived | InboundIdle | InboundClosed

text \<open>Sockets of type \<open>'s\<close>, TLS sessions of type \<open>'c\<close>, configurations of type \<open>'g\<close>.\<close>

record ('s, 'c, 'g, 'e) wire_ops =
  tcp_read :: "nat \<Rightarrow> 's \<Rightarrow> ('s, sock_error, bytes) step"
  tcp_write :: "bytes \<Rightarrow> 's \<Rightarrow> ('s, sock_error, nat) step"
  server_connection :: "'g \<Rightarrow> ('e, 'c) result"
  read_tls_staged :: "bytes \<Rightarrow> 'c \<Rightarrow> ('c, sock_error, nat) step"
  read_tls :: "'s \<times> 'c \<Rightarrow> ('s \<times> 'c, sock_error, nat) step"
  wants_read :: "'c \<Rightarrow> bool"
  wants_write :: "'c \<Rightarrow> bool"
  process_new_packets :: "'c \<Rightarrow> ('c, 'e, unit) step"
  reader_read :: "nat \<Rightarrow> 'c \<Rightarrow> ('c, sock_error, bytes) step"
  writer_write :: "bytes \<Rightarrow> 'c \<Rightarrow> ('c, sock_error, nat) step"
  write_tls :: "'s \<times> 'c \<Rightarrow> ('s \<times> 'c, sock_error, nat) step"
  send_close_notify :: "'c \<Rightarrow> 'c"

record ('s, 'c, 'g) tls_wire =
  tw_stream :: 's
  tw_config :: "'g option"
  tw_session :: "'c option"
  tw_staged :: bytes
  tw_closing :: bool

datatype ('s, 'c, 'g) wire = WirePlain 's | WireTls "('s, 'c, 'g) tls_wire"

definition wire_tls :: "'s \<Rightarrow> 'g \<Rightarrow> ('s, 'c, 'g) wire" where
  "wire_tls stream config =
     WireTls \<lparr>tw_stream = stream, tw_config = Some config, tw_session = None, tw_staged = [], tw_closing = False\<rparr>"

text \<open>The session a client starts with is given by \<open>rustls\<close> or refused.\<close>

definition wire_tls_client :: "'s \<Rightarrow> ('e, 'c) result \<Rightarrow> ('e, ('s, 'c, 'g) wire) result" where
  "wire_tls_client stream session =
     res_bind session (\<lambda>session. Inr (WireTls
       \<lparr>tw_stream = stream, tw_config = None, tw_session = Some session, tw_staged = [], tw_closing = False\<rparr>))"

definition awaiting_session :: "('s, 'c, 'g) wire \<Rightarrow> bool" where
  "awaiting_session w = (case w of WireTls t \<Rightarrow> tw_session t = None | WirePlain _ \<Rightarrow> False)"

definition begin_session ::
  "('s, 'c, 'g, 'e) wire_ops \<Rightarrow> bytes \<Rightarrow> ('s, 'c, 'g) wire \<Rightarrow> (('s, 'c, 'g) wire, 'e tcp_error, unit) step" where
  "begin_session X leftover w =
     (case w of
        WirePlain _ \<Rightarrow> st_ok w
      | WireTls t \<Rightarrow>
          (case tw_config t of
             None \<Rightarrow> st_ok w
           | Some config \<Rightarrow>
               (case server_connection X config of
                  Inl e \<Rightarrow> (w, Inl (TcpTls e))
                | Inr session \<Rightarrow> st_ok (WireTls (t\<lparr>tw_session := Some session, tw_staged := leftover\<rparr>)))))"

definition read_raw ::
  "('s, 'c, 'g, 'e) wire_ops \<Rightarrow> 's \<times> bytes \<Rightarrow> ('s \<times> bytes, 'e tcp_error, inbound) step" where
  "read_raw X = (\<lambda>(stream, into).
     case tcp_read X READ_CHUNK stream of
       (stream, Inr []) \<Rightarrow> ((stream, into), Inr InboundClosed)
     | (stream, Inr chunk) \<Rightarrow> ((stream, into @ chunk), Inr InboundReceived)
     | (stream, Inl IoWouldBlock) \<Rightarrow> ((stream, into), Inr InboundIdle)
     | (stream, Inl e) \<Rightarrow> ((stream, into), Inl (TcpIo e)))"

section \<open>TLS\<close>

text \<open>A loop step that goes on, ends or fails.\<close>

definition flush_poll ::
  "('s, 'c, 'g, 'e) wire_ops \<Rightarrow> 's \<times> 'c \<Rightarrow> (sock_error, unit) result option \<times> ('s \<times> 'c)" where
  "flush_poll X sc =
     (if \<not> wants_write X (snd sc) then (None, sc)
      else case write_tls X sc of
        (sc, Inr n) \<Rightarrow> (if n = 0 then None else Some (Inr ()), sc)
      | (sc, Inl IoWouldBlock) \<Rightarrow> (None, sc)
      | (sc, Inl e) \<Rightarrow> (Some (Inl e), sc))"

definition flush_session ::
  "('s, 'c, 'g, 'e) wire_ops \<Rightarrow> 's \<times> 'c \<Rightarrow> ('s \<times> 'c, 'e tcp_error, unit) run" where
  "flush_session X = while_poll (flush_poll X) (\<lambda>r sc. (sc, map_err TcpIo r))"

record ('s, 'c) tls_reading =
  tr_stream :: 's
  tr_session :: 'c
  tr_staged :: bytes
  tr_into :: bytes
  tr_received :: bool
  tr_eof :: bool

text \<open>The first part of a round: bytes for the session, from the staged ones or the socket; the result is \<open>starved\<close>.\<close>

definition tls_feed ::
  "('s, 'c, 'g, 'e) wire_ops \<Rightarrow> ('s, 'c) tls_reading \<Rightarrow> (('s, 'c) tls_reading, 'e tcp_error, bool) step" where
  "tls_feed X st =
     (if tr_staged st \<noteq> [] then
        (case read_tls_staged X (tr_staged st) (tr_session st) of
           (c, Inl e) \<Rightarrow> (st\<lparr>tr_session := c\<rparr>, Inl (TcpIo e))
         | (c, Inr consumed) \<Rightarrow>
             if length (tr_staged st) < consumed then (st\<lparr>tr_session := c\<rparr>, Inl TcpPanics)
             else (st\<lparr>tr_session := c, tr_staged := drop consumed (tr_staged st)\<rparr>, Inr False))
      else if wants_read X (tr_session st) then
        (case read_tls X (tr_stream st, tr_session st) of
           ((s, c), Inr n) \<Rightarrow> (st\<lparr>tr_stream := s, tr_session := c, tr_eof := (n = 0 \<or> tr_eof st)\<rparr>, Inr False)
         | ((s, c), Inl IoWouldBlock) \<Rightarrow> (st\<lparr>tr_stream := s, tr_session := c\<rparr>, Inr True)
         | ((s, c), Inl e) \<Rightarrow> (st\<lparr>tr_stream := s, tr_session := c\<rparr>, Inl (TcpIo e)))
      else (st, Inr True))"

definition plain_poll ::
  "('s, 'c, 'g, 'e) wire_ops \<Rightarrow> ('s, 'c) tls_reading \<Rightarrow> (sock_error, bytes) result option \<times> ('s, 'c) tls_reading" where
  "plain_poll X st =
     (case reader_read X READ_CHUNK (tr_session st) of
        (c, Inr []) \<Rightarrow> (None, st\<lparr>tr_session := c, tr_eof := True\<rparr>)
      | (c, Inr chunk) \<Rightarrow> (Some (Inr chunk), st\<lparr>tr_session := c\<rparr>)
      | (c, Inl IoWouldBlock) \<Rightarrow> (None, st\<lparr>tr_session := c\<rparr>)
      | (c, Inl e) \<Rightarrow> (Some (Inl e), st\<lparr>tr_session := c\<rparr>))"

definition read_plain ::
  "('s, 'c, 'g, 'e) wire_ops \<Rightarrow> ('s, 'c) tls_reading \<Rightarrow> (('s, 'c) tls_reading, 'e tcp_error, unit) run" where
  "read_plain X = while_poll (plain_poll X) (\<lambda>r st.
     case r of Inl e \<Rightarrow> (st, Inl (TcpIo e)) | Inr chunk \<Rightarrow> st_ok (st\<lparr>tr_into := tr_into st @ chunk, tr_received := True\<rparr>))"

text \<open>One round; the result says whether the loop ends.\<close>

definition tls_round ::
  "('s, 'c, 'g, 'e) wire_ops \<Rightarrow> ('s, 'c) tls_reading \<Rightarrow> (('s, 'c) tls_reading, 'e tcp_error, bool) run" where
  "tls_round X st =
     run_bind (Some (tls_feed X st)) (\<lambda>starved st.
       case process_new_packets X (tr_session st) of
         (c, Inl error) \<Rightarrow>
           (case flush_session X (tr_stream st, c) of
              None \<Rightarrow> None
            | Some ((s, c), _) \<Rightarrow> Some (st\<lparr>tr_stream := s, tr_session := c\<rparr>, Inl (TcpTls error)))
       | (c, Inr _) \<Rightarrow>
           run_bind (read_plain X (st\<lparr>tr_session := c\<rparr>)) (\<lambda>_ st. Some (st, Inr (tr_eof st \<or> starved \<and> tr_staged st = []))))"

primrec tls_rounds ::
  "('s, 'c, 'g, 'e) wire_ops \<Rightarrow> nat \<Rightarrow> ('s, 'c) tls_reading \<Rightarrow> (('s, 'c) tls_reading, 'e tcp_error, unit) run" where
  "tls_rounds X 0 st = run_ok st"
| "tls_rounds X (Suc n) st = run_bind (tls_round X st) (\<lambda>stop st. if stop then run_ok st else tls_rounds X n st)"

definition tls_read ::
  "('s, 'c, 'g, 'e) wire_ops \<Rightarrow> ('s, 'c, 'g) tls_wire \<times> bytes \<Rightarrow> (('s, 'c, 'g) tls_wire \<times> bytes, 'e tcp_error, inbound) run" where
  "tls_read X = (\<lambda>(t, into).
     case tw_session t of
       None \<Rightarrow> (case read_raw X (tw_stream t, into) of ((s, into), r) \<Rightarrow> Some ((t\<lparr>tw_stream := s\<rparr>, into), r))
     | Some session \<Rightarrow>
         map_option (\<lambda>(st, r). ((t\<lparr>tw_stream := tr_stream st, tw_session := Some (tr_session st), tw_staged := tr_staged st\<rparr>, tr_into st), r))
           (run_bind (tls_rounds X MAX_READS_PER_TICK
               \<lparr>tr_stream = tw_stream t, tr_session = session, tr_staged = tw_staged t, tr_into = into, tr_received = False, tr_eof = False\<rparr>)
             (\<lambda>_ st. case flush_session X (tr_stream st, tr_session st) of
                None \<Rightarrow> None
              | Some ((s, c), r) \<Rightarrow> Some (st\<lparr>tr_stream := s, tr_session := c\<rparr>,
                  res_bind r (\<lambda>_. Inr (if tr_received st then InboundReceived else if tr_eof st then InboundClosed else InboundIdle))))))"

definition tls_flush ::
  "('s, 'c, 'g, 'e) wire_ops \<Rightarrow> ('s, 'c, 'g) tls_wire \<Rightarrow> (('s, 'c, 'g) tls_wire, 'e tcp_error, unit) run" where
  "tls_flush X t =
     (case tw_session t of
        None \<Rightarrow> run_ok t
      | Some session \<Rightarrow>
          map_option (\<lambda>((s, c), r). (t\<lparr>tw_stream := s, tw_session := Some c\<rparr>, r)) (flush_session X (tw_stream t, session)))"

definition tls_write ::
  "('s, 'c, 'g, 'e) wire_ops \<Rightarrow> bytes \<Rightarrow> ('s, 'c, 'g) tls_wire \<Rightarrow> (('s, 'c, 'g) tls_wire, 'e tcp_error, nat) run" where
  "tls_write X data t =
     (case tw_session t of
        None \<Rightarrow> Some (t, Inl TlsNotStarted)
      | Some session \<Rightarrow>
          (case writer_write X data session of
             (c, Inl e) \<Rightarrow> Some (t\<lparr>tw_session := Some c\<rparr>, Inl (TcpIo e))
           | (c, Inr accepted) \<Rightarrow>
               run_bind (tls_flush X (t\<lparr>tw_session := Some c\<rparr>)) (\<lambda>_ t. Some (t, Inr accepted))))"

definition tls_finish ::
  "('s, 'c, 'g, 'e) wire_ops \<Rightarrow> ('s, 'c, 'g) tls_wire \<Rightarrow> (('s, 'c, 'g) tls_wire, 'e tcp_error, unit) run" where
  "tls_finish X t =
     (case tw_session t of
        None \<Rightarrow> run_ok t
      | Some session \<Rightarrow>
          tls_flush X (if tw_closing t then t
            else t\<lparr>tw_closing := True, tw_session := Some (send_close_notify X session)\<rparr>))"

section \<open>The wire\<close>

definition wire_read ::
  "('s, 'c, 'g, 'e) wire_ops \<Rightarrow> ('s, 'c, 'g) wire \<times> bytes \<Rightarrow> (('s, 'c, 'g) wire \<times> bytes, 'e tcp_error, inbound) run" where
  "wire_read X = (\<lambda>(w, into).
     case w of
       WirePlain s \<Rightarrow> (case read_raw X (s, into) of ((s, into), r) \<Rightarrow> Some ((WirePlain s, into), r))
     | WireTls t \<Rightarrow> map_option (\<lambda>((t, into), r). ((WireTls t, into), r)) (tls_read X (t, into)))"

definition on_tls :: "(('s, 'c, 'g) tls_wire, 'e, 'a) run \<Rightarrow> (('s, 'c, 'g) wire, 'e, 'a) run" where
  "on_tls r = map_option (\<lambda>(t, x). (WireTls t, x)) r"

definition wire_write ::
  "('s, 'c, 'g, 'e) wire_ops \<Rightarrow> bytes \<Rightarrow> ('s, 'c, 'g) wire \<Rightarrow> (('s, 'c, 'g) wire, 'e tcp_error, nat) run" where
  "wire_write X data w =
     (case w of
        WirePlain s \<Rightarrow> (case tcp_write X data s of (s, r) \<Rightarrow> Some (WirePlain s, map_err TcpIo r))
      | WireTls t \<Rightarrow> on_tls (tls_write X data t))"

definition wire_flush ::
  "('s, 'c, 'g, 'e) wire_ops \<Rightarrow> ('s, 'c, 'g) wire \<Rightarrow> (('s, 'c, 'g) wire, 'e tcp_error, unit) run" where
  "wire_flush X w = (case w of WirePlain _ \<Rightarrow> run_ok w | WireTls t \<Rightarrow> on_tls (tls_flush X t))"

definition wire_finish ::
  "('s, 'c, 'g, 'e) wire_ops \<Rightarrow> ('s, 'c, 'g) wire \<Rightarrow> (('s, 'c, 'g) wire, 'e tcp_error, unit) run" where
  "wire_finish X w = (case w of WirePlain _ \<Rightarrow> run_ok w | WireTls t \<Rightarrow> on_tls (tls_finish X t))"

definition has_pending_output :: "('s, 'c, 'g, 'e) wire_ops \<Rightarrow> ('s, 'c, 'g) wire \<Rightarrow> bool" where
  "has_pending_output X w =
     (case w of
        WirePlain _ \<Rightarrow> False
      | WireTls t \<Rightarrow> (case tw_session t of None \<Rightarrow> False | Some session \<Rightarrow> wants_write X session))"

section \<open>The stream of a connection\<close>

datatype drained = DrainEmpty | DrainBlocked | DrainPartial | DrainComplete

datatype shutdown = ShutdownPending | ShutdownDone

record ('s, 'c, 'g) http_stream =
  st_wire :: "('s, 'c, 'g) wire"
  st_inbound :: bytes
  st_outbound :: bytes
  st_written :: nat

definition http_stream_new :: "('s, 'c, 'g) wire \<Rightarrow> ('s, 'c, 'g) http_stream" where
  "http_stream_new w = \<lparr>st_wire = w, st_inbound = [], st_outbound = [], st_written = 0\<rparr>"

definition stream_queue :: "bytes \<Rightarrow> ('s, 'c, 'g) http_stream \<Rightarrow> ('s, 'c, 'g) http_stream" where
  "stream_queue bs h = h\<lparr>st_outbound := st_outbound h @ bs\<rparr>"

definition has_outbound :: "('s, 'c, 'g) http_stream \<Rightarrow> bool" where
  "has_outbound h \<longleftrightarrow> st_outbound h \<noteq> []"

definition stream_fill ::
  "('s, 'c, 'g, 'e) wire_ops \<Rightarrow> ('s, 'c, 'g) http_stream \<Rightarrow> (('s, 'c, 'g) http_stream, 'e tcp_error, inbound) run" where
  "stream_fill X h =
     map_option (\<lambda>((w, into), r). (h\<lparr>st_wire := w, st_inbound := into\<rparr>, r)) (wire_read X (st_wire h, st_inbound h))"

definition stream_drain ::
  "('s, 'c, 'g, 'e) wire_ops \<Rightarrow> ('s, 'c, 'g) http_stream \<Rightarrow> (('s, 'c, 'g) http_stream, 'e tcp_error, drained) run" where
  "stream_drain X h =
     (if st_outbound h = [] then Some (h, Inr DrainEmpty)
      else if length (st_outbound h) < st_written h then Some (h, Inl TcpPanics)
      else case wire_write X (drop (st_written h) (st_outbound h)) (st_wire h) of
        None \<Rightarrow> None
      | Some (w, Inr accepted) \<Rightarrow>
          (let h = h\<lparr>st_wire := w\<rparr> in
           if accepted = 0 then Some (h, Inl WriteZero)
           else let h = h\<lparr>st_written := st_written h + accepted\<rparr> in
             if st_written h = length (st_outbound h)
             then Some (h\<lparr>st_outbound := [], st_written := 0\<rparr>, Inr DrainComplete)
             else Some (h, Inr DrainPartial))
      | Some (w, Inl e) \<Rightarrow>
          Some (h\<lparr>st_wire := w\<rparr>, if e = TcpIo IoWouldBlock then Inr DrainBlocked else Inl e))"

definition stream_flush ::
  "('s, 'c, 'g, 'e) wire_ops \<Rightarrow> ('s, 'c, 'g) http_stream \<Rightarrow> (('s, 'c, 'g) http_stream, 'e tcp_error, unit) run" where
  "stream_flush X h = map_option (\<lambda>(w, r). (h\<lparr>st_wire := w\<rparr>, r)) (wire_flush X (st_wire h))"

text \<open>The call itself does not fail.\<close>

definition stream_close ::
  "('s, 'c, 'g, 'e) wire_ops \<Rightarrow> ('s, 'c, 'g) http_stream \<Rightarrow> (('s, 'c, 'g) http_stream \<times> shutdown) option" where
  "stream_close X h =
     map_option (\<lambda>(w, r). (h\<lparr>st_wire := w\<rparr>,
       case r of Inl _ \<Rightarrow> ShutdownDone | Inr _ \<Rightarrow> if \<not> has_pending_output X w then ShutdownDone else ShutdownPending))
       (wire_finish X (st_wire h))"

definition stream_establish ::
  "('s, 'c, 'g, 'e) wire_ops \<Rightarrow> ('s, 'c, 'g) http_stream \<Rightarrow> (('s, 'c, 'g) http_stream, 'e tcp_error, inbound) run" where
  "stream_establish X h =
     (if \<not> awaiting_session (st_wire h) then Some (h, Inr InboundIdle)
      else case begin_session X (st_inbound h) (st_wire h) of
        (w, Inl e) \<Rightarrow> Some (h\<lparr>st_wire := w, st_inbound := []\<rparr>, Inl e)
      | (w, Inr _) \<Rightarrow> stream_fill X (h\<lparr>st_wire := w, st_inbound := []\<rparr>))"

text \<open>\<open>ServerTls::accept\<close>.\<close>

definition stream_accept :: "'g option \<Rightarrow> 's \<Rightarrow> ('s, 'c, 'g) http_stream" where
  "stream_accept config stream =
     (case config of Some config \<Rightarrow> http_stream_new (wire_tls stream config) | None \<Rightarrow> http_stream_new (WirePlain stream))"

section \<open>What the crates promise\<close>

text \<open>Whoever takes bytes takes no more than it is given: the contract of \<open>Write::write\<close>, and of reading from a slice.\<close>

definition wire_laws :: "('s, 'c, 'g, 'e) wire_ops \<Rightarrow> bool" where
  "wire_laws X \<longleftrightarrow>
     (\<forall>data s s' n. tcp_write X data s = (s', Inr n) \<longrightarrow> n \<le> length data) \<and>
     (\<forall>data c c' n. writer_write X data c = (c', Inr n) \<longrightarrow> n \<le> length data) \<and>
     (\<forall>data c c' n. read_tls_staged X data c = (c', Inr n) \<longrightarrow> n \<le> length data)"

text \<open>The buffers of a session are finite: reading plaintext and writing records shorten them.\<close>

definition wire_finite :: "('s, 'c, 'g, 'e) wire_ops \<Rightarrow> ('c \<Rightarrow> nat) \<Rightarrow> bool" where
  "wire_finite X m \<longleftrightarrow>
     (\<forall>n c c' chunk. reader_read X n c = (c', Inr chunk) \<longrightarrow> chunk \<noteq> [] \<longrightarrow> m c' < m c) \<and>
     (\<forall>s c s' c' n. write_tls X (s, c) = ((s', c'), Inr n) \<longrightarrow> 0 < n \<longrightarrow> m c' < m c)"

section \<open>Lemmas\<close>

subsection \<open>Every call returns\<close>

lemma while_stop_returns:
  assumes again: "\<And>s x s'. poll s = (Some (Inr x), s') \<Longrightarrow> (m (fst (body (Inr x) s')) :: nat) < m s"
    and stop: "\<And>s e. \<exists>s' e'. body (Inl e) s = (s', Inl e')"
  shows "\<exists>r. while_poll poll body s = Some r"
proof (induction s rule: measure_induct_rule [of m])
  case (less s)
  obtain o' s' where poll: "poll s = (o', s')" by fastforce
  show ?case
  proof (cases o')
    case (Some r)
    show ?thesis
    proof (cases r)
      case (Inl e)
      obtain s'' e' where "body (Inl e) s' = (s'', Inl e')" using stop by blast
      with poll Some Inl show ?thesis by (subst while_poll.simps) simp
    next
      case (Inr x)
      with poll Some again less.IH [of "fst (body (Inr x) s')"]
      obtain r' where "while_poll poll body (fst (body (Inr x) s')) = Some r'" by blast
      with poll Some Inr show ?thesis
        by (subst while_poll.simps) (cases "body (Inr x) s'", auto split: sum.splits)
    qed
  qed (subst while_poll.simps, simp add: poll)
qed

lemma flush_session_returns:
  assumes "wire_finite X m"
  shows "\<exists>r. flush_session X sc = Some r"
  unfolding flush_session_def
proof (rule while_stop_returns [where m = "\<lambda>(s, c). m c"])
  fix sc :: "'a \<times> 'b" and x :: unit and sc'
  assume "flush_poll X sc = (Some (Inr x), sc')"
  then obtain n where "write_tls X sc = (sc', Inr n)" "0 < n"
    by (auto simp: flush_poll_def split: if_splits prod.splits sum.splits sock_error.splits)
  then have "m (snd sc') < m (snd sc)"
    using assms unfolding wire_finite_def by (metis prod.collapse)
  then show "(case fst (sc', map_err TcpIo (Inr x)) of (s, c) \<Rightarrow> m c) < (case sc of (s, c) \<Rightarrow> m c)"
    by (simp add: case_prod_beta)
qed simp

lemma read_plain_returns:
  assumes "wire_finite X m"
  shows "\<exists>r. read_plain X st = Some r"
  unfolding read_plain_def
proof (rule while_stop_returns [where m = "\<lambda>st. m (tr_session st)"])
  fix st :: "('a, 'b) tls_reading" and x :: bytes and st'
  assume "plain_poll X st = (Some (Inr x), st')"
  then have "reader_read X READ_CHUNK (tr_session st) = (tr_session st', Inr x)" "x \<noteq> []"
    by (auto simp: plain_poll_def split: prod.splits sum.splits list.splits sock_error.splits)
  then have "m (tr_session st') < m (tr_session st)"
    using assms unfolding wire_finite_def by blast
  then show "m (tr_session (fst (case Inr x of Inl e \<Rightarrow> (st', Inl (TcpIo e))
      | Inr chunk \<Rightarrow> st_ok (st'\<lparr>tr_into := tr_into st' @ chunk, tr_received := True\<rparr>)))) < m (tr_session st)"
    by simp
qed simp

lemma tls_round_returns:
  assumes "wire_finite X m"
  shows "\<exists>r. tls_round X st = Some r"
  unfolding tls_round_def
proof (rule run_bind_returns)
  fix starved st
  show "\<exists>r. (case process_new_packets X (tr_session st) of
      (c, Inl error) \<Rightarrow>
        (case flush_session X (tr_stream st, c) of
           None \<Rightarrow> None
         | Some ((s, c), _) \<Rightarrow> Some (st\<lparr>tr_stream := s, tr_session := c\<rparr>, Inl (TcpTls error)))
    | (c, Inr _) \<Rightarrow>
        run_bind (read_plain X (st\<lparr>tr_session := c\<rparr>)) (\<lambda>_ st. Some (st, Inr (tr_eof st \<or> starved \<and> tr_staged st = [])))) = Some r"
  proof (cases "process_new_packets X (tr_session st)")
    case (Pair c r)
    obtain f where "flush_session X (tr_stream st, c) = Some f"
      using flush_session_returns [OF assms] by blast
    moreover have "\<exists>r. run_bind (read_plain X (st\<lparr>tr_session := c\<rparr>))
        (\<lambda>_ st. Some (st, Inr (tr_eof st \<or> starved \<and> tr_staged st = []))) = Some (r :: (('a, 'b) tls_reading, 'd tcp_error, bool) step)"
      by (rule run_bind_returns) (use read_plain_returns [OF assms] in auto)
    ultimately show ?thesis
      using Pair by (cases f; cases r) auto
  qed
qed simp

lemma tls_rounds_returns:
  assumes "wire_finite X m"
  shows "\<exists>r. tls_rounds X n st = Some r"
proof (induction n arbitrary: st)
  case (Suc n)
  show ?case
    unfolding tls_rounds.simps
    by (rule run_bind_returns) (use tls_round_returns [OF assms] Suc in \<open>auto simp: run_ok_def\<close>)
qed (simp add: run_ok_def)

lemma tls_read_returns:
  assumes "wire_finite X m"
  shows "\<exists>r. tls_read X ti = Some r"
proof -
  have flush: "\<exists>r. (case flush_session X sc of None \<Rightarrow> None | Some ((s, c), r) \<Rightarrow> Some (f s c r)) = Some r" for sc f
    using flush_session_returns [OF assms, of sc] by (auto split: prod.splits)
  have read: "\<exists>r. run_bind (tls_rounds X n st) (\<lambda>_ st. case flush_session X (tr_stream st, tr_session st) of
      None \<Rightarrow> None | Some ((s, c), r) \<Rightarrow> Some (g st s c r)) = Some r" for n st g
    by (rule run_bind_returns) (use tls_rounds_returns [OF assms] flush in blast)+
  have mapped: "\<exists>r. x = Some r \<Longrightarrow> \<exists>r. map_option f x = Some r" for x and f :: "'x \<Rightarrow> 'y"
    by auto
  show ?thesis
  proof (cases ti)
    case (Pair t into)
    show ?thesis
      unfolding Pair tls_read_def case_prod_conv
      by (cases "tw_session t") (auto intro!: mapped read simp del: split_paired_Ex split: prod.splits)
  qed
qed

lemma tls_flush_returns:
  assumes "wire_finite X m"
  shows "\<exists>r. tls_flush X t = Some r"
  using flush_session_returns [OF assms, of "(tw_stream t, the (tw_session t))"]
  by (auto simp: tls_flush_def run_ok_def split: option.splits)

lemma tls_write_returns:
  assumes "wire_finite X m"
  shows "\<exists>r. tls_write X data t = Some r"
proof -
  have "\<exists>r. run_bind (tls_flush X t) (\<lambda>_ t. Some (t, Inr n)) = Some (r :: (('a, 'b, 'c) tls_wire, 'd tcp_error, nat) step)" for t n
    by (rule run_bind_returns) (use tls_flush_returns [OF assms] in auto)
  then show ?thesis
    by (auto simp: tls_write_def split: option.splits prod.splits sum.splits)
qed

lemma wire_returns:
  assumes "wire_finite X m"
  shows "\<exists>r. wire_read X wi = Some r" "\<exists>r. wire_write X data w = Some r" "\<exists>r. wire_flush X w = Some r" "\<exists>r. wire_finish X w = Some r"
proof -
  show "\<exists>r. wire_read X wi = Some r"
  proof (cases wi)
    case (Pair w into)
    show ?thesis
    proof (cases w)
      case (WireTls t)
      with Pair tls_read_returns [OF assms, of "(t, into)"] show ?thesis by (auto simp: wire_read_def)
    qed (auto simp: Pair wire_read_def split: prod.splits)
  qed
  show "\<exists>r. wire_write X data w = Some r"
  proof (cases w)
    case (WireTls t)
    with tls_write_returns [OF assms, of data t] show ?thesis by (auto simp: wire_write_def on_tls_def)
  qed (simp add: wire_write_def split: prod.splits)
  have "\<exists>r. on_tls (tls_flush X t) = Some r" for t
    using tls_flush_returns [OF assms, of t] by (auto simp: on_tls_def)
  then show "\<exists>r. wire_flush X w = Some r" "\<exists>r. wire_finish X w = Some r"
    by (auto simp: wire_flush_def wire_finish_def tls_finish_def run_ok_def on_tls_def simp del: split_paired_Ex
        split: wire.splits option.splits)
qed

lemma stream_returns:
  assumes "wire_finite X m"
  shows "\<exists>r. stream_fill X h = Some r" "\<exists>r. stream_drain X h = Some r" "\<exists>r. stream_flush X h = Some r"
    "\<exists>r. stream_close X h = Some r" "\<exists>r. stream_establish X h = Some r"
proof -
  have fill: "\<exists>r. stream_fill X h = Some r" for h
    using wire_returns(1) [OF assms, of "(st_wire h, st_inbound h)"] by (auto simp: stream_fill_def)
  then show "\<exists>r. stream_fill X h = Some r" .
  show "\<exists>r. stream_drain X h = Some r"
    using wire_returns(2) [OF assms, of "drop (st_written h) (st_outbound h)" "st_wire h"]
    by (auto simp: stream_drain_def Let_def split: sum.splits)
  show "\<exists>r. stream_flush X h = Some r" "\<exists>r. stream_close X h = Some r"
    using wire_returns(3,4) [OF assms, of "st_wire h"] by (auto simp: stream_flush_def stream_close_def)
  show "\<exists>r. stream_establish X h = Some r"
    using fill by (auto simp: stream_establish_def split: prod.splits sum.splits)
qed

subsection \<open>No call panics\<close>

definition no_panic :: "('s, 'e tcp_error, 'a) run \<Rightarrow> bool" where
  "no_panic r \<longleftrightarrow> (\<forall>s. r \<noteq> Some (s, Inl TcpPanics))"

lemma no_panic_simps [simp]:
  "no_panic None" "no_panic (run_ok s)" "no_panic (Some (s, r)) \<longleftrightarrow> r \<noteq> Inl TcpPanics" "no_panic (map_option (\<lambda>(s, r). (f s, r)) x) \<longleftrightarrow> no_panic x"
  by (auto simp: no_panic_def run_ok_def)

lemma no_panic_bind: "no_panic r \<Longrightarrow> (\<And>a s. no_panic (f a s)) \<Longrightarrow> no_panic (run_bind r f)"
  by (cases "(r, f)" rule: run_bind.cases) auto

lemma no_panic_map:
  "no_panic (map_option (\<lambda>((a, b), r). (f a b, r)) x) \<longleftrightarrow> no_panic x"
  by (cases x) (auto simp: no_panic_def)

lemma while_no_panic:
  assumes "\<And>x s. snd (body x s) \<noteq> Inl TcpPanics"
  shows "no_panic (while_poll poll body s)"
proof -
  have "snd r \<noteq> Inl TcpPanics" if "while_poll poll body s = Some r" for r
    using that
  proof (induction rule: while_poll_induct)
    case (stop s x s' s'' e)
    then show ?case using assms [of x s'] by simp
  qed simp_all
  then show ?thesis by (force simp: no_panic_def)
qed

lemma flush_no_panic: "no_panic (flush_session X sc)"
  unfolding flush_session_def by (rule while_no_panic) (auto split: sum.splits elim: map_err.elims)

lemma read_plain_no_panic: "no_panic (read_plain X st)"
  unfolding read_plain_def by (rule while_no_panic) (auto simp: st_ok_def split: sum.splits)

lemma tls_feed_no_panic: "wire_laws X \<Longrightarrow> snd (tls_feed X st) \<noteq> Inl TcpPanics"
  by (auto simp: tls_feed_def wire_laws_def split: prod.splits sum.splits sock_error.splits)
    (metis leD)+

lemma tls_round_no_panic: "wire_laws X \<Longrightarrow> no_panic (tls_round X st)"
  unfolding tls_round_def
  by (rule no_panic_bind)
    (auto simp: no_panic_def [of "Some _"] dest: tls_feed_no_panic [of X st]
      intro!: no_panic_bind read_plain_no_panic split: prod.splits sum.splits option.splits)

lemma tls_rounds_no_panic: "wire_laws X \<Longrightarrow> no_panic (tls_rounds X n st)"
  by (induction n arbitrary: st) (auto intro!: no_panic_bind tls_round_no_panic)

lemma read_raw_no_panic: "snd (read_raw X si) \<noteq> Inl TcpPanics"
  by (auto simp: read_raw_def split: prod.splits sum.splits list.splits sock_error.splits)

lemma tls_read_no_panic:
  assumes "wire_laws X"
  shows "no_panic (tls_read X ti)"
proof (cases ti)
  case (Pair t into)
  show ?thesis
  proof (cases "tw_session t")
    case None
    then show ?thesis
      using read_raw_no_panic [of X "(tw_stream t, into)"] by (auto simp: Pair tls_read_def split: prod.splits)
  next
    case (Some session)
    have "no_panic (case flush_session X sc of None \<Rightarrow> None
        | Some ((s, c), r) \<Rightarrow> Some (st\<lparr>tr_stream := s, tr_session := c\<rparr>, res_bind r (\<lambda>_. Inr i)))"
      for sc and i :: inbound and st :: "('a, 'b) tls_reading"
      using flush_no_panic [of X sc] by (auto simp: no_panic_def res_bind_eq_Inl split: option.splits)
    then show ?thesis
      unfolding Pair tls_read_def case_prod_conv Some option.case no_panic_simps(4)
      by (intro no_panic_bind tls_rounds_no_panic [OF assms])
  qed
qed

lemma stream_no_panic:
  assumes "wire_laws X"
  shows "no_panic (stream_fill X h)" "no_panic (stream_establish X h)"
proof -
  have "no_panic (wire_read X (w, into))" for w into
  proof (cases w)
    case (WirePlain s)
    then show ?thesis
      using read_raw_no_panic [of X "(s, into)"] by (auto simp: wire_read_def split: prod.splits)
  next
    case (WireTls t)
    then show ?thesis
      using tls_read_no_panic [OF assms, of "(t, into)"] by (simp add: wire_read_def no_panic_map)
  qed
  then have fill: "no_panic (stream_fill X h)" for h
    by (simp add: stream_fill_def no_panic_map)
  then show "no_panic (stream_fill X h)" .
  show "no_panic (stream_establish X h)"
    using fill by (auto simp: stream_establish_def begin_session_def st_ok_def
        split: prod.splits sum.splits wire.splits option.splits)
qed

lemma wire_write_bound:
  assumes "wire_laws X" "wire_write X data w = Some (w', Inr n)"
  shows "n \<le> length data"
proof (cases w)
  case (WirePlain s)
  with assms show ?thesis
    by (cases "tcp_write X data s"; cases "snd (tcp_write X data s)") (auto simp: wire_write_def wire_laws_def)
next
  case (WireTls t)
  with assms show ?thesis
    by (auto simp: wire_write_def on_tls_def tls_write_def run_bind_eq_Some wire_laws_def
        split: option.splits prod.splits sum.splits)
qed

lemma tls_flush_no_panic: "no_panic (tls_flush X t)"
proof (cases "tw_session t")
  case (Some session)
  then show ?thesis
    using flush_no_panic [of X "(tw_stream t, session)"]
    by (cases "flush_session X (tw_stream t, session)") (auto simp: tls_flush_def)
qed (simp add: tls_flush_def)

lemma stream_flush_no_panic: "no_panic (stream_flush X h)"
  by (simp add: stream_flush_def wire_flush_def on_tls_def tls_flush_no_panic split: wire.split)

lemma wire_write_no_panic: "no_panic (wire_write X data w)"
proof (cases w)
  case (WirePlain s)
  then show ?thesis
    by (cases "snd (tcp_write X data s)") (auto simp: wire_write_def split: prod.splits)
next
  case (WireTls t)
  have "no_panic (tls_write X data t)"
    by (auto simp: tls_write_def intro!: no_panic_bind tls_flush_no_panic split: option.splits prod.splits sum.splits)
  with WireTls show ?thesis
    by (simp add: wire_write_def on_tls_def)
qed

section \<open>Bytes in order\<close>

definition unsent :: "('s, 'c, 'g) http_stream \<Rightarrow> bytes" where
  "unsent h = drop (st_written h) (st_outbound h)"

text \<open>What the wire takes when the stream offers it what is unsent.\<close>

definition taken_by_wire :: "('s, 'c, 'g, 'e) wire_ops \<Rightarrow> ('s, 'c, 'g) http_stream \<Rightarrow> bytes" where
  "taken_by_wire X h =
     (if st_outbound h = [] then []
      else case wire_write X (unsent h) (st_wire h) of Some (_, Inr n) \<Rightarrow> take n (unsent h) | _ \<Rightarrow> [])"

text \<open>Any sequence of calls on a stream, with all the bytes that were queued and all that the wire took.\<close>

inductive stream_history ::
  "('s, 'c, 'g, 'e) wire_ops \<Rightarrow> ('s, 'c, 'g) http_stream \<Rightarrow> bytes \<Rightarrow> bytes \<Rightarrow> bool" for X where
  opened: "stream_history X (http_stream_new w) [] []"
| queued: "stream_history X h qs ts \<Longrightarrow> stream_history X (stream_queue bs h) (qs @ bs) ts"
| drained: "stream_history X h qs ts \<Longrightarrow> stream_drain X h = Some (h', r) \<Longrightarrow> stream_history X h' qs (ts @ taken_by_wire X h)"
| filled: "stream_history X h qs ts \<Longrightarrow> stream_fill X h = Some (h', r) \<Longrightarrow> stream_history X h' qs ts"
| flushed: "stream_history X h qs ts \<Longrightarrow> stream_flush X h = Some (h', r) \<Longrightarrow> stream_history X h' qs ts"
| closed: "stream_history X h qs ts \<Longrightarrow> stream_close X h = Some (h', r') \<Longrightarrow> stream_history X h' qs ts"
| established: "stream_history X h qs ts \<Longrightarrow> stream_establish X h = Some (h', r) \<Longrightarrow> stream_history X h' qs ts"
| read_off: "stream_history X h qs ts \<Longrightarrow> stream_history X (h\<lparr>st_inbound := bs\<rparr>) qs ts"

definition stream_inv :: "('s, 'c, 'g) http_stream \<Rightarrow> bool" where
  "stream_inv h \<longleftrightarrow> st_written h \<le> length (st_outbound h) \<and> (st_outbound h \<noteq> [] \<longrightarrow> st_written h < length (st_outbound h))"

lemma stream_drain_keeps:
  assumes "wire_laws X" "stream_inv h" "stream_drain X h = Some (h', r)"
  shows "stream_inv h'" "unsent h = taken_by_wire X h @ unsent h'" "r \<noteq> Inl TcpPanics"
proof -
  have "stream_inv h' \<and> unsent h = taken_by_wire X h @ unsent h' \<and> r \<noteq> Inl TcpPanics"
  proof (cases "st_outbound h = []")
    case True
    with assms show ?thesis by (auto simp: stream_drain_def taken_by_wire_def unsent_def)
  next
    case False
    with assms obtain w x where wrote: "wire_write X (unsent h) (st_wire h) = Some (w, x)"
      by (auto simp: stream_drain_def unsent_def stream_inv_def split: if_splits option.splits)
    show ?thesis
    proof (cases x)
      case (Inl e)
      moreover have "e \<noteq> TcpPanics"
        using wire_write_no_panic [of X "unsent h" "st_wire h"] wrote Inl by simp
      ultimately show ?thesis
        using assms False wrote by (auto simp: stream_drain_def taken_by_wire_def unsent_def stream_inv_def split: if_splits)
    next
      case (Inr n)
      have "n \<le> length (st_outbound h) - st_written h"
        using wire_write_bound [OF assms(1) wrote [unfolded Inr]] by (simp add: unsent_def)
      with assms False wrote Inr show ?thesis
        by (auto simp: stream_drain_def taken_by_wire_def unsent_def stream_inv_def Let_def add.commute
            simp flip: drop_drop split: if_splits)
    qed
  qed
  then show "stream_inv h'" "unsent h = taken_by_wire X h @ unsent h'" "r \<noteq> Inl TcpPanics" by auto
qed

lemma stream_history_inv:
  assumes "wire_laws X"
  shows "stream_history X h qs ts \<Longrightarrow> stream_inv h \<and> qs = ts @ unsent h"
proof (induction rule: stream_history.induct)
  case (drained h qs ts h' r)
  then show ?case using stream_drain_keeps [OF assms, of h h' r] by simp
qed (auto simp: stream_inv_def unsent_def http_stream_new_def stream_queue_def stream_fill_def stream_flush_def
    stream_close_def stream_establish_def split: if_splits prod.splits sum.splits)

section \<open>Properties\<close>


text \<open>A socket of bytes to read and bytes written, four at a time, and a session that passes bytes through.\<close>

definition sample_tcp :: "(bytes \<times> bytes, bytes \<times> bytes, unit, unit) wire_ops" where
  "sample_tcp = \<lparr>
     tcp_read = (\<lambda>n (i, out). if i = [] then ((i, out), Inl IoWouldBlock) else ((drop n i, out), Inr (take n i))),
     tcp_write = (\<lambda>data (i, out). ((i, out @ take 4 data), Inr (min 4 (length data)))),
     server_connection = (\<lambda>_. Inr ([], [])),
     read_tls_staged = (\<lambda>data (rx, tx). ((rx @ data, tx), Inr (length data))),
     read_tls = (\<lambda>((i, out), (rx, tx)). if i = [] then (((i, out), (rx, tx)), Inl IoWouldBlock)
        else ((([], out), (rx @ i, tx)), Inr (length i))),
     wants_read = (\<lambda>_. True),
     wants_write = (\<lambda>(rx, tx). tx \<noteq> []),
     process_new_packets = (\<lambda>c. (c, Inr ())),
     reader_read = (\<lambda>n (rx, tx). if rx = [] then ((rx, tx), Inl IoWouldBlock) else ((drop n rx, tx), Inr (take n rx))),
     writer_write = (\<lambda>data (rx, tx). ((rx, tx @ data), Inr (length data))),
     write_tls = (\<lambda>((i, out), (rx, tx)). (((i, out @ tx), (rx, [])), Inr (length tx))),
     send_close_notify = (\<lambda>(rx, tx). (rx, tx @ [0]))\<rparr>"

lemma sample_tcp_laws: "wire_laws sample_tcp"
  by (auto simp: wire_laws_def sample_tcp_def)

lemma sample_tcp_finite: "wire_finite sample_tcp (\<lambda>(rx, tx). length rx + length tx)"
  by (auto simp: wire_finite_def sample_tcp_def split: if_splits)

definition sample_stream :: "(bytes \<times> bytes, bytes \<times> bytes, unit) http_stream" where
  "sample_stream = stream_queue [1, 2, 3, 4, 5, 6] (http_stream_new (WirePlain ([], [])))"

definition sample_half_sent :: "(bytes \<times> bytes, bytes \<times> bytes, unit) http_stream" where
  "sample_half_sent = sample_stream\<lparr>st_wire := WirePlain ([], [1, 2, 3, 4]), st_written := 4\<rparr>"

lemma sample_half_sent_drain: "stream_drain sample_tcp sample_stream = Some (sample_half_sent, Inr DrainPartial)"
  by (simp add: stream_drain_def sample_stream_def sample_half_sent_def stream_queue_def http_stream_new_def wire_write_def sample_tcp_def Let_def)


end
