(* ===== verification/Run_Loop.thy ===== *)
theory Run_Loop
  imports Poll_Loop
begin

text \<open>
  The loop \<open>while let Some(x) = machine.poll() \<dots>\<close> of the drivers, whose body may itself not return.  Proved: what polling and
  the body keep holds at the end, and the loop returns when the body does and every round lowers a measure.
\<close>

partial_function (option) while_run ::
  "('s \<Rightarrow> ('x \<times> 's) option) \<Rightarrow> ('x \<Rightarrow> 's \<Rightarrow> ('s, 'e, unit) run) \<Rightarrow> 's \<Rightarrow> ('s, 'e, unit) run" where
  "while_run poll body s =
     (case poll s of
        None \<Rightarrow> Some (s, Inr ())
      | Some (x, s') \<Rightarrow>
          (case body x s' of
             None \<Rightarrow> None
           | Some (s'', Inl e) \<Rightarrow> Some (s'', Inl e)
           | Some (s'', Inr _) \<Rightarrow> while_run poll body s''))"

declare while_run.simps [code]

lemma while_run_induct [consumes 1, case_names finish stop again]:
  assumes returns: "while_run poll body s = Some r"
    and finish: "\<And>s. poll s = None \<Longrightarrow> Q s (s, Inr ())"
    and stop: "\<And>s x s' s'' e. poll s = Some (x, s') \<Longrightarrow> body x s' = Some (s'', Inl e) \<Longrightarrow> Q s (s'', Inl e)"
    and again: "\<And>s x s' s'' r. poll s = Some (x, s') \<Longrightarrow> body x s' = Some (s'', Inr ()) \<Longrightarrow> Q s'' r \<Longrightarrow> Q s r"
  shows "Q s r"
proof -
  have "poll' = poll \<and> body' = body \<longrightarrow> Q s r" if "while_run poll' body' s = Some r" for poll' body' s r
    using that
    by (rule while_run.raw_induct [where P = "\<lambda>poll' body' s r. poll' = poll \<and> body' = body \<longrightarrow> Q s r", rotated])
      (auto split: prod.splits option.splits sum.splits intro: finish stop again)
  with returns show ?thesis
    by simp
qed

lemma while_run_keeps:
  assumes start: "P s"
    and step: "\<And>s x s'. P s \<Longrightarrow> poll s = Some (x, s') \<Longrightarrow> keeps P (body x s')"
  shows "keeps P (while_run poll body s)"
  unfolding keeps_def
proof (intro allI impI)
  fix t r
  assume "while_run poll body s = Some (t, r)"
  then have "P s \<longrightarrow> P (fst (t, r))"
  proof (induction rule: while_run_induct)
    case (stop s x s' s'' e)
    show ?case
      using step [OF _ stop(1)] stop(2) by auto
  next
    case (again s x s' s'' r)
    show ?case
      using step [OF _ again(1)] again(2,3) by auto
  qed simp
  with start show "P t"
    by simp
qed

lemma while_run_returns:
  assumes poll: "\<And>s x s'. poll s = Some (x, s') \<Longrightarrow>
      body x s' \<noteq> None \<and> (\<forall>s''. body x s' = Some (s'', Inr ()) \<longrightarrow> (m s'' :: nat) < m s)"
  shows "while_run poll body s \<noteq> None"
proof (induction s rule: measure_induct_rule [of m])
  case (less s)
  show ?case
  proof (cases "poll s")
    case (Some xs)
    obtain x s' where xs: "xs = (x, s')"
      by (cases xs)
    with Some poll obtain s'' r where body: "body x s' = Some (s'', r)" "r = Inr () \<Longrightarrow> m s'' < m s"
      by (metis option.exhaust surj_pair)
    show ?thesis
    proof (cases r)
      case (Inr u)
      with body less.IH [of s''] show ?thesis
        by (subst while_run.simps) (simp add: Some xs)
    qed (use body in \<open>subst while_run.simps, simp add: Some xs\<close>)
  qed (subst while_run.simps, simp)
qed

end
