(* ===== verification/Http_Server.thy ===== *)
theory Http_Server
  imports Http_Signaler Http_Wire Http_Stream Server_Sessions Session_Pool Run_Loop
begin

text \<open>
  \<open>bevy-nethernet/src/http_server.rs\<close>: the HTTP signaling server of the Bevy crate, polled once per frame.  It composes the TCP
  connections, the request reader and response writer, the HTTP signaler, the admission of offers and the session pool.
  The connections accepted in a frame, the events the pool sent, the clocks and the random draws are arguments of the
  frame; the commands for the pool are kept in the state.  A result \<open>Inl ()\<close> is a panic, \<open>None\<close> a call that never returns.
\<close>

definition MAX_ACCEPTS_PER_TICK :: nat where "MAX_ACCEPTS_PER_TICK = 64"
definition DEFAULT_IDLE_TIMEOUT :: duration where "DEFAULT_IDLE_TIMEOUT = 30 * second"

record ('s, 'c, 'g) tcp_conn =
  tc_stream :: "('s, 'c, 'g) http_stream"
  tc_close_after_write :: bool
  tc_requested :: bool
  tc_last_active :: instant

text \<open>A request as it was read, its body still bytes.\<close>

record byte_request =
  br_parts :: http_request
  br_body :: bytes

definition text_body_request :: "byte_request \<Rightarrow> (unit, http_request) result" where
  "text_body_request q = res_bind (text_body_decode (br_body q)) (\<lambda>body. Inr ((br_parts q)\<lparr>req_body := body\<rparr>))"

definition refuse :: "(byte_request, 'r) http_ops \<Rightarrow> nat \<Rightarrow> ('s, 'c, 'g) tcp_conn \<Rightarrow> ('s, 'c, 'g) tcp_conn" where
  "refuse T status conn =
     conn\<lparr>tc_stream := (stream_queue (response_encode T status [] []) (tc_stream conn))\<lparr>st_inbound := []\<rparr>,
       tc_close_after_write := True\<rparr>"

record http_session_entry = session_entry +
  se_host :: "string option"

text \<open>The events are the two of \<open>NetherHttpServerEvent\<close>, the same as those of the LAN server.\<close>

record ('s, 'c, 'g, 'net, 'sk, 'vk, 'conn) http_server =
  web_signaler :: "'net http_signaler"
  web_commands :: "(nether_session_id, 'conn) pool_command list"
  web_local_addr :: socket_addr
  web_advertised :: "ip_addr list"
  web_identity :: "('sk, 'vk) server_identity option"
  web_warned_missing_identity :: bool
  web_allow_unsigned_answers :: bool
  web_warned_unsigned_answers :: bool
  web_infer_peer_candidates :: bool
  web_pending_limits :: pending_limits
  web_timeouts :: timeouts
  web_idle_timeout :: duration
  web_tls :: "'g option"
  web_next_conn_id :: u64
  web_connections :: "(u64, ('s, 'c, 'g) tcp_conn) hash_map"
  web_sessions :: "(nether_session_id, http_session_entry) hash_map"
  web_received :: "(nether_session_id \<times> bytes) list"
  web_received_unreliable :: "(nether_session_id \<times> bytes) list"
  web_events :: "nether_server_event list"

definition http_server_new ::
  "'net http_signaler_config \<Rightarrow> socket_addr \<Rightarrow> ip_addr list \<Rightarrow> ('s, 'c, 'g, 'net, 'sk, 'vk, 'conn) http_server" where
  "http_server_new config addr advertised = \<lparr>
     web_signaler = http_signaler_new config, web_commands = [], web_local_addr = addr, web_advertised = advertised,
     web_identity = None, web_warned_missing_identity = False, web_allow_unsigned_answers = False,
     web_warned_unsigned_answers = False, web_infer_peer_candidates = True, web_pending_limits = pending_limits_default,
     web_timeouts = timeouts_default, web_idle_timeout = DEFAULT_IDLE_TIMEOUT, web_tls = None, web_next_conn_id = 0,
     web_connections = [], web_sessions = [], web_received = [], web_received_unreliable = [], web_events = []\<rparr>"

type_synonym ('s, 'c, 'g, 'net, 'sk, 'vk, 'conn) web_run =
  "(('s, 'c, 'g, 'net, 'sk, 'vk, 'conn) http_server, unit, unit) run"

text \<open>A call of the signaler whose error is dropped.\<close>

definition web_takes ::
  "('sk, 'vk, 'sig, 'rsa) identity_ops \<Rightarrow> 'net ipnet_ops \<Rightarrow> http_signaler_input \<Rightarrow>
    ('s, 'c, 'g, 'net, 'sk, 'vk, 'conn) http_server \<Rightarrow> ('s, 'c, 'g, 'net, 'sk, 'vk, 'conn) web_run" where
  "web_takes I N msg s =
     (case http_handle I N (web_signaler s) msg of (sg, r) \<Rightarrow>
        Some (s\<lparr>web_signaler := sg\<rparr>, if r = Inl HandlerPanics then Inl () else Inr ()))"

text \<open>Configuration; the setters of the identity, the timeouts, the limits and so on assign a field each.\<close>

datatype ('g, 'sk, 'vk) web_setting =
    SetIdleTimeout duration
  | SetIdentity "('sk, 'vk) server_identity"
  | AllowUnsignedAnswers bool
  | SetTls 'g
  | SetTimeouts timeouts
  | SetPendingLimits pending_limits
  | SetInferPeerCandidates bool

definition web_set ::
  "('g, 'sk, 'vk) web_setting \<Rightarrow> ('s, 'c, 'g, 'net, 'sk, 'vk, 'conn) http_server \<Rightarrow> ('s, 'c, 'g, 'net, 'sk, 'vk, 'conn) http_server" where
  "web_set setting s =
     (case setting of
        SetIdleTimeout t \<Rightarrow> s\<lparr>web_idle_timeout := t\<rparr>
      | SetIdentity ident \<Rightarrow> s\<lparr>web_identity := Some ident\<rparr>
      | AllowUnsignedAnswers allow \<Rightarrow> s\<lparr>web_allow_unsigned_answers := allow\<rparr>
      | SetTls config \<Rightarrow> s\<lparr>web_tls := Some config\<rparr>
      | SetTimeouts t \<Rightarrow> s\<lparr>web_timeouts := t\<rparr>
      | SetPendingLimits limits \<Rightarrow> s\<lparr>web_pending_limits := limits\<rparr>
      | SetInferPeerCandidates infer \<Rightarrow> s\<lparr>web_infer_peer_candidates := infer\<rparr>)"

definition web_set_server_data ::
  "('sk, 'vk, 'sig, 'rsa) identity_ops \<Rightarrow> 'net ipnet_ops \<Rightarrow> server_data \<Rightarrow>
    ('s, 'c, 'g, 'net, 'sk, 'vk, 'conn) http_server \<Rightarrow> ('s, 'c, 'g, 'net, 'sk, 'vk, 'conn) web_run" where
  "web_set_server_data I N data s = web_takes I N (SetHttpServerData data) s"

definition web_set_token_trust ::
  "('sk, 'vk, 'sig, 'rsa) identity_ops \<Rightarrow> 'net ipnet_ops \<Rightarrow> token_trust option \<Rightarrow>
    ('s, 'c, 'g, 'net, 'sk, 'vk, 'conn) http_server \<Rightarrow> ('s, 'c, 'g, 'net, 'sk, 'vk, 'conn) web_run" where
  "web_set_token_trust I N trust s = web_takes I N (SetTokenTrust trust) s"

definition web_ready_sessions :: "('s, 'c, 'g, 'net, 'sk, 'vk, 'conn) http_server \<Rightarrow> nether_session_id list" where
  "web_ready_sessions s = map fst (filter (\<lambda>(_, e). se_ready e) (web_sessions s))"

definition web_player :: "nether_session_id \<Rightarrow> ('s, 'c, 'g, 'net, 'sk, 'vk, 'conn) http_server \<Rightarrow> player_info option" where
  "web_player who s = opt_bind (hm_get (web_sessions s) who) se_player"

definition web_host :: "nether_session_id \<Rightarrow> ('s, 'c, 'g, 'net, 'sk, 'vk, 'conn) http_server \<Rightarrow> string option" where
  "web_host who s = opt_bind (hm_get (web_sessions s) who) se_host"

definition web_rtt :: "nether_session_id \<Rightarrow> ('s, 'c, 'g, 'net, 'sk, 'vk, 'conn) http_server \<Rightarrow> duration option" where
  "web_rtt who s = opt_bind (hm_get (web_sessions s) who) se_rtt"

definition web_remote_addr :: "nether_session_id \<Rightarrow> ('s, 'c, 'g, 'net, 'sk, 'vk, 'conn) http_server \<Rightarrow> socket_addr option" where
  "web_remote_addr who s = opt_bind (hm_get (web_sessions s) who) se_remote_addr"

definition web_pool_takes ::
  "(nether_session_id, 'conn) pool_command \<Rightarrow> ('s, 'c, 'g, 'net, 'sk, 'vk, 'conn) http_server \<Rightarrow>
    ('s, 'c, 'g, 'net, 'sk, 'vk, 'conn) http_server" where
  "web_pool_takes cmd s = s\<lparr>web_commands := web_commands s @ [cmd]\<rparr>"

definition web_send_on ::
  "nether_session_id \<Rightarrow> channel \<Rightarrow> bytes \<Rightarrow> ('s, 'c, 'g, 'net, 'sk, 'vk, 'conn) http_server \<Rightarrow>
    (('s, 'c, 'g, 'net, 'sk, 'vk, 'conn) http_server, protocol_error, unit) step" where
  "web_send_on who ch data s =
     (if \<not> hm_contains (web_sessions s) who then (s, Inl (Other ''unknown session''))
      else st_ok (web_pool_takes (CmdSend who ch data) s))"

definition web_recv ::
  "('s, 'c, 'g, 'net, 'sk, 'vk, 'conn) http_server \<Rightarrow>
    ((nether_session_id \<times> bytes) \<times> ('s, 'c, 'g, 'net, 'sk, 'vk, 'conn) http_server) option" where
  "web_recv = pop_front web_received (\<lambda>q s. s\<lparr>web_received := q\<rparr>)"

definition web_recv_unreliable ::
  "('s, 'c, 'g, 'net, 'sk, 'vk, 'conn) http_server \<Rightarrow>
    ((nether_session_id \<times> bytes) \<times> ('s, 'c, 'g, 'net, 'sk, 'vk, 'conn) http_server) option" where
  "web_recv_unreliable = pop_front web_received_unreliable (\<lambda>q s. s\<lparr>web_received_unreliable := q\<rparr>)"

definition web_disconnect ::
  "nether_session_id \<Rightarrow> ('s, 'c, 'g, 'net, 'sk, 'vk, 'conn) http_server \<Rightarrow> ('s, 'c, 'g, 'net, 'sk, 'vk, 'conn) http_server" where
  "web_disconnect who s =
     (if hm_get (web_sessions s) who = None then s
      else (web_pool_takes (CmdRemove who) (s\<lparr>web_sessions := hm_remove who (web_sessions s)\<rparr>))
        \<lparr>web_events := web_events s @ [SessionDisconnected who]\<rparr>)"

definition web_next_event ::
  "('s, 'c, 'g, 'net, 'sk, 'vk, 'conn) http_server \<Rightarrow> (nether_server_event \<times> ('s, 'c, 'g, 'net, 'sk, 'vk, 'conn) http_server) option" where
  "web_next_event = pop_front web_events (\<lambda>q s. s\<lparr>web_events := q\<rparr>)"

section \<open>Connections\<close>

text \<open>An accepted stream with its peer address, when that can be told.\<close>

definition accept_one ::
  "('sk, 'vk, 'sig, 'rsa) identity_ops \<Rightarrow> 'net ipnet_ops \<Rightarrow> instant \<Rightarrow> 's \<times> socket_addr option \<Rightarrow>
    ('s, 'c, 'g, 'net, 'sk, 'vk, 'conn) http_server \<Rightarrow> ('s, 'c, 'g, 'net, 'sk, 'vk, 'conn) http_server" where
  "accept_one I N now = (\<lambda>(stream, peer) s.
     case peer of
       None \<Rightarrow> s
     | Some peer \<Rightarrow>
         (let cid = web_next_conn_id s;
              s = s\<lparr>web_next_conn_id := cid + 1, web_connections := hm_insert cid
                \<lparr>tc_stream = stream_accept (web_tls s) stream, tc_close_after_write = False, tc_requested = False,
                 tc_last_active = now\<rparr> (web_connections s)\<rparr>
          in s\<lparr>web_signaler := fst (http_handle I N (web_signaler s) (http_signaler_input.Connected cid peer now))\<rparr>))"

definition web_accept ::
  "('sk, 'vk, 'sig, 'rsa) identity_ops \<Rightarrow> 'net ipnet_ops \<Rightarrow> instant \<Rightarrow> ('s \<times> socket_addr option) list \<Rightarrow>
    ('s, 'c, 'g, 'net, 'sk, 'vk, 'conn) http_server \<Rightarrow> ('s, 'c, 'g, 'net, 'sk, 'vk, 'conn) http_server" where
  "web_accept I N now accepted s = fold (accept_one I N now) (take MAX_ACCEPTS_PER_TICK accepted) s"

text \<open>What the pass over the connections notes of one of them.\<close>

datatype pumped = PumpNothing | PumpClosed | PumpRequest http_request

type_synonym ('s, 'c, 'g) pump_run = "(('s, 'c, 'g) tcp_conn, unit, pumped) run"

text \<open>An error of the stream closes the connection, a panic is one.\<close>

definition stream_failed :: "'e tcp_error \<Rightarrow> (unit, pumped) result" where
  "stream_failed e = (if e = TcpPanics then Inl () else Inr PumpClosed)"

definition pump_close :: "('s, 'c, 'g, 'e) wire_ops \<Rightarrow> ('s, 'c, 'g) tcp_conn \<Rightarrow> ('s, 'c, 'g) pump_run" where
  "pump_close W conn =
     map_option (\<lambda>(h, r). (conn\<lparr>tc_stream := h\<rparr>, Inr (if r = ShutdownDone then PumpClosed else PumpNothing)))
       (stream_close W (tc_stream conn))"

definition request_error_status :: "request_error \<Rightarrow> nat" where
  "request_error_status e =
     (case e of RequestHeaderCountExceeded \<Rightarrow> 431 | RequestMalformed \<Rightarrow> 400 | RequestSizeExceeded \<Rightarrow> 413 | LengthRequired \<Rightarrow> 411)"

definition pump_request ::
  "httparse_ops \<Rightarrow> (byte_request, 'r) http_ops \<Rightarrow> ('s, 'c, 'g) tcp_conn \<Rightarrow> ('s, 'c, 'g) pump_run" where
  "pump_request H T conn =
     (let clear = (\<lambda>conn. conn\<lparr>tc_stream := (tc_stream conn)\<lparr>st_inbound := []\<rparr>\<rparr>) in
      if tc_requested conn then Some (clear conn, Inr PumpNothing)
      else case request_parse H T (st_inbound (tc_stream conn)) of
        Inr (Some q) \<Rightarrow>
          (case text_body_request q of
             Inl _ \<Rightarrow> Some (refuse T 400 conn, Inr PumpNothing)
           | Inr request \<Rightarrow> Some ((clear conn)\<lparr>tc_requested := True\<rparr>, Inr (PumpRequest request)))
      | Inr None \<Rightarrow>
          if MAX_BODY < length (st_inbound (tc_stream conn)) then Some (refuse T 413 conn, Inr PumpNothing)
          else Some (conn, Inr PumpNothing)
      | Inl WirePanics \<Rightarrow> Some (conn, Inl ())
      | Inl (WireFails e) \<Rightarrow> Some (refuse T (request_error_status e) conn, Inr PumpNothing))"

definition pump_flush ::
  "('s, 'c, 'g, 'e) wire_ops \<Rightarrow> httparse_ops \<Rightarrow> (byte_request, 'r) http_ops \<Rightarrow> ('s, 'c, 'g) tcp_conn \<Rightarrow> ('s, 'c, 'g) pump_run" where
  "pump_flush W H T conn =
     (case stream_establish W (tc_stream conn) of
        None \<Rightarrow> None
      | Some (h, Inl e) \<Rightarrow> Some (conn\<lparr>tc_stream := h\<rparr>, stream_failed e)
      | Some (h, Inr InboundClosed) \<Rightarrow> Some (conn\<lparr>tc_stream := h\<rparr>, Inr PumpClosed)
      | Some (h, Inr _) \<Rightarrow>
          (case stream_flush W h of
             None \<Rightarrow> None
           | Some (h, Inl e) \<Rightarrow> Some (conn\<lparr>tc_stream := h\<rparr>, stream_failed e)
           | Some (h, Inr _) \<Rightarrow> pump_request H T (conn\<lparr>tc_stream := h\<rparr>)))"

definition pump_read ::
  "('s, 'c, 'g, 'e) wire_ops \<Rightarrow> httparse_ops \<Rightarrow> (byte_request, 'r) http_ops \<Rightarrow> instant \<Rightarrow> ('s, 'c, 'g) tcp_conn \<Rightarrow> ('s, 'c, 'g) pump_run" where
  "pump_read W H T now conn =
     (case stream_fill W (tc_stream conn) of
        None \<Rightarrow> None
      | Some (h, Inl e) \<Rightarrow> Some (conn\<lparr>tc_stream := h\<rparr>, stream_failed e)
      | Some (h, Inr InboundClosed) \<Rightarrow> Some (conn\<lparr>tc_stream := h\<rparr>, Inr PumpClosed)
      | Some (h, Inr InboundReceived) \<Rightarrow> pump_flush W H T (conn\<lparr>tc_stream := h, tc_last_active := now\<rparr>)
      | Some (h, Inr InboundIdle) \<Rightarrow> pump_flush W H T (conn\<lparr>tc_stream := h\<rparr>))"

definition pump_conn ::
  "('s, 'c, 'g, 'e) wire_ops \<Rightarrow> httparse_ops \<Rightarrow> (byte_request, 'r) http_ops \<Rightarrow> instant \<Rightarrow> ('s, 'c, 'g) tcp_conn \<Rightarrow> ('s, 'c, 'g) pump_run" where
  "pump_conn W H T now conn =
     (if \<not> has_outbound (tc_stream conn) \<and> tc_close_after_write conn then pump_close W conn
      else case stream_drain W (tc_stream conn) of
        None \<Rightarrow> None
      | Some (h, Inl e) \<Rightarrow> Some (conn\<lparr>tc_stream := h\<rparr>, stream_failed e)
      | Some (h, Inr DrainPartial) \<Rightarrow> pump_read W H T now (conn\<lparr>tc_stream := h, tc_last_active := now\<rparr>)
      | Some (h, Inr DrainComplete) \<Rightarrow>
          (let conn = conn\<lparr>tc_stream := h, tc_last_active := now\<rparr> in
           if tc_close_after_write conn then pump_close W conn else pump_read W H T now conn)
      | Some (h, Inr _) \<Rightarrow> pump_read W H T now (conn\<lparr>tc_stream := h\<rparr>))"

text \<open>The pass over all of them, with the ids that closed and the requests, in order.\<close>

fun pump_all ::
  "('s, 'c, 'g, 'e) wire_ops \<Rightarrow> httparse_ops \<Rightarrow> (byte_request, 'r) http_ops \<Rightarrow> instant \<Rightarrow> (u64, ('s, 'c, 'g) tcp_conn) hash_map \<Rightarrow>
    ((u64, ('s, 'c, 'g) tcp_conn) hash_map, unit, u64 list \<times> (u64 \<times> http_request) list) run" where
  "pump_all W H T now [] = Some ([], Inr ([], []))"
| "pump_all W H T now ((cid, conn) # rest) =
     (case pump_conn W H T now conn of
        None \<Rightarrow> None
      | Some (conn, Inl _) \<Rightarrow> Some ((cid, conn) # rest, Inl ())
      | Some (conn, Inr p) \<Rightarrow>
          (case pump_all W H T now rest of
             None \<Rightarrow> None
           | Some (rest, Inl _) \<Rightarrow> Some ((cid, conn) # rest, Inl ())
           | Some (rest, Inr (closed, requests)) \<Rightarrow>
               Some ((cid, conn) # rest,
                 Inr (case p of
                    PumpNothing \<Rightarrow> (closed, requests)
                  | PumpClosed \<Rightarrow> (cid # closed, requests)
                  | PumpRequest q \<Rightarrow> (closed, (cid, q) # requests)))))"

text \<open>Dropping a connection and telling the signaler, which does not fail.\<close>

definition drop_conn ::
  "('sk, 'vk, 'sig, 'rsa) identity_ops \<Rightarrow> 'net ipnet_ops \<Rightarrow> u64 \<Rightarrow> ('s, 'c, 'g, 'net, 'sk, 'vk, 'conn) http_server \<Rightarrow>
    ('s, 'c, 'g, 'net, 'sk, 'vk, 'conn) http_server" where
  "drop_conn I N cid s =
     s\<lparr>web_connections := hm_remove cid (web_connections s),
       web_signaler := fst (http_handle I N (web_signaler s) (Closed cid))\<rparr>"

fun pass_requests ::
  "('sk, 'vk, 'sig, 'rsa) identity_ops \<Rightarrow> 'net ipnet_ops \<Rightarrow> (u64 \<Rightarrow> clock_and_random) \<Rightarrow> instant \<Rightarrow> (u64 \<times> http_request) list \<Rightarrow>
    ('s, 'c, 'g, 'net, 'sk, 'vk, 'conn) http_server \<Rightarrow> ('s, 'c, 'g, 'net, 'sk, 'vk, 'conn) web_run" where
  "pass_requests I N env now [] s = run_ok s"
| "pass_requests I N env now ((cid, q) # rest) s =
     run_bind (web_takes I N (HttpRequest cid q now (env cid)) s) (\<lambda>_. pass_requests I N env now rest)"

definition pump_connections where
  "pump_connections W H T I N env now s =
     (case pump_all W H T now (web_connections s) of
        None \<Rightarrow> None
      | Some (conns, Inl _) \<Rightarrow> Some (s\<lparr>web_connections := conns\<rparr>, Inl ())
      | Some (conns, Inr (closed, requests)) \<Rightarrow>
          run_bind (pass_requests I N env now requests (s\<lparr>web_connections := conns\<rparr>)) (\<lambda>_ s.
            run_ok (fold (drop_conn I N) closed s)))"

section \<open>Offers\<close>

definition web_policy :: "('s, 'c, 'g, 'net, 'sk, 'vk, 'conn) http_server \<Rightarrow> ('sk, 'vk) offer_policy" where
  "web_policy s =
     (let policy = with_establish_deadline (establish (web_timeouts s))
            (with_inferred_peer_candidates (web_infer_peer_candidates s) (policy_new Full))
      in case web_identity s of Some ident \<Rightarrow> with_identity ident policy | None \<Rightarrow> policy)"

definition offer_session :: "http_offer \<Rightarrow> nether_session_id" where
  "offer_session offer = \<lparr>sid_network_id = of_network_id offer, sid_connection_id = of_connection_id offer\<rparr>"

text \<open>An admitted offer that was answered: the first signal is the answer, sent with the response, and the session starts.\<close>

definition web_start where
  "web_start I N offer now answered s =
     (case ans_signals answered of
        [] \<Rightarrow> web_takes I N (Reject (of_connection_id offer) Unavailable) s
      | ans # _ \<Rightarrow>
          run_bind (web_takes I N (Answered (of_connection_id offer) (sig_data ans)) s) (\<lambda>_ s.
            let s = web_pool_takes (CmdAdd (offer_session offer) (ans_connection answered) (ans_local_ufrag answered)) s in
            run_ok (s\<lparr>web_sessions := hm_insert (offer_session offer)
              \<lparr>se_ready = False, se_created = now, se_remote_addr = None, se_rtt = None,
               se_player = (case ans_player answered of Some p \<Rightarrow> Some p | None \<Rightarrow> of_player offer), se_host = of_host offer\<rparr>
              (web_sessions s)\<rparr>)))"

definition web_admit where
  "web_admit I N X Y draw offer now s =
     (if \<not> admits_offer (pending_ids (web_sessions s)) (of_network_id offer) (web_pending_limits s)
      then web_takes I N (Reject (of_connection_id offer) Unavailable) s
      else
        (let d = draw (offer_session offer) in
         case admit I Y (web_policy s) (offer_signal offer) (of_client_address offer) (drawn_wall d) of
           (_, Inl AdmissionPanics) \<Rightarrow> Some (s, Inl ())
         | (_, Inl (Refused e)) \<Rightarrow> web_takes I N (Reject (of_connection_id offer) (reject_reason_from (admission_code e))) s
         | (_, Inr adm) \<Rightarrow>
             (case answer_advertising I X Y (drawn_credentials d) (drawn_clock d) adm (web_local_addr s) (web_advertised s) now of
                None \<Rightarrow> None
              | Some (Inl AdmissionPanics) \<Rightarrow> Some (s, Inl ())
              | Some (Inl (Refused e)) \<Rightarrow>
                  web_takes I N (Reject (of_connection_id offer) (reject_reason_from (admission_code e))) s
              | Some (Inr answered) \<Rightarrow> web_start I N offer now answered s)))"

definition web_handle_offer where
  "web_handle_offer I N X Y draw offer now s =
     (if web_identity s = None then
        if \<not> web_allow_unsigned_answers s
        then web_takes I N (Reject (of_connection_id offer) Unavailable) (s\<lparr>web_warned_missing_identity := True\<rparr>)
        else web_admit I N X Y draw offer now (s\<lparr>web_warned_unsigned_answers := True\<rparr>)
      else web_admit I N X Y draw offer now s)"

text \<open>A connection that is gone is passed over.\<close>

definition with_conn ::
  "u64 \<Rightarrow> (('s, 'c, 'g) tcp_conn \<Rightarrow> ('s, 'c, 'g) tcp_conn) \<Rightarrow> ('s, 'c, 'g, 'net, 'sk, 'vk, 'conn) http_server \<Rightarrow>
    ('s, 'c, 'g, 'net, 'sk, 'vk, 'conn) http_server" where
  "with_conn cid f s =
     (case hm_get (web_connections s) cid of
        None \<Rightarrow> s
      | Some conn \<Rightarrow> s\<lparr>web_connections := hm_insert cid (f conn) (web_connections s)\<rparr>)"

definition encode_response :: "('q, 'r) http_ops \<Rightarrow> http_response \<Rightarrow> bytes" where
  "encode_response T r = response_encode T (resp_status r) (map (\<lambda>(n, v). (n, as_bytes v)) (resp_headers r)) (resp_body r)"

definition web_handle_output where
  "web_handle_output T I N X Y draw now out s =
     (case out of
        OutResponse cid response _ \<Rightarrow>
          run_ok (with_conn cid (\<lambda>conn. conn\<lparr>tc_stream := stream_queue (encode_response T response) (tc_stream conn),
            tc_close_after_write := True\<rparr>) s)
      | OutClose cid \<Rightarrow> run_ok (with_conn cid (\<lambda>conn. conn\<lparr>tc_close_after_write := True\<rparr>) s)
      | OutOffer offer \<Rightarrow> web_handle_offer I N X Y draw offer now s
      | OutHttpWait _ \<Rightarrow> run_ok s)"

section \<open>Sessions\<close>

definition web_pool_event ::
  "nether_session_id \<times> connection_event \<Rightarrow> ('s, 'c, 'g, 'net, 'sk, 'vk, 'conn) http_server \<times> nether_session_id list \<Rightarrow>
    ('s, 'c, 'g, 'net, 'sk, 'vk, 'conn) http_server \<times> nether_session_id list" where
  "web_pool_event ev st =
     (case (ev, st) of ((who, ev), (s, failed)) \<Rightarrow>
      (case hm_get (web_sessions s) who of
         None \<Rightarrow> (s, failed)
       | Some e \<Rightarrow>
           (case ev of
              PoolReady addr \<Rightarrow>
                if \<not> se_ready e
                then (s\<lparr>web_sessions := hm_insert who (e\<lparr>se_ready := True, se_remote_addr := addr\<rparr>) (web_sessions s),
                        web_events := web_events s @ [SessionConnected who]\<rparr>, failed)
                else (s, failed)
            | PoolRtt rtt \<Rightarrow> (s\<lparr>web_sessions := hm_insert who (e\<lparr>se_rtt := Some rtt\<rparr>) (web_sessions s)\<rparr>, failed)
            | PoolMessage Reliable data \<Rightarrow> (s\<lparr>web_received := web_received s @ [(who, data)]\<rparr>, failed)
            | PoolMessage Unreliable data \<Rightarrow> (s\<lparr>web_received_unreliable := web_received_unreliable s @ [(who, data)]\<rparr>, failed)
            | PoolFailed \<Rightarrow> (s, failed @ [who]))))"

definition drive_sessions ::
  "(nether_session_id \<times> connection_event) list \<Rightarrow> ('s, 'c, 'g, 'net, 'sk, 'vk, 'conn) http_server \<Rightarrow>
    ('s, 'c, 'g, 'net, 'sk, 'vk, 'conn) http_server" where
  "drive_sessions events s = (case fold web_pool_event events (s, []) of (s, failed) \<Rightarrow> fold web_disconnect failed s)"

section \<open>The frame\<close>

definition close_idle ::
  "('sk, 'vk, 'sig, 'rsa) identity_ops \<Rightarrow> 'net ipnet_ops \<Rightarrow> instant \<Rightarrow> ('s, 'c, 'g, 'net, 'sk, 'vk, 'conn) http_server \<Rightarrow>
    ('s, 'c, 'g, 'net, 'sk, 'vk, 'conn) http_server" where
  "close_idle I N now s =
     fold (drop_conn I N) (map fst (filter (\<lambda>(_, conn). web_idle_timeout s \<le> now - tc_last_active conn) (web_connections s))) s"

text \<open>The sessions that did not come up in time are forgotten; the pool is not told.\<close>

definition forget_unestablished ::
  "instant \<Rightarrow> ('s, 'c, 'g, 'net, 'sk, 'vk, 'conn) http_server \<Rightarrow> ('s, 'c, 'g, 'net, 'sk, 'vk, 'conn) http_server" where
  "forget_unestablished now s =
     s\<lparr>web_sessions := hm_retain (\<lambda>_ e. se_ready e \<or> now - se_created e < establish (web_timeouts s)) (web_sessions s)\<rparr>"

definition web_poll ::
  "('s, 'c, 'g, 'net, 'sk, 'vk, 'conn) http_server \<Rightarrow> (http_signaler_output \<times> ('s, 'c, 'g, 'net, 'sk, 'vk, 'conn) http_server) option" where
  "web_poll s = map_option (\<lambda>(out, sg). (out, s\<lparr>web_signaler := sg\<rparr>)) (http_poll (web_signaler s))"

record 's web_frame =
  wf_now :: instant
  wf_accepted :: "('s \<times> socket_addr option) list"
  wf_request :: "u64 \<Rightarrow> clock_and_random"
  wf_draw :: "nether_session_id \<Rightarrow> offer_draw"
  wf_events :: "(nether_session_id \<times> connection_event) list"

definition web_update where
  "web_update W H T I N X Y f s =
     (let now = wf_now f in
      run_bind (pump_connections W H T I N (wf_request f) now (web_accept I N now (wf_accepted f) s)) (\<lambda>_ s.
      run_bind (web_takes I N (HttpUpdate now) s) (\<lambda>_ s.
      run_bind (while_run web_poll (web_handle_output T I N X Y (wf_draw f) now) s) (\<lambda>_ s.
        run_ok (forget_unestablished now (close_idle I N now (drive_sessions (wf_events f) s)))))))"

end
