(* ===== verification/Http_Server_System.thy ===== *)
theory Http_Server_System
  imports Http_Server Lan_Server_System
begin

text \<open>
  The Bevy HTTP server over any sequence of frames and calls of the application.  Proved: the signaler's table of
  connections never outlives the server's, so that its count of slots per address stays exact; a connection passes at most
  one request on; pending offers stay within both limits; sessions have a player under a trust; connect and disconnect
  events are in step with the sessions; no bytes from the network make a frame panic while it reads; and every frame returns.
\<close>

section \<open>The signaler\<close>

definition offers_of :: "http_signaler_output list \<Rightarrow> http_offer list" where
  "offers_of q = concat (map (\<lambda>out. case out of OutOffer off \<Rightarrow> [off] | _ \<Rightarrow> []) q)"

lemma offers_of_simps [simp]:
  "offers_of [] = []" "offers_of (q @ q') = offers_of q @ offers_of q'"
  "offers_of (OutOffer off # q) = off # offers_of q" "offers_of (OutResponse c r k # q) = offers_of q"
  "offers_of (OutClose c # q) = offers_of q" "offers_of (OutHttpWait w # q) = offers_of q"
  by (simp_all add: offers_of_def)

abbreviation trusts :: "'net http_signaler \<Rightarrow> bool" where
  "trusts sg \<equiv> hs_token_trust (hs_config sg) \<noteq> None"

text \<open>What an input adds to the offers: one for a request that joins, none for any other.\<close>

lemma reject_all_offers:
  "offers_of (hs_output (fst (reject_all cs sg))) = offers_of (hs_output sg) \<and> hs_config (fst (reject_all cs sg)) = hs_config sg"
proof (induction cs arbitrary: sg)
  case (Cons c cs)
  obtain s1 r where step: "reject c reject_reason.Timeout sg = (s1, r)"
    by fastforce
  then have "offers_of (hs_output s1) = offers_of (hs_output sg)" "hs_config s1 = hs_config sg"
    by (auto simp: reject_def respond_def push_response_def st_ok_def split: option.splits)
  with Cons [of s1] step show ?case
    by (cases r) auto
qed simp

lemma handle_offers:
  assumes "\<And>c r now env. i \<noteq> HttpRequest c r now env" "\<And>t. i \<noteq> SetTokenTrust t"
  shows "offers_of (hs_output (fst (http_handle I N sg i))) = offers_of (hs_output sg)"
    "hs_config (fst (http_handle I N sg i)) = hs_config sg"
proof -
  have "offers_of (hs_output (fst (http_handle I N sg i))) = offers_of (hs_output sg) \<and>
      hs_config (fst (http_handle I N sg i)) = hs_config sg"
  proof (cases i)
    case (HttpUpdate now)
    obtain s1 r where "reject_all (expired_joins now sg) sg = (s1, r)"
      by fastforce
    with reject_all_offers [of "expired_joins now sg" sg] show ?thesis
      by (cases r) (auto simp: HttpUpdate http_update_def)
  qed (use assms in \<open>auto simp: http_connected_def http_closed_def answer_def reject_def respond_def respond_with_def
      push_response_def Let_def split: option.splits\<close>)
  then show "offers_of (hs_output (fst (http_handle I N sg i))) = offers_of (hs_output sg)"
    "hs_config (fst (http_handle I N sg i)) = hs_config sg"
    by simp_all
qed

lemma request_offers:
  fixes I N and sg :: "'net http_signaler" and c r now env
  defines "sg' \<equiv> fst (http_handle I N sg (HttpRequest c r now env))"
  shows "trusts sg' = trusts sg \<and> (offers_of (hs_output sg') = offers_of (hs_output sg) \<or>
    (\<exists>off. offers_of (hs_output sg') = offers_of (hs_output sg) @ [off] \<and> of_connection_id off = random_id env \<and>
       (trusts sg \<longrightarrow> of_player off \<noteq> None)))"
  unfolding sg'_def
  by (auto simp: handle_request_def http_status_def join_def register_join_def respond_def respond_with_def push_response_def
      Let_def split: option.splits prod.splits sum.splits identity_failure.splits)

text \<open>Only the arrival of a connection adds one to the signaler's table.\<close>

lemma handle_table:
  "hm_get (hs_connections (fst (http_handle I N sg i))) c \<noteq> None \<Longrightarrow>
     hm_get (hs_connections sg) c \<noteq> None \<or> (\<exists>a t. i = http_signaler_input.Connected c a t)"
proof (cases i)
  case (Connected c' a t)
  then show "hm_get (hs_connections (fst (http_handle I N sg i))) c \<noteq> None \<Longrightarrow> ?thesis"
    by (auto simp: http_connected_def hm_get_insert Let_def split: if_splits)
next
  case (Closed c')
  then show "hm_get (hs_connections (fst (http_handle I N sg i))) c \<noteq> None \<Longrightarrow> ?thesis"
    by (auto simp: http_closed_def hm_get_remove split: option.splits if_splits)
qed (use http_handle_connections [of i I N sg] in \<open>simp_all\<close>)

lemma closed_table:
  "hm_get (hs_connections (fst (http_handle I N sg (Closed c)))) c' \<noteq> None \<Longrightarrow> c' \<noteq> c \<and> hm_get (hs_connections sg) c' \<noteq> None"
  by (auto simp: http_closed_def hm_get_remove split: option.splits if_splits)

section \<open>One pass over the connections\<close>

lemma stream_inv_simps [simp]:
  "stream_inv (h\<lparr>st_wire := w\<rparr>) = stream_inv h" "stream_inv (h\<lparr>st_inbound := bs\<rparr>) = stream_inv h"
  by (simp_all add: stream_inv_def)

lemma stream_inv_queue: "stream_inv h \<Longrightarrow> stream_inv (stream_queue bs h)"
  by (auto simp: stream_inv_def stream_queue_def)

lemma stream_inv_new: "stream_inv (http_stream_new w)"
  by (simp add: stream_inv_def http_stream_new_def)

lemma stream_inv_steps:
  assumes "stream_inv h"
  shows "stream_fill W h = Some (h', r) \<Longrightarrow> stream_inv h'" "stream_flush W h = Some (h', r') \<Longrightarrow> stream_inv h'"
    "stream_close W h = Some (h', r'') \<Longrightarrow> stream_inv h'" "stream_establish W h = Some (h', r) \<Longrightarrow> stream_inv h'"
  using assms
  by (auto simp: stream_fill_def stream_flush_def stream_close_def stream_establish_def stream_inv_def
      split: if_splits prod.splits sum.splits)

text \<open>What a pass does to a connection: its stream stays well formed and a request stays noted; one that is passed on is
  noted then.\<close>

definition pump_ok :: "('s, 'c, 'g) tcp_conn \<Rightarrow> ('s, 'c, 'g) tcp_conn \<Rightarrow> pumped \<Rightarrow> bool" where
  "pump_ok conn conn' p \<longleftrightarrow>
     stream_inv (tc_stream conn') \<and> (tc_requested conn \<longrightarrow> tc_requested conn') \<and>
     (\<forall>q. p = PumpRequest q \<longrightarrow> \<not> tc_requested conn \<and> tc_requested conn')"

definition pump_fine :: "('s, 'c, 'g) tcp_conn \<Rightarrow> ('s, 'c, 'g) pump_run \<Rightarrow> bool" where
  "pump_fine conn r \<longleftrightarrow> (\<forall>conn' x. r = Some (conn', x) \<longrightarrow> (\<exists>p. x = Inr p \<and> pump_ok conn conn' p))"

lemma pump_fine_None [simp]: "pump_fine conn None"
  by (simp add: pump_fine_def)

lemma pump_fine_Some [simp]: "pump_fine conn (Some (conn', x)) \<longleftrightarrow> (\<exists>p. x = Inr p \<and> pump_ok conn conn' p)"
  by (simp add: pump_fine_def)

lemma pump_fine_cong: "tc_requested conn = tc_requested conn' \<Longrightarrow> pump_fine conn r = pump_fine conn' r"
  by (simp add: pump_fine_def pump_ok_def)

lemma stream_failed_Inr: "e \<noteq> TcpPanics \<Longrightarrow> stream_failed e = Inr PumpClosed"
  by (simp add: stream_failed_def)

lemma pump_close_fine: "stream_inv (tc_stream conn) \<Longrightarrow> pump_fine conn (pump_close W conn)"
  using stream_inv_steps(3) [of "tc_stream conn" W]
  by (auto simp: pump_close_def pump_fine_def pump_ok_def)

lemma pump_request_fine:
  assumes "httparse_laws H" "stream_inv (tc_stream conn)"
  shows "pump_fine conn (pump_request H T conn)"
proof -
  have "request_parse H T buf = Inl WirePanics \<longleftrightarrow> False" for buf
    using parse_no_panic(1) [OF assms(1)] by blast
  note never = this
  have refused: "pump_ok conn (refuse T n conn) PumpNothing" for n
    using assms(2) by (simp add: refuse_def pump_ok_def stream_inv_queue)
  show ?thesis
    using assms(2) refused
    by (auto simp: pump_request_def never pump_ok_def Let_def split: sum.split option.split wire_failure.split)
qed

lemma pump_flush_fine:
  assumes laws: "wire_laws W" "httparse_laws H" and inv: "stream_inv (tc_stream conn)"
  shows "pump_fine conn (pump_flush W H T conn)"
proof (cases "stream_establish W (tc_stream conn)")
  case (Some hr)
  obtain h r where hr: "hr = (h, r)" by (cases hr)
  have h: "stream_inv h" using stream_inv_steps(4) [OF inv] Some hr by blast
  have no: "r \<noteq> Inl TcpPanics" using stream_no_panic(2) [OF laws(1), of "tc_stream conn"] Some hr by simp
  have closed: "pump_ok conn (conn\<lparr>tc_stream := h\<rparr>) PumpClosed" if "stream_inv h" for h
    using that by (simp add: pump_ok_def)
  have flushed: "pump_fine conn (case stream_flush W h of
      None \<Rightarrow> None
    | Some (h, Inl e) \<Rightarrow> Some (conn\<lparr>tc_stream := h\<rparr>, stream_failed e)
    | Some (h, Inr _) \<Rightarrow> pump_request H T (conn\<lparr>tc_stream := h\<rparr>))"
  proof (cases "stream_flush W h")
    case (Some hr')
    obtain h' r' where hr': "hr' = (h', r')" by (cases hr')
    have h': "stream_inv h'" using stream_inv_steps(2) [OF h] Some hr' by blast
    have "no_panic (stream_flush W h)" by (rule stream_flush_no_panic)
    then have "r' \<noteq> Inl TcpPanics" using Some hr' by simp
    moreover have "pump_fine conn (pump_request H T (conn\<lparr>tc_stream := h'\<rparr>))"
      using pump_request_fine [OF laws(2), of "conn\<lparr>tc_stream := h'\<rparr>" T] h'
        pump_fine_cong [of conn "conn\<lparr>tc_stream := h'\<rparr>"] by simp
    ultimately show ?thesis
      using Some hr' closed [OF h'] by (cases r') (auto simp: stream_failed_Inr)
  qed simp
  show ?thesis
  proof (cases r)
    case (Inl e)
    with no Some hr closed [OF h] show ?thesis by (simp add: pump_flush_def stream_failed_Inr)
  next
    case (Inr i)
    with Some hr closed [OF h] flushed show ?thesis by (cases i) (simp_all add: pump_flush_def)
  qed
qed (simp add: pump_flush_def)

lemma pump_read_fine:
  assumes laws: "wire_laws W" "httparse_laws H" and inv: "stream_inv (tc_stream conn)"
  shows "pump_fine conn (pump_read W H T now conn)"
proof (cases "stream_fill W (tc_stream conn)")
  case (Some hr)
  obtain h r where hr: "hr = (h, r)" by (cases hr)
  have h: "stream_inv h" using stream_inv_steps(1) [OF inv] Some hr by blast
  have no: "r \<noteq> Inl TcpPanics" using stream_no_panic(1) [OF laws(1), of "tc_stream conn"] Some hr by simp
  have closed: "pump_ok conn (conn\<lparr>tc_stream := h\<rparr>) PumpClosed"
    using h by (simp add: pump_ok_def)
  have flushed: "pump_fine conn (pump_flush W H T conn')" if "tc_stream conn' = h" "tc_requested conn' = tc_requested conn" for conn'
    using pump_flush_fine [OF laws, of conn' T] pump_fine_cong [of conn conn'] that h by simp
  show ?thesis
  proof (cases r)
    case (Inl e)
    with no Some hr closed show ?thesis by (simp add: pump_read_def stream_failed_Inr)
  next
    case (Inr i)
    with Some hr closed flushed show ?thesis by (cases i) (simp_all add: pump_read_def)
  qed
qed (simp add: pump_read_def)

lemma pump_conn_fine:
  assumes laws: "wire_laws W" "httparse_laws H" and inv: "stream_inv (tc_stream conn)"
  shows "pump_fine conn (pump_conn W H T now conn)"
proof (cases "\<not> has_outbound (tc_stream conn) \<and> tc_close_after_write conn")
  case True
  then show ?thesis using pump_close_fine [OF inv] by (simp add: pump_conn_def)
next
  case False
  show ?thesis
  proof (cases "stream_drain W (tc_stream conn)")
    case (Some hr)
    obtain h r where hr: "hr = (h, r)" by (cases hr)
    note kept = stream_drain_keeps [OF laws(1) inv Some [unfolded hr]]
    have read: "pump_fine conn (pump_read W H T now conn')" "pump_fine conn (pump_close W conn')"
      if "tc_stream conn' = h" "tc_requested conn' = tc_requested conn" for conn'
      using pump_read_fine [OF laws, of conn' T now] pump_close_fine [of conn' W] pump_fine_cong [of conn conn'] that kept(1)
      by simp_all
    show ?thesis
    proof (cases r)
      case (Inl e)
      with kept Some hr show ?thesis
        unfolding pump_conn_def if_not_P [OF False] by (simp add: stream_failed_Inr pump_ok_def)
    next
      case (Inr d)
      with Some hr read show ?thesis
        unfolding pump_conn_def if_not_P [OF False] by (cases d) (simp_all add: Let_def)
    qed
  qed (unfold pump_conn_def if_not_P [OF False], simp)
qed

text \<open>The pass as a whole: the connections stay, and each that passes a request on had passed none before.\<close>

definition pass_ok ::
  "(u64, ('s, 'c, 'g) tcp_conn) hash_map \<Rightarrow> (u64, ('s, 'c, 'g) tcp_conn) hash_map \<Rightarrow> u64 list \<Rightarrow> bool" where
  "pass_ok m m' asked \<longleftrightarrow>
     map fst m' = map fst m \<and> distinct asked \<and>
     (\<forall>c conn'. hm_get m' c = Some conn' \<longrightarrow> stream_inv (tc_stream conn') \<and>
        (\<exists>conn. hm_get m c = Some conn \<and> (tc_requested conn \<longrightarrow> tc_requested conn'))) \<and>
     (\<forall>c\<in>set asked. \<exists>conn conn'. hm_get m c = Some conn \<and> \<not> tc_requested conn \<and> hm_get m' c = Some conn' \<and> tc_requested conn')"

lemma pump_all_fine:
  assumes laws: "wire_laws W" "httparse_laws H" and wf: "hm_wf m"
    and inv: "\<And>c conn. hm_get m c = Some conn \<Longrightarrow> stream_inv (tc_stream conn)"
    and run: "pump_all W H T now m = Some (m', x)"
  shows "\<exists>closed requests. x = Inr (closed, requests) \<and> pass_ok m m' (map fst requests)"
  using wf inv run
proof (induction m arbitrary: m' x)
  case Nil
  then show ?case by (auto simp: pass_ok_def hm_get_def)
next
  case (Cons cc rest)
  obtain cid conn where cc: "cc = (cid, conn)" by (cases cc)
  have new: "hm_get rest cid = None" and wf: "hm_wf rest"
    using Cons.prems(1) by (auto simp: cc hm_wf_def hm_get_def map_of_eq_None_iff)
  have inv: "stream_inv (tc_stream conn)" using Cons.prems(2) [of cid conn] by (simp add: cc hm_get_def)
  have rest_inv: "stream_inv (tc_stream k)" if "hm_get rest c = Some k" for c k
    using Cons.prems(2) [of c k] that new by (cases "c = cid") (auto simp: cc hm_get_def)
  obtain conn1 p where p: "pump_conn W H T now conn = Some (conn1, Inr p)" and ok: "pump_ok conn conn1 p"
    using Cons.prems(3) pump_conn_fine [OF laws inv, of T now] by (auto simp: cc pump_fine_def split: option.splits)
  obtain rest1 y where rest: "pump_all W H T now rest = Some (rest1, y)"
    using Cons.prems(3) p by (auto simp: cc split: option.splits)
  obtain closed requests where y: "y = Inr (closed, requests)" and pass: "pass_ok rest rest1 (map fst requests)"
    using Cons.IH [OF wf _ rest] rest_inv by blast
  have "cid \<notin> fst ` set rest1"
    using pass new by (metis (no_types, lifting) hm_get_def list.set_map map_of_eq_None_iff pass_ok_def)
  then have new1: "hm_get rest1 cid = None" by (simp add: hm_get_def map_of_eq_None_iff)
  have m': "m' = (cid, conn1) # rest1"
    using Cons.prems(3) p rest y by (auto simp: cc)
  have get: "hm_get (cc # rest) c = (if c = cid then Some conn else hm_get rest c)"
    "hm_get m' c = (if c = cid then Some conn1 else hm_get rest1 c)" for c
    by (auto simp: cc m' hm_get_def)
  have asked: "cid \<notin> set (map fst requests)"
    using pass new by (auto simp: pass_ok_def)
  have "pass_ok (cc # rest) m' asked" if "asked = (case p of PumpRequest q \<Rightarrow> cid # map fst requests | _ \<Rightarrow> map fst requests)" for asked
    using pass ok asked new new1 that unfolding pass_ok_def get
    by (cases p) (auto simp: cc m' pump_ok_def)
  moreover have "\<exists>closed' requests'. x = Inr (closed', requests') \<and>
      map fst requests' = (case p of PumpRequest q \<Rightarrow> cid # map fst requests | _ \<Rightarrow> map fst requests)"
    using Cons.prems(3) p rest y by (cases p) (auto simp: cc)
  ultimately show ?case by metis
qed

section \<open>The invariant\<close>

definition offers_ok ::
  "bool \<Rightarrow> u64 set \<Rightarrow> http_signaler_output list \<Rightarrow> (nether_session_id, http_session_entry) hash_map \<Rightarrow> bool" where
  "offers_ok trusting used q m \<longleftrightarrow>
     distinct (map of_connection_id (offers_of q)) \<and> of_connection_id ` set (offers_of q) \<subseteq> used \<and>
     (\<forall>who. hm_get m who \<noteq> None \<longrightarrow> sid_connection_id who \<in> used - of_connection_id ` set (offers_of q)) \<and>
     (trusting \<longrightarrow> (\<forall>off\<in>set (offers_of q). of_player off \<noteq> None))"

text \<open>Without the connections: the signaler, the sessions and the offers between them.\<close>

definition sessions_inv where
  "sessions_inv I N config trusting limits polled used s \<longleftrightarrow>
     http_reachable I N config (web_signaler s) \<and> trusts (web_signaler s) = trusting \<and> web_pending_limits s = limits \<and>
     entries_ok trusting limits (polled @ web_events s) (web_sessions s) \<and>
     offers_ok trusting used (hs_output (web_signaler s)) (web_sessions s)"

text \<open>The connections: ids below the next one, streams well formed, and all that the signaler knows among them.  The ids in
  \<open>served\<close> passed a request on.\<close>

definition conns_inv :: "u64 list \<Rightarrow> ('s, 'c, 'g, 'net, 'sk, 'vk, 'conn) http_server \<Rightarrow> bool" where
  "conns_inv served s \<longleftrightarrow>
     hm_wf (web_connections s) \<and> distinct served \<and> (\<forall>c\<in>set served. c < web_next_conn_id s) \<and>
     (\<forall>c conn. hm_get (web_connections s) c = Some conn \<longrightarrow>
        c < web_next_conn_id s \<and> stream_inv (tc_stream conn) \<and> (c \<in> set served \<longrightarrow> tc_requested conn)) \<and>
     (\<forall>c. hm_get (hs_connections (web_signaler s)) c \<noteq> None \<longrightarrow> hm_get (web_connections s) c \<noteq> None)"

lemma sessions_inv_other [simp]:
  "sessions_inv I N config trusting limits polled used (s\<lparr>web_connections := conns\<rparr>) = sessions_inv I N config trusting limits polled used s"
  "sessions_inv I N config trusting limits polled used (s\<lparr>web_commands := cmds\<rparr>) = sessions_inv I N config trusting limits polled used s"
  "sessions_inv I N config trusting limits polled used (s\<lparr>web_warned_missing_identity := b\<rparr>) = sessions_inv I N config trusting limits polled used s"
  "sessions_inv I N config trusting limits polled used (s\<lparr>web_warned_unsigned_answers := b\<rparr>) = sessions_inv I N config trusting limits polled used s"
  by (simp_all add: sessions_inv_def)

lemma conns_inv_other [simp]:
  "conns_inv served (s\<lparr>web_sessions := m\<rparr>) = conns_inv served s"
  "conns_inv served (s\<lparr>web_commands := cmds\<rparr>) = conns_inv served s"
  "conns_inv served (s\<lparr>web_events := evs\<rparr>) = conns_inv served s"
  "conns_inv served (s\<lparr>web_received := r\<rparr>) = conns_inv served s"
  "conns_inv served (s\<lparr>web_received_unreliable := r\<rparr>) = conns_inv served s"
  "conns_inv served (s\<lparr>web_warned_missing_identity := b\<rparr>) = conns_inv served s"
  "conns_inv served (s\<lparr>web_warned_unsigned_answers := b\<rparr>) = conns_inv served s"
  by (simp_all add: conns_inv_def)

definition web_inv where
  "web_inv I N config trusting limits polled used served s \<longleftrightarrow>
     sessions_inv I N config trusting limits polled used s \<and> conns_inv served s"

declare web_inv_def [simp]

text \<open>Inputs of the signaler.\<close>

lemma handled_sessions:
  assumes "sessions_inv I N config trusting limits polled used s" "admissible (web_signaler s) i"
    "\<And>c r now env. i \<noteq> HttpRequest c r now env" "\<And>t. i \<noteq> SetTokenTrust t"
  shows "sessions_inv I N config trusting limits polled used (s\<lparr>web_signaler := fst (http_handle I N (web_signaler s) i)\<rparr>)"
  using assms handle_offers [OF assms(3,4), of I N "web_signaler s"]
  by (auto simp: sessions_inv_def offers_ok_def intro: http_reachable.handle)

lemma handled_conns:
  assumes "conns_inv served s" "\<And>c a t. i \<noteq> http_signaler_input.Connected c a t"
  shows "conns_inv served (s\<lparr>web_signaler := fst (http_handle I N (web_signaler s) i)\<rparr>)"
  using assms handle_table [of I N "web_signaler s" i] by (auto simp: conns_inv_def)

lemma requested_sessions:
  assumes inv: "sessions_inv I N config trusting limits polled used s" and fresh: "random_id env \<notin> used"
  shows "sessions_inv I N config trusting limits polled (insert (random_id env) used)
    (s\<lparr>web_signaler := fst (http_handle I N (web_signaler s) (HttpRequest c r now env))\<rparr>)"
proof -
  let ?sg = "fst (http_handle I N (web_signaler s) (HttpRequest c r now env))"
  have "http_reachable I N config ?sg"
    using inv by (intro http_reachable.handle) (simp_all add: sessions_inv_def)
  moreover have "offers_ok trusting (insert (random_id env) used) (hs_output ?sg) (web_sessions s)"
    using inv fresh request_offers [of I N "web_signaler s" c r now env]
    unfolding sessions_inv_def offers_ok_def by fastforce
  ultimately show ?thesis
    using inv request_offers [of I N "web_signaler s" c r now env] by (simp add: sessions_inv_def)
qed

lemma takes_inv:
  assumes "web_inv I N config trusting limits polled used served s"
    "\<And>c a t. i \<noteq> http_signaler_input.Connected c a t" "\<And>c r now env. i \<noteq> HttpRequest c r now env" "\<And>t. i \<noteq> SetTokenTrust t"
  shows "keeps (web_inv I N config trusting limits polled used served) (web_takes I N i s)"
proof -
  have "admissible (web_signaler s) i" using assms(2) by (cases i) auto
  then show ?thesis
    using assms(1) handled_sessions [OF _ _ assms(3,4), of I N config trusting limits polled used s] handled_conns [OF _ assms(2), of served s I N]
    by (simp add: web_takes_def case_prod_unfold)
qed

lemma drop_conn_inv:
  assumes "sessions_inv I N config trusting limits polled used s" "conns_inv served s"
  shows "sessions_inv I N config trusting limits polled used (drop_conn I N c s)" "conns_inv served (drop_conn I N c s)"
proof -
  have "drop_conn I N c s = (s\<lparr>web_connections := hm_remove c (web_connections s)\<rparr>)
      \<lparr>web_signaler := fst (http_handle I N (web_signaler (s\<lparr>web_connections := hm_remove c (web_connections s)\<rparr>)) (Closed c))\<rparr>"
    by (simp add: drop_conn_def)
  then show "sessions_inv I N config trusting limits polled used (drop_conn I N c s)"
    using handled_sessions [of I N config trusting limits polled used "s\<lparr>web_connections := hm_remove c (web_connections s)\<rparr>" "Closed c"] assms(1)
    by (simp del: http_handle.simps)
  show "conns_inv served (drop_conn I N c s)"
    using assms(2) closed_table [of I N "web_signaler s" c]
    by (auto simp: drop_conn_def conns_inv_def hm_get_remove simp del: http_handle.simps)
qed

lemma drop_conns_inv:
  assumes "web_inv I N config trusting limits polled used served s"
  shows "web_inv I N config trusting limits polled used served (fold (drop_conn I N) cs s)"
proof -
  have step: "web_inv I N config trusting limits polled used served (drop_conn I N c t)"
    if "web_inv I N config trusting limits polled used served t" for c t
    using that drop_conn_inv [of I N config trusting limits polled used t served c] by simp
  from assms show ?thesis
    by (induction cs arbitrary: s) (simp_all add: step del: web_inv_def)
qed

lemma stream_inv_accept: "stream_inv (stream_accept config stream)"
  by (simp add: stream_accept_def stream_inv_new split: option.split)

section \<open>Every part of a frame keeps it\<close>

lemma next_id:
  fixes n :: u64
  assumes "unat n + 1 < 2 ^ 64"
  shows "n < n + 1" "unat (n + 1) = unat n + 1"
proof -
  show "unat (n + 1) = unat n + 1" using assms by (simp add: unat_word_ariths(1))
  then show "n < n + 1" by (simp add: word_less_nat_alt)
qed

lemma accept_one_inv:
  assumes inv: "web_inv I N config trusting limits polled used served s" and room: "unat (web_next_conn_id s) + 1 < 2 ^ 64"
  shows "web_inv I N config trusting limits polled used served (accept_one I N now sp s)"
    "unat (web_next_conn_id (accept_one I N now sp s)) \<le> unat (web_next_conn_id s) + 1"
proof -
  obtain stream peer where sp: "sp = (stream, peer)" by (cases sp)
  have "web_inv I N config trusting limits polled used served (accept_one I N now sp s) \<and>
    unat (web_next_conn_id (accept_one I N now sp s)) \<le> unat (web_next_conn_id s) + 1"
  proof (cases peer)
    case None
    then show ?thesis using inv by (simp add: sp accept_one_def)
  next
    case (Some addr)
    let ?c = "web_next_conn_id s"
    let ?conn = "\<lparr>tc_stream = stream_accept (web_tls s) stream, tc_close_after_write = False, tc_requested = False, tc_last_active = now\<rparr>"
    let ?t = "s\<lparr>web_next_conn_id := ?c + 1, web_connections := hm_insert ?c ?conn (web_connections s)\<rparr>"
    let ?i = "http_signaler_input.Connected ?c addr now"
    note n = next_id [OF room]
    have acc: "accept_one I N now sp s = ?t\<lparr>web_signaler := fst (http_handle I N (web_signaler ?t) ?i)\<rparr>"
      by (simp add: sp Some accept_one_def Let_def)
    have "\<exists>conn. hm_get (web_connections s) ?c = Some conn \<Longrightarrow> ?c < ?c" "?c \<in> set served \<Longrightarrow> ?c < ?c"
      using inv by (auto simp: conns_inv_def)
    then have none: "hm_get (web_connections s) ?c = None" "?c \<notin> set served"
      by (cases "hm_get (web_connections s) ?c"; auto)+
    then have "hm_get (hs_connections (web_signaler s)) ?c = None"
      using inv by (auto simp: conns_inv_def)
    then have "admissible (web_signaler ?t) ?i" by simp
    moreover have "sessions_inv I N config trusting limits polled used ?t"
      using inv by (simp add: sessions_inv_def)
    ultimately have "sessions_inv I N config trusting limits polled used (accept_one I N now sp s)"
      unfolding acc by (intro handled_sessions) simp_all
    moreover have known: "hm_get (web_connections s) c \<noteq> None \<or> c = ?c"
      if "hm_get (hs_connections (fst (http_handle I N (web_signaler s) ?i))) c \<noteq> None" for c
      using handle_table [OF that] inv by (auto simp: conns_inv_def)
    have below: "c < ?c + 1" if "c < ?c" for c
      using that n(1) by (rule less_trans)
    have "conns_inv served (accept_one I N now sp s)"
      unfolding acc conns_inv_def
      using inv none(2) n(1) below known
      by (auto simp: conns_inv_def hm_get_insert stream_inv_accept simp del: http_handle.simps)
    ultimately show ?thesis using n(2) by (simp add: acc)
  qed
  then show "web_inv I N config trusting limits polled used served (accept_one I N now sp s)"
    "unat (web_next_conn_id (accept_one I N now sp s)) \<le> unat (web_next_conn_id s) + 1" by simp_all
qed

lemma accept_inv:
  assumes "web_inv I N config trusting limits polled used served s" "unat (web_next_conn_id s) + length accepted < 2 ^ 64"
  shows "web_inv I N config trusting limits polled used served (web_accept I N now accepted s)"
proof -
  have "web_inv I N config trusting limits polled used served (fold (accept_one I N now) sps s)"
    if "web_inv I N config trusting limits polled used served s" "unat (web_next_conn_id s) + length sps < 2 ^ 64" for sps s
    using that
  proof (induction sps arbitrary: s)
    case (Cons sp sps)
    have "unat (web_next_conn_id s) + 1 < 2 ^ 64" using Cons.prems(2) by simp
    note one = accept_one_inv [OF Cons.prems(1) this, of now sp]
    have "unat (web_next_conn_id (accept_one I N now sp s)) + length sps < 2 ^ 64"
      using one(2) Cons.prems(2) by simp
    from Cons.IH [OF one(1) this] show ?case by simp
  qed simp
  from this [OF assms(1), of "take MAX_ACCEPTS_PER_TICK accepted"] assms(2) show ?thesis
    by (simp add: web_accept_def)
qed

text \<open>An offer that was taken from the queue, before its session starts.\<close>

definition offer_fits where
  "offer_fits trusting used off s \<longleftrightarrow>
     of_connection_id off \<in> used - of_connection_id ` set (offers_of (hs_output (web_signaler s))) \<and>
     (\<forall>who. hm_get (web_sessions s) who \<noteq> None \<longrightarrow> sid_connection_id who \<noteq> of_connection_id off) \<and>
     (trusting \<longrightarrow> of_player off \<noteq> None)"

lemma polled_inv:
  assumes inv: "web_inv I N config trusting limits polled used served s" and poll: "web_poll s = Some (out, s')"
  shows "web_inv I N config trusting limits polled used served s'" "out = OutOffer off \<Longrightarrow> offer_fits trusting used off s'"
proof -
  from poll obtain sg where sg: "http_poll (web_signaler s) = Some (out, sg)" "s' = s\<lparr>web_signaler := sg\<rparr>"
    by (auto simp: web_poll_def)
  then obtain rest where rest: "hs_output (web_signaler s) = out # rest" "sg = (web_signaler s)\<lparr>hs_output := rest\<rparr>"
    by (auto simp: http_poll_Some)
  have "http_reachable I N config sg"
    using inv sg(1) by (auto simp: sessions_inv_def intro: http_reachable.poll)
  moreover have "offers_ok trusting used rest (web_sessions s)"
    using inv rest(1) by (cases out) (auto simp: sessions_inv_def offers_ok_def)
  ultimately show "web_inv I N config trusting limits polled used served s'"
    using inv sg(2) rest(2) by (simp add: sessions_inv_def conns_inv_def)
  show "out = OutOffer off \<Longrightarrow> offer_fits trusting used off s'"
    using inv sg(2) rest by (auto simp: sessions_inv_def offers_ok_def offer_fits_def)
qed

lemma web_start_inv:
  assumes inv: "web_inv I N config trusting limits polled used served s" and fits: "offer_fits trusting used off s"
    and room: "admits_offer (pending_ids (web_sessions s)) (of_network_id off) (web_pending_limits s)"
  shows "keeps (web_inv I N config trusting limits polled used served) (web_start I N off now answered s)"
proof (cases "ans_signals answered")
  case Nil
  then show ?thesis
    unfolding web_start_def by (simp, intro takes_inv [OF inv]) simp_all
next
  case (Cons ans rest)
  let ?i = "Answered (of_connection_id off) (sig_data ans)"
  let ?t = "s\<lparr>web_signaler := fst (http_handle I N (web_signaler s) ?i)\<rparr>"
  let ?who = "offer_session off"
  have t: "web_inv I N config trusting limits polled used served ?t"
    using inv by (auto intro!: handled_sessions handled_conns simp del: http_handle.simps)
  have same: "offers_of (hs_output (fst (http_handle I N (web_signaler s) ?i))) = offers_of (hs_output (web_signaler s))"
    by (rule handle_offers) simp_all
  have new: "hm_get (web_sessions s) ?who = None"
    using fits by (cases "hm_get (web_sessions s) ?who") (auto simp: offer_fits_def offer_session_def)
  have "sessions_inv I N config trusting limits polled used
      (?t\<lparr>web_commands := cmds, web_sessions := hm_insert ?who e (web_sessions s)\<rparr>)"
    if e: "\<not> se_ready e" "trusting \<longrightarrow> se_player e \<noteq> None" for e cmds
  proof -
    have "entries_ok trusting limits (polled @ web_events s) (hm_insert ?who e (web_sessions s))"
      using inv new room e
      by (intro entries_added) (simp_all add: sessions_inv_def offer_session_def)
    moreover have "offers_ok trusting used (hs_output (web_signaler ?t)) (hm_insert ?who e (web_sessions s))"
      using inv fits by (auto simp: sessions_inv_def offers_ok_def offer_fits_def same hm_get_insert offer_session_def
          simp del: http_handle.simps split: if_splits)
    ultimately show ?thesis using t by (simp add: sessions_inv_def del: http_handle.simps)
  qed
  moreover have "trusting \<longrightarrow> (case ans_player answered of Some p \<Rightarrow> Some p | None \<Rightarrow> of_player off) \<noteq> None"
    using fits by (auto simp: offer_fits_def split: option.split)
  ultimately show ?thesis
    using Cons t unfolding web_start_def web_takes_def
    by (simp add: case_prod_unfold web_pool_takes_def Let_def del: http_handle.simps)
qed

lemma admit_inv:
  assumes inv: "web_inv I N config trusting limits polled used served s" and fits: "offer_fits trusting used off s"
  shows "keeps (web_inv I N config trusting limits polled used served) (web_admit I N X Y draw off now s)"
proof -
  have reject: "keeps (web_inv I N config trusting limits polled used served) (web_takes I N (Reject c reason) s)" for c reason
    by (rule takes_inv [OF inv]) simp_all
  show ?thesis
  proof (cases "admits_offer (pending_ids (web_sessions s)) (of_network_id off) (web_pending_limits s)")
    case True
    note start = web_start_inv [OF inv fits True, of now]
    let ?d = "draw (offer_session off)"
    obtain tr r where adm: "admit I Y (web_policy s) (offer_signal off) (of_client_address off) (drawn_wall ?d) = (tr, r)"
      by fastforce
    show ?thesis
    proof (cases r)
      case (Inl e)
      with True adm inv reject show ?thesis by (cases e) (simp_all add: web_admit_def Let_def)
    next
      case (Inr a)
      let ?ans = "answer_advertising I X Y (drawn_credentials ?d) (drawn_clock ?d) a (web_local_addr s) (web_advertised s) now"
      show ?thesis
      proof (cases ?ans)
        case (Some x)
        show ?thesis
        proof (cases x)
          case (Inl e)
          with True adm Inr Some inv reject show ?thesis by (cases e) (simp_all add: web_admit_def Let_def)
        next
          case (Inr answered)
          with True adm \<open>r = Inr a\<close> Some start show ?thesis by (simp add: web_admit_def Let_def)
        qed
      qed (use True adm Inr in \<open>simp add: web_admit_def Let_def\<close>)
    qed
  qed (use reject in \<open>simp add: web_admit_def\<close>)
qed

lemma offer_inv:
  assumes inv: "web_inv I N config trusting limits polled used served s" and fits: "offer_fits trusting used off s"
  shows "keeps (web_inv I N config trusting limits polled used served) (web_handle_offer I N X Y draw off now s)"
proof -
  let ?s = "s\<lparr>web_warned_missing_identity := True\<rparr>"
  have "keeps (web_inv I N config trusting limits polled used served) (web_takes I N (Reject (of_connection_id off) Unavailable) ?s)"
    by (rule takes_inv) (use inv in simp_all)
  moreover have "keeps (web_inv I N config trusting limits polled used served)
      (web_admit I N X Y draw off now (s\<lparr>web_warned_unsigned_answers := True\<rparr>))"
    by (rule admit_inv) (use inv fits in \<open>simp_all add: offer_fits_def\<close>)
  ultimately show ?thesis
    using admit_inv [OF inv fits, of X Y draw now] by (simp add: web_handle_offer_def)
qed

lemma with_conn_inv:
  assumes "web_inv I N config trusting limits polled used served s"
    "\<And>conn. stream_inv (tc_stream conn) \<Longrightarrow> stream_inv (tc_stream (f conn)) \<and> tc_requested (f conn) = tc_requested conn"
  shows "web_inv I N config trusting limits polled used served (with_conn c f s)"
  using assms by (auto simp: with_conn_def conns_inv_def hm_get_insert split: option.split)

lemma output_inv:
  assumes inv: "web_inv I N config trusting limits polled used served s"
    and fits: "\<And>off. out = OutOffer off \<Longrightarrow> offer_fits trusting used off s"
  shows "keeps (web_inv I N config trusting limits polled used served) (web_handle_output T I N X Y draw now out s)"
proof (cases out)
  case (OutOffer off)
  then show ?thesis using offer_inv [OF inv fits [OF OutOffer], of X Y draw now] by (simp add: web_handle_output_def)
qed (use inv in \<open>auto simp: web_handle_output_def stream_inv_queue simp del: web_inv_def intro!: with_conn_inv\<close>)

lemma outputs_inv:
  assumes "web_inv I N config trusting limits polled used served s"
  shows "keeps (web_inv I N config trusting limits polled used served) (while_run web_poll (web_handle_output T I N X Y draw now) s)"
  apply (rule while_run_keeps [where P = "web_inv I N config trusting limits polled used served", OF assms])
  subgoal premises prems for s out s'
    by (rule output_inv [OF polled_inv [OF prems]])
  done

lemma disconnect_web_inv:
  assumes "web_inv I N config trusting limits polled used served s"
  shows "web_inv I N config trusting limits polled used served (web_disconnect who s)"
proof -
  have "entries_ok trusting limits ((polled @ web_events s) @ [SessionDisconnected who]) (hm_remove who (web_sessions s))"
    by (rule entries_removed) (use assms in \<open>simp add: sessions_inv_def\<close>)
  with assms show ?thesis
    by (auto simp: web_disconnect_def web_pool_takes_def sessions_inv_def offers_ok_def hm_get_remove)
qed

lemma pool_event_web_inv:
  assumes "web_inv I N config trusting limits polled used served (fst st)"
  shows "web_inv I N config trusting limits polled used served (fst (web_pool_event ev st))"
proof (cases ev; cases st)
  fix who event s failed
  assume ev: "ev = (who, event)" and st: "st = (s, failed)"
  show ?thesis
  proof (cases "hm_get (web_sessions s) who")
    case (Some e)
    have ok: "entries_ok trusting limits (polled @ web_events s) (web_sessions s)"
      and offers: "offers_ok trusting used (hs_output (web_signaler s)) (web_sessions s)"
      using assms st by (simp_all add: sessions_inv_def)
    have offers': "offers_ok trusting used (hs_output (web_signaler s)) (hm_insert who e' (web_sessions s))" for e'
      using offers Some by (auto simp: offers_ok_def hm_get_insert split: if_splits)
    show ?thesis
    proof (cases event)
      case (PoolReady addr)
      with entries_connected [OF ok Some] Some assms offers' show ?thesis
        by (simp add: web_pool_event_def ev st sessions_inv_def)
    next
      case (PoolRtt rtt)
      with entries_updated [OF ok Some] Some assms offers' show ?thesis
        by (simp add: web_pool_event_def ev st sessions_inv_def)
    next
      case (PoolMessage ch data)
      with Some assms show ?thesis
        by (cases ch) (simp_all add: web_pool_event_def ev st sessions_inv_def)
    qed (use Some assms in \<open>simp add: web_pool_event_def ev st\<close>)
  qed (use assms in \<open>simp add: web_pool_event_def ev st\<close>)
qed

lemma drive_sessions_inv:
  assumes "web_inv I N config trusting limits polled used served s"
  shows "web_inv I N config trusting limits polled used served (drive_sessions events s)"
proof -
  have events: "web_inv I N config trusting limits polled used served (fst (fold web_pool_event evs st))"
    if "web_inv I N config trusting limits polled used served (fst st)" for evs st
    using that by (induction evs arbitrary: st) (simp_all add: pool_event_web_inv del: web_inv_def)
  have failed: "web_inv I N config trusting limits polled used served (fold web_disconnect whos t)"
    if "web_inv I N config trusting limits polled used served t" for whos t
    using that by (induction whos arbitrary: t) (simp_all add: disconnect_web_inv del: web_inv_def)
  obtain t whos where fold: "fold web_pool_event events (s, []) = (t, whos)"
    by (cases "fold web_pool_event events (s, [])")
  with events [of "(s, [])" events] assms have "web_inv I N config trusting limits polled used served t"
    by simp
  from failed [OF this] fold show ?thesis
    by (simp add: drive_sessions_def)
qed

lemma forget_inv:
  assumes "web_inv I N config trusting limits polled used served s"
  shows "web_inv I N config trusting limits polled used served (forget_unestablished now s)"
proof -
  let ?keep = "\<lambda>_ e. se_ready e \<or> now - se_created e < establish (web_timeouts s)"
  have wf: "hm_wf (web_sessions s)" using assms by (simp add: sessions_inv_def entries_ok_def)
  have "entries_ok trusting limits (polled @ web_events s) (hm_retain ?keep (web_sessions s))"
    by (rule entries_retained) (use assms in \<open>simp_all add: sessions_inv_def\<close>)
  moreover have "offers_ok trusting used (hs_output (web_signaler s)) (hm_retain ?keep (web_sessions s))"
    using assms by (auto simp: sessions_inv_def offers_ok_def hm_get_retain [OF wf] split: option.splits if_splits)
  ultimately show ?thesis
    using assms by (simp add: forget_unestablished_def sessions_inv_def)
qed

section \<open>Frames\<close>

lemma sessions_inv_mono:
  "sessions_inv I N config trusting limits polled used s \<Longrightarrow> used \<subseteq> used' \<Longrightarrow> sessions_inv I N config trusting limits polled used' s"
  by (auto simp: sessions_inv_def offers_ok_def)

lemma pass_requests_inv:
  assumes "sessions_inv I N config trusting limits polled used s" "conns_inv served s"
    "distinct (map (\<lambda>(c, _). random_id (env c)) requests)" "(\<lambda>(c, _). random_id (env c)) ` set requests \<inter> used = {}"
  shows "keeps (web_inv I N config trusting limits polled (used \<union> (\<lambda>(c, _). random_id (env c)) ` set requests) served)
    (pass_requests I N env now requests s)"
  using assms
proof (induction requests arbitrary: s used)
  case (Cons cq requests)
  obtain c q where cq: "cq = (c, q)" by (cases cq)
  let ?t = "s\<lparr>web_signaler := fst (http_handle I N (web_signaler s) (HttpRequest c q now (env c)))\<rparr>"
  let ?used = "insert (random_id (env c)) used"
  have t: "sessions_inv I N config trusting limits polled ?used ?t"
    using Cons.prems(1,4) by (intro requested_sessions) (auto simp: cq)
  have ct: "conns_inv served ?t"
    using Cons.prems(2) by (intro handled_conns) simp_all
  have "keeps (web_inv I N config trusting limits polled (?used \<union> (\<lambda>(c, _). random_id (env c)) ` set requests) served)
      (pass_requests I N env now requests ?t)"
    using Cons.prems(3,4) by (intro Cons.IH [OF t ct]) (auto simp: cq)
  moreover have "web_inv I N config trusting limits polled (?used \<union> (\<lambda>(c, _). random_id (env c)) ` set requests) served ?t"
    using sessions_inv_mono [OF t, of "?used \<union> (\<lambda>(c, _). random_id (env c)) ` set requests"] ct
    by (simp add: subset_insertI2 del: http_handle.simps)
  ultimately show ?case
    by (simp add: cq web_takes_def case_prod_unfold del: http_handle.simps web_inv_def)
qed simp

lemma pumped_conns:
  assumes "conns_inv served s" "pass_ok (web_connections s) m asked"
  shows "conns_inv (served @ asked) (s\<lparr>web_connections := m\<rparr>)"
proof -
  have keys: "hm_get m c = None \<longleftrightarrow> hm_get (web_connections s) c = None" for c
    using assms(2) unfolding pass_ok_def hm_get_def map_of_eq_None_iff by (metis list.set_map)
  have "hm_wf m" using assms by (simp add: conns_inv_def pass_ok_def hm_wf_def)
  moreover have "set served \<inter> set asked = {}"
    using assms by (fastforce simp: conns_inv_def pass_ok_def)
  ultimately show ?thesis
    using assms keys unfolding conns_inv_def pass_ok_def
    by (auto; metis option.inject option.distinct(1))
qed

definition frame_requests ::
  "('s, 'c, 'g, 'e) wire_ops \<Rightarrow> httparse_ops \<Rightarrow> (byte_request, 'r) http_ops \<Rightarrow> ('sk, 'vk, 'sig, 'rsa) identity_ops \<Rightarrow>
    'net ipnet_ops \<Rightarrow> 's web_frame \<Rightarrow> ('s, 'c, 'g, 'net, 'sk, 'vk, 'conn) http_server \<Rightarrow> (u64 \<times> http_request) list" where
  "frame_requests W H T I N f s =
     (case pump_all W H T (wf_now f) (web_connections (web_accept I N (wf_now f) (wf_accepted f) s)) of
        Some (_, Inr (_, requests)) \<Rightarrow> requests
      | _ \<Rightarrow> [])"

definition frame_ids ::
  "('s, 'c, 'g, 'e) wire_ops \<Rightarrow> httparse_ops \<Rightarrow> (byte_request, 'r) http_ops \<Rightarrow> ('sk, 'vk, 'sig, 'rsa) identity_ops \<Rightarrow>
    'net ipnet_ops \<Rightarrow> 's web_frame \<Rightarrow> ('s, 'c, 'g, 'net, 'sk, 'vk, 'conn) http_server \<Rightarrow> u64 list" where
  "frame_ids W H T I N f s = map (\<lambda>(c, _). random_id (wf_request f c)) (frame_requests W H T I N f s)"

lemma frame_end_inv:
  assumes "web_inv I N config trusting limits polled used served s"
  shows "web_inv I N config trusting limits polled used served (forget_unestablished now (close_idle I N now (drive_sessions events s)))"
  unfolding close_idle_def by (intro forget_inv drop_conns_inv drive_sessions_inv assms)

lemma frame_inv:
  assumes laws: "wire_laws W" "httparse_laws H"
    and inv: "web_inv I N config trusting limits polled used served s"
    and room: "unat (web_next_conn_id s) + length (wf_accepted f) < 2 ^ 64"
    and fresh: "distinct (frame_ids W H T I N f s)" "set (frame_ids W H T I N f s) \<inter> used = {}"
  shows "keeps (web_inv I N config trusting limits polled (used \<union> set (frame_ids W H T I N f s))
    (served @ map fst (frame_requests W H T I N f s))) (web_update W H T I N X Y f s)"
proof -
  let ?now = "wf_now f"
  let ?a = "web_accept I N ?now (wf_accepted f) s"
  let ?used = "used \<union> set (frame_ids W H T I N f s)"
  let ?served = "served @ map fst (frame_requests W H T I N f s)"
  have a: "web_inv I N config trusting limits polled used served ?a"
    by (rule accept_inv [OF inv room])
  have pumped: "keeps (web_inv I N config trusting limits polled ?used ?served) (pump_connections W H T I N (wf_request f) ?now ?a)"
  proof (cases "pump_all W H T ?now (web_connections ?a)")
    case (Some mx)
    obtain m x where mx: "mx = (m, x)" by (cases mx)
    obtain closed requests where x: "x = Inr (closed, requests)" and pass: "pass_ok (web_connections ?a) m (map fst requests)"
      using pump_all_fine [OF laws _ _ Some [unfolded mx]] a by (auto simp: conns_inv_def)
    have reqs: "frame_requests W H T I N f s = requests"
      by (simp add: frame_requests_def Some mx x)
    have ids: "frame_ids W H T I N f s = map (\<lambda>(c, _). random_id (wf_request f c)) requests"
      by (simp add: frame_ids_def reqs)
    have "keeps (web_inv I N config trusting limits polled ?used ?served)
        (pass_requests I N (wf_request f) ?now requests (?a\<lparr>web_connections := m\<rparr>))"
      using pass_requests_inv [of I N config trusting limits polled used "?a\<lparr>web_connections := m\<rparr>" ?served "wf_request f" requests ?now]
        a pumped_conns [OF _ pass] fresh by (simp add: ids reqs del: pass_requests.simps)
    then have "keeps (web_inv I N config trusting limits polled ?used ?served)
        (run_bind (pass_requests I N (wf_request f) ?now requests (?a\<lparr>web_connections := m\<rparr>)) (\<lambda>_ s. run_ok (fold (drop_conn I N) closed s)))"
      by (rule keeps_bind) (simp add: drop_conns_inv del: web_inv_def)
    then show ?thesis
      by (simp add: pump_connections_def Some mx x)
  qed (simp add: pump_connections_def)
  show ?thesis
    unfolding web_update_def Let_def
    by (intro keeps_bind [OF pumped] keeps_bind [OF takes_inv] keeps_bind [OF outputs_inv])
      (simp_all add: frame_end_inv del: web_inv_def)
qed

section \<open>The server\<close>

text \<open>A server configured at any time, but with one bound on pending offers and either always or never a trust: frames that
  return, calls of the application, and the pool taking commands, in any order.  The random ids a frame draws are new.  Kept
  beside it: the events the application took, the ids drawn, and the connections that passed a request on.\<close>

inductive web_reachable for W H T I N X Y config trusting limits where
  begun: "trusting = (hs_token_trust config \<noteq> None) \<Longrightarrow>
    web_reachable W H T I N X Y config trusting limits (web_set (SetPendingLimits limits) (http_server_new config addr advertised)) [] {} []"
| set: "web_reachable W H T I N X Y config trusting limits s polled used served \<Longrightarrow> (\<And>l. setting \<noteq> SetPendingLimits l) \<Longrightarrow>
    web_reachable W H T I N X Y config trusting limits (web_set setting s) polled used served"
| data: "web_reachable W H T I N X Y config trusting limits s polled used served \<Longrightarrow> web_set_server_data I N d s = Some (t, r) \<Longrightarrow>
    web_reachable W H T I N X Y config trusting limits t polled used served"
| trust: "web_reachable W H T I N X Y config trusting limits s polled used served \<Longrightarrow> (tr \<noteq> None) = trusting \<Longrightarrow>
    web_set_token_trust I N tr s = Some (t, r) \<Longrightarrow> web_reachable W H T I N X Y config trusting limits t polled used served"
| frame: "web_reachable W H T I N X Y config trusting limits s polled used served \<Longrightarrow>
    unat (web_next_conn_id s) + length (wf_accepted f) < 2 ^ 64 \<Longrightarrow>
    distinct (frame_ids W H T I N f s) \<Longrightarrow> set (frame_ids W H T I N f s) \<inter> used = {} \<Longrightarrow>
    web_update W H T I N X Y f s = Some (t, Inr ()) \<Longrightarrow>
    web_reachable W H T I N X Y config trusting limits t polled (used \<union> set (frame_ids W H T I N f s))
      (served @ map fst (frame_requests W H T I N f s))"
| event: "web_reachable W H T I N X Y config trusting limits s polled used served \<Longrightarrow> web_next_event s = Some (ev, t) \<Longrightarrow>
    web_reachable W H T I N X Y config trusting limits t (polled @ [ev]) used served"
| recv: "web_reachable W H T I N X Y config trusting limits s polled used served \<Longrightarrow>
    web_recv s = Some (d, t) \<or> web_recv_unreliable s = Some (d, t) \<Longrightarrow>
    web_reachable W H T I N X Y config trusting limits t polled used served"
| send: "web_reachable W H T I N X Y config trusting limits s polled used served \<Longrightarrow>
    web_reachable W H T I N X Y config trusting limits (fst (web_send_on who ch bs s)) polled used served"
| disconnect: "web_reachable W H T I N X Y config trusting limits s polled used served \<Longrightarrow>
    web_reachable W H T I N X Y config trusting limits (web_disconnect who s) polled used served"
| commands: "web_reachable W H T I N X Y config trusting limits s polled used served \<Longrightarrow>
    web_reachable W H T I N X Y config trusting limits (s\<lparr>web_commands := drop n (web_commands s)\<rparr>) polled used served"

lemma web_begun_inv:
  assumes "trusting = (hs_token_trust config \<noteq> None)"
  shows "web_inv I N config trusting limits [] {} [] (web_set (SetPendingLimits limits) (http_server_new config addr advertised))"
  using assms entries_empty [of trusting limits]
  by (auto simp: web_set_def http_server_new_def sessions_inv_def conns_inv_def offers_ok_def http_signaler_new_def
      intro: http_reachable.start [unfolded http_signaler_new_def])

lemma trust_inv:
  assumes "web_inv I N config trusting limits polled used served s" "(tr \<noteq> None) = trusting"
  shows "keeps (web_inv I N config trusting limits polled used served) (web_set_token_trust I N tr s)"
proof -
  have "http_reachable I N config (fst (http_handle I N (web_signaler s) (SetTokenTrust tr)))"
    using assms(1) by (intro http_reachable.handle) (simp_all add: sessions_inv_def)
  with assms show ?thesis
    by (simp add: web_set_token_trust_def web_takes_def sessions_inv_def conns_inv_def st_ok_def)
qed

lemma web_reachable_inv:
  assumes "wire_laws W" "httparse_laws H"
  shows "web_reachable W H T I N X Y config trusting limits s polled used served \<Longrightarrow> web_inv I N config trusting limits polled used served s"
proof (induction rule: web_reachable.induct)
  case (begun addr advertised)
  then show ?case by (rule web_begun_inv)
next
  case (set s polled used served setting)
  then show ?case by (cases setting) (auto simp: web_set_def sessions_inv_def conns_inv_def)
next
  case (data s polled used served d t r)
  have "keeps (web_inv I N config trusting limits polled used served) (web_takes I N (SetHttpServerData d) s)"
    by (rule takes_inv [OF data.IH]) simp_all
  with data.hyps(2) show ?case by (simp add: web_set_server_data_def keeps_def)
next
  case (trust s polled used served tr t r)
  with trust_inv [OF trust.IH trust.hyps(2)] show ?case by (simp add: keeps_def)
next
  case (frame s polled used served f t)
  with frame_inv [OF assms frame.IH frame.hyps(2-4), of X Y] show ?case by simp
next
  case (event s polled used served ev t)
  then show ?case by (auto simp: web_next_event_def pop_front_Some sessions_inv_def)
next
  case (recv s polled used served d t)
  then show ?case by (auto simp: web_recv_def web_recv_unreliable_def pop_front_Some sessions_inv_def)
next
  case (send s polled used served who ch bs)
  then show ?case by (simp add: web_send_on_def st_ok_def web_pool_takes_def)
next
  case (disconnect s polled used served who)
  then show ?case by (intro disconnect_web_inv)
qed simp

section \<open>Every frame returns\<close>

lemma pump_conn_returns:
  assumes "wire_finite W m"
  shows "pump_conn W H T now conn \<noteq> None"
proof -
  have never: "stream_fill W h = None \<longleftrightarrow> False" "stream_drain W h = None \<longleftrightarrow> False" "stream_flush W h = None \<longleftrightarrow> False"
    "stream_close W h = None \<longleftrightarrow> False" "stream_establish W h = None \<longleftrightarrow> False" for h
    using stream_returns [OF assms, of h] by auto
  have request: "pump_request H T conn = None \<longleftrightarrow> False" for conn
    by (simp add: pump_request_def Let_def del: not_None_eq split: sum.split option.split wire_failure.split)
  have close: "pump_close W conn = None \<longleftrightarrow> False" for conn
    by (simp add: pump_close_def never)
  have flush: "pump_flush W H T conn = None \<longleftrightarrow> False" for conn
    by (simp add: pump_flush_def never request del: not_None_eq split: option.split sum.split inbound.split prod.split)
  have read: "pump_read W H T now conn = None \<longleftrightarrow> False" for conn
    by (simp add: pump_read_def never flush del: not_None_eq split: option.split sum.split inbound.split prod.split)
  have "pump_conn W H T now conn = None \<longleftrightarrow> False"
    by (simp add: pump_conn_def never close read Let_def del: not_None_eq split: option.split sum.split drained.split prod.split)
  then show ?thesis by simp
qed

lemma pump_all_returns:
  assumes "wire_finite W m"
  shows "pump_all W H T now conns \<noteq> None"
proof (induction conns)
  case (Cons cc conns)
  obtain c conn where cc: "cc = (c, conn)" by (cases cc)
  have "pump_conn W H T now conn = None \<longleftrightarrow> False" "pump_all W H T now conns = None \<longleftrightarrow> False"
    using pump_conn_returns [OF assms] Cons by blast+
  then have "pump_all W H T now (cc # conns) = None \<longleftrightarrow> False"
    by (simp add: cc del: not_None_eq split: option.split prod.split sum.split)
  then show ?case by simp
qed simp

text \<open>What is left to do of the signaler's outputs: an offer makes one response.\<close>

definition web_work :: "('s, 'c, 'g, 'net, 'sk, 'vk, 'conn) http_server \<Rightarrow> nat" where
  "web_work s = length (offers_of (hs_output (web_signaler s))) + length (hs_output (web_signaler s))"

lemma web_work_simps [simp]:
  "web_work (s\<lparr>web_warned_missing_identity := b\<rparr>) = web_work s" "web_work (s\<lparr>web_warned_unsigned_answers := b\<rparr>) = web_work s"
  "web_work (s\<lparr>web_sessions := m\<rparr>) = web_work s" "web_work (s\<lparr>web_commands := cmds\<rparr>) = web_work s"
  "web_work (s\<lparr>web_connections := conns\<rparr>) = web_work s"
  by (simp_all add: web_work_def)

definition works :: "('s, 'c, 'g, 'net, 'sk, 'vk, 'conn) http_server \<Rightarrow> ('s, 'c, 'g, 'net, 'sk, 'vk, 'conn) web_run \<Rightarrow> bool" where
  "works s r \<longleftrightarrow> keeps (\<lambda>t. web_work t \<le> web_work s + 1) r"

lemma takes_works:
  "works s (web_takes I N (Reject c reason) s)" "works s (web_takes I N (Answered c sdp) s)"
  by (auto simp: works_def web_takes_def web_work_def reject_def answer_def respond_def respond_with_def push_response_def
      push_out_def st_ok_def split: option.splits prod.splits)

lemma start_works: "works s (web_start I N off now answered s)"
proof (cases "ans_signals answered")
  case (Cons ans rest)
  then show ?thesis
    using takes_works(2) [of s I N "of_connection_id off" "sig_data ans"]
    by (auto simp: web_start_def works_def web_pool_takes_def keeps_def run_bind_eq_Some run_ok_def Let_def)
qed (simp add: web_start_def takes_works)

lemma admit_works: "works s (web_admit I N X Y draw off now s)"
  by (simp add: web_admit_def takes_works start_works Let_def split: prod.split sum.split admission_failure.split option.split)
    (simp add: works_def)

lemma offer_works: "works s (web_handle_offer I N X Y draw off now s)"
  using takes_works(1) [of "s\<lparr>web_warned_missing_identity := True\<rparr>" I N "of_connection_id off" Unavailable]
    admit_works [of "s\<lparr>web_warned_unsigned_answers := True\<rparr>" I N X Y draw off now] admit_works [of s I N X Y draw off now]
  by (simp add: web_handle_offer_def works_def)

lemma offer_returns:
  assumes "queues_finite X"
  shows "web_handle_offer I N X Y draw off now s \<noteq> None"
proof -
  have "answer_advertising I X Y drawn clock adm addr advertised n = None \<longleftrightarrow> False" for drawn clock adm addr advertised n
    using answer_returns [OF assms] by blast
  note never = this
  have takes: "web_takes I N i s = None \<longleftrightarrow> False" for i s
    by (simp add: web_takes_def split: prod.split)
  have start: "web_start I N off now answered s = None \<longleftrightarrow> False" for answered s
    by (simp add: web_start_def takes web_takes_def run_ok_def Let_def split: list.split prod.split)
  have admit: "web_admit I N X Y draw off now s = None \<longleftrightarrow> False" for s
    by (simp add: web_admit_def never takes start Let_def del: not_None_eq
        split: prod.split sum.split admission_failure.split option.split)
  show ?thesis
    by (simp add: web_handle_offer_def takes admit del: not_None_eq)
qed

lemma output_works:
  assumes "queues_finite X" "web_poll s = Some (out, s')"
  shows "web_handle_output T I N X Y draw now out s' \<noteq> None \<and>
    (\<forall>t. web_handle_output T I N X Y draw now out s' = Some (t, Inr ()) \<longrightarrow> web_work t < web_work s)"
proof (intro conjI allI impI)
  from assms(2) obtain rest where out: "hs_output (web_signaler s) = out # rest"
      "s' = s\<lparr>web_signaler := (web_signaler s)\<lparr>hs_output := rest\<rparr>\<rparr>"
    by (auto simp: web_poll_def http_poll_Some)
  show "web_handle_output T I N X Y draw now out s' \<noteq> None"
    using offer_returns [OF assms(1), of I N Y draw _ now s']
    by (cases out) (simp_all add: web_handle_output_def run_ok_def del: not_None_eq)
  fix t
  assume t: "web_handle_output T I N X Y draw now out s' = Some (t, Inr ())"
  have conn: "web_work (with_conn c f s') = web_work s'" for c f
    by (simp add: with_conn_def split: option.split)
  show "web_work t < web_work s"
  proof (cases out)
    case (OutOffer off)
    with t have "web_work t \<le> web_work s' + 1"
      using offer_works [of s' I N X Y draw off now] by (simp add: web_handle_output_def works_def)
    with out OutOffer show ?thesis by (simp add: web_work_def)
  next
    case (OutResponse c response closes)
    with t have "web_work t = web_work s'" by (auto simp: web_handle_output_def run_ok_def conn)
    with out OutResponse show ?thesis by (simp add: web_work_def)
  next
    case (OutClose c)
    with t have "web_work t = web_work s'" by (auto simp: web_handle_output_def run_ok_def conn)
    with out OutClose show ?thesis by (simp add: web_work_def)
  qed (use t out in \<open>auto simp: web_handle_output_def run_ok_def web_work_def\<close>)
qed

lemma web_outputs_return:
  "queues_finite X \<Longrightarrow> while_run web_poll (web_handle_output T I N X Y draw now) s \<noteq> None"
  by (rule while_run_returns [where m = web_work]) (rule output_works)

lemma pass_requests_return: "\<exists>r. pass_requests I N env now requests s = Some r"
proof (induction requests arbitrary: s)
  case (Cons cq requests)
  show ?case
    by (cases cq, simp only: pass_requests.simps prod.case Let_def, intro run_bind_returns Cons.IH)
      (simp add: web_takes_def split: prod.split)
qed (simp add: run_ok_def)

section \<open>Properties\<close>



text \<open>A client that asks for a page the server does not have.\<close>

definition asked_head :: bytes where
  "asked_head = as_bytes (''GET / HTTP/1.1'' @ crlf @ crlf)"

definition asked_httparse :: httparse_ops where
  "asked_httparse =
     sample_httparse asked_head \<lparr>raw_method = Some ''GET'', raw_path = Some ''/'', raw_request_headers = []\<rparr>
       sample_response_head \<lparr>raw_code = Some 200, raw_response_headers = []\<rparr>"

definition asked_http :: "(byte_request, nat \<times> http_header list \<times> bytes) http_ops" where
  "asked_http =
     \<lparr>build_request = (\<lambda>m t hs b. Some \<lparr>br_parts = \<lparr>req_method = m, req_path = t, req_version = HttpOtherVersion,
        req_header = (\<lambda>_. None), req_body = ''''\<rparr>, br_body = b\<rparr>),
      build_response = build_response sample_http, header_value = header_value sample_http,
      parse_target = parse_target sample_http, header_order = header_order sample_http,
      canonical_reason = canonical_reason sample_http\<rparr>"

definition asked_frame :: "(bytes \<times> bytes) web_frame" where
  "asked_frame =
     \<lparr>wf_now = 5, wf_accepted = [((asked_head, []), Some \<lparr>sock_ip = IpV4 (Ipv4 10 0 0 1), sock_port = 9\<rparr>)],
      wf_request = (\<lambda>_. \<lparr>random_id = 77, wall_now = 0, instant_now = 5\<rparr>), wf_draw = offer_draw_of, wf_events = []\<rparr>"

definition asked_server ::
  "(bytes \<times> bytes, bytes \<times> bytes, unit, ip_addr \<times> nat, u8, u8,
    (sample_agent, bytes, (bytes \<times> socket_addr) list, bool, unit, sample_assoc) connection) http_server" where
  "asked_server = web_set (SetPendingLimits offer_limits) (http_server_new http_config_default sample_addr [])"

definition asked_request :: http_request where
  "asked_request = \<lparr>req_method = ''GET'', req_path = ''/'', req_version = HttpOtherVersion, req_header = (\<lambda>_. None), req_body = ''''\<rparr>"

lemma asked_parsed: "request_parse asked_httparse asked_http asked_head = Inr (Some \<lparr>br_parts = asked_request, br_body = []\<rparr>)"
proof -
  have head: "one_head asked_head raw asked_head = Inr (Some (length asked_head, raw))" for raw :: raw_request
    using one_head_reads(1) [of asked_head raw "[]"] by simp
  show ?thesis
    by (simp add: request_parse_def asked_httparse_def sample_httparse_def head asked_http_def asked_request_def find_header_def
        body_framing_of_def body_framing_read_def slice_from_def wire_err_def MAX_BODY_def Let_def)
qed

lemma asked_read: "asked_head \<noteq> []" "length asked_head \<le> READ_CHUNK"
  by (simp_all add: asked_head_def crlf_def as_bytes_def READ_CHUNK_def)

definition asked_conn :: "(bytes \<times> bytes, bytes \<times> bytes, unit) tcp_conn" where
  "asked_conn = \<lparr>tc_stream = http_stream_new (WirePlain ([], [])), tc_close_after_write = False, tc_requested = True, tc_last_active = 5\<rparr>"

definition asked_signaler :: "(ip_addr \<times> nat) http_signaler" where
  "asked_signaler = http_connected sample_ipnet 0 \<lparr>sock_ip = IpV4 (Ipv4 10 0 0 1), sock_port = 9\<rparr> (http_signaler_new http_config_default)"

lemma asked_accepted:
  "web_accept sample_identity sample_ipnet 5 (wf_accepted asked_frame) asked_server =
     asked_server\<lparr>web_next_conn_id := 1, web_signaler := asked_signaler, web_connections := [(0,
       asked_conn\<lparr>tc_stream := http_stream_new (WirePlain (asked_head, [])), tc_requested := False\<rparr>)]\<rparr>"
  by (simp add: web_accept_def accept_one_def asked_frame_def asked_server_def web_set_def http_server_new_def MAX_ACCEPTS_PER_TICK_def
      asked_conn_def asked_signaler_def stream_accept_def hm_insert_def st_ok_def Let_def)

lemma asked_pumped:
  "pump_all sample_tcp asked_httparse asked_http 5
     [(0, asked_conn\<lparr>tc_stream := http_stream_new (WirePlain (asked_head, [])), tc_requested := False\<rparr>)] =
   Some ([(0, asked_conn)], Inr ([], [(0, asked_request)]))"
proof -
  have fill: "stream_fill sample_tcp (http_stream_new (WirePlain (asked_head, []))) =
      Some ((http_stream_new (WirePlain ([], [])))\<lparr>st_inbound := asked_head\<rparr>, Inr InboundReceived)"
    using asked_read by (auto simp: stream_fill_def http_stream_new_def wire_read_def read_raw_def sample_tcp_def split: list.split)
  have flush: "stream_establish W h = Some (h, Inr InboundIdle)" "stream_flush W h = Some (h, Inr ())"
    if "st_wire h = WirePlain s" for W :: "(bytes \<times> bytes, bytes \<times> bytes, unit, unit) wire_ops" and h s
    using that by (simp_all add: stream_establish_def awaiting_session_def stream_flush_def wire_flush_def run_ok_def)
  have utf8: "from_utf8 [] = Some []" by code_simp
  show ?thesis
    using fill asked_parsed utf8
    by (simp add: pump_conn_def has_outbound_def stream_drain_def pump_read_def pump_flush_def flush pump_request_def asked_conn_def
        text_body_request_def text_body_decode_def asked_request_def http_stream_new_def Let_def)
qed

definition asked_after where
  "asked_after = asked_server\<lparr>web_next_conn_id := 1, web_signaler := asked_signaler, web_connections := [(0,
     asked_conn\<lparr>tc_stream := stream_queue (encode_response asked_http \<lparr>resp_status = 404, resp_headers = [(''content-length'', ''0'')],
       resp_body = ''''\<rparr>) (http_stream_new (WirePlain ([], []))), tc_close_after_write := True\<rparr>)]\<rparr>"

lemma asked_update:
  "web_update sample_tcp asked_httparse asked_http sample_identity sample_ipnet sample_machines line_signals asked_frame asked_server =
     Some (asked_after, Inr ())"
proof -
  let ?response = "OutResponse 0 \<lparr>resp_status = 404, resp_headers = [(''content-length'', ''0'')], resp_body = ''''\<rparr> True"
  have sig: "hs_output asked_signaler = []" "hs_pending asked_signaler = []"
    by (simp_all add: asked_signaler_def http_connected_def http_signaler_new_def http_config_default_def ip_range_contains_def
        ip_range_empty_def Let_def)
  have "http_handle sample_identity sample_ipnet asked_signaler (HttpRequest 0 asked_request 5 env) =
      st_ok (asked_signaler\<lparr>hs_output := [?response]\<rparr>)" for env
    using sig by (simp add: handle_request_def asked_request_def keep_alive_def JOIN_PATH_def path_network_id_def JOIN_PREFIX_def
        strip_prefix_def respond_def push_response_def push_out_def eq_ignore_ascii_case_def to_ascii_lowercase_def Let_def)
  then have "pump_connections sample_tcp asked_httparse asked_http sample_identity sample_ipnet (wf_request asked_frame) 5
      (web_accept sample_identity sample_ipnet 5 (wf_accepted asked_frame) asked_server) =
    Some (asked_after\<lparr>web_signaler := asked_signaler\<lparr>hs_output := [?response]\<rparr>, web_connections := [(0, asked_conn)]\<rparr>, Inr ())"
    by (simp add: pump_connections_def asked_accepted asked_pumped web_takes_def asked_after_def st_ok_def run_ok_def
        del: pump_all.simps)
  moreover obtain w where "http_handle sample_identity sample_ipnet (asked_signaler\<lparr>hs_output := [?response]\<rparr>) (HttpUpdate 5) =
      st_ok (asked_signaler\<lparr>hs_output := [?response, OutHttpWait w]\<rparr>)"
    using sig by (simp add: http_update_def expired_joins_def push_out_def st_ok_def)
  moreover have "while_run web_poll (web_handle_output asked_http sample_identity sample_ipnet sample_machines line_signals offer_draw_of 5)
      (asked_after\<lparr>web_signaler := asked_signaler\<lparr>hs_output := [?response, OutHttpWait w]\<rparr>, web_connections := [(0, asked_conn)]\<rparr>) =
    Some (asked_after, Inr ())"
    using sig by (simp add: while_run.simps web_poll_def http_poll_def pop_front_def web_handle_output_def with_conn_def hm_get_def
        hm_insert_def run_ok_def asked_after_def asked_conn_def)
  ultimately show ?thesis
    by (simp add: web_update_def asked_frame_def web_takes_def st_ok_def run_ok_def drive_sessions_def close_idle_def forget_unestablished_def
        asked_after_def asked_conn_def asked_server_def web_set_def http_server_new_def DEFAULT_IDLE_TIMEOUT_def second_def hm_retain_def)
qed

lemma asked_reachable:
  "web_reachable sample_tcp asked_httparse asked_http sample_identity sample_ipnet sample_machines line_signals http_config_default True
     offer_limits asked_server [] {} []"
  "web_reachable sample_tcp asked_httparse asked_http sample_identity sample_ipnet sample_machines line_signals http_config_default True
     offer_limits asked_after [] {77} [0]"
proof -
  let ?reachable = "web_reachable sample_tcp asked_httparse asked_http sample_identity sample_ipnet sample_machines line_signals
    http_config_default True offer_limits"
  show begun: "?reachable asked_server [] {} []"
    unfolding asked_server_def by (rule web_reachable.begun) (simp add: http_config_default_def)
  have requests: "frame_requests sample_tcp asked_httparse asked_http sample_identity sample_ipnet asked_frame asked_server = [(0, asked_request)]"
    using asked_accepted asked_pumped by (simp add: frame_requests_def asked_frame_def del: pump_all.simps)
  have "?reachable asked_after [] ({} \<union> set (frame_ids sample_tcp asked_httparse asked_http sample_identity sample_ipnet asked_frame asked_server))
      ([] @ map fst (frame_requests sample_tcp asked_httparse asked_http sample_identity sample_ipnet asked_frame asked_server))"
    by (rule web_reachable.frame [OF begun _ _ _ asked_update])
      (simp_all only: frame_ids_def requests, simp_all add: asked_server_def asked_frame_def web_set_def http_server_new_def)
  then show "?reachable asked_after [] {77} [0]"
    unfolding frame_ids_def requests by (simp add: asked_frame_def)
qed

lemma asked_laws: "wire_laws sample_tcp" "httparse_laws asked_httparse"
  unfolding asked_httparse_def by (rule sample_tcp_laws sample_httparse_laws)+



end
