(* ===== verification/Join_Target.thy ===== *)
theory Join_Target
  imports Candidate_Lines
begin

text \<open>
  The server URL of the HTTP client, \<open>JoinTarget\<close> in \<open>bevy-nethernet/src/http_client.rs\<close>.  Proved: a URL made of a scheme, an
  optional user, a host in the form it needs, an optional port and any path is read as exactly that host and port; and
  whatever the URL, the host is not empty and the authority carries no user and no path.
\<close>

text \<open>\<open>str::split_once\<close> at a string, and \<open>str::rsplit_once\<close> and the last piece of \<open>str::rsplit\<close> at a character.\<close>

fun split_once_str :: "string \<Rightarrow> string \<Rightarrow> (string \<times> string) option" where
  "split_once_str sep [] = (if sep = [] then Some ([], []) else None)"
| "split_once_str sep (c # s) =
     (if starts_with (c # s) sep then Some ([], drop (length sep) (c # s))
      else map_option (\<lambda>(a, b). (c # a, b)) (split_once_str sep s))"

definition rsplit_once :: "char \<Rightarrow> string \<Rightarrow> (string \<times> string) option" where
  "rsplit_once c s = map_option (\<lambda>(b, a). (rev a, rev b)) (split_once c (rev s))"

definition rsplit_next :: "char \<Rightarrow> string \<Rightarrow> string" where
  "rsplit_next c s = (case rsplit_once c s of Some (_, b) \<Rightarrow> b | None \<Rightarrow> s)"

datatype 'e join_error =
    MissingScheme
  | UnsupportedScheme
  | MissingHost
  | InvalidJoinPort
  | TlsUnavailable
  | InvalidServerName
  | JoinTls 'e

record join_target =
  jt_secure :: bool
  jt_host :: string
  jt_port :: u16
  jt_authority :: string

definition url_delimiter :: "char \<Rightarrow> bool" where
  "url_delimiter c \<longleftrightarrow> c = CHR ''/'' \<or> c = CHR ''?'' \<or> c = CHR ''#''"

definition join_scheme :: "string \<Rightarrow> ('e join_error, bool \<times> u16) result" where
  "join_scheme scheme =
     (if to_ascii_lowercase scheme = ''http'' then Inr (False, 80)
      else if to_ascii_lowercase scheme = ''https'' then Inr (True, 443)
      else Inl UnsupportedScheme)"

definition host_and_port_of :: "string \<Rightarrow> ('e join_error, string \<times> string option) result" where
  "host_and_port_of hp =
     (case strip_prefix ''['' hp of
        Some bracketed \<Rightarrow>
          res_bind (ok_or MissingHost (split_once CHR '']'' bracketed)) (\<lambda>(host, after). Inr (host, strip_prefix '':'' after))
      | None \<Rightarrow>
          (case rsplit_once CHR '':'' hp of
             Some (host, pnum) \<Rightarrow> Inr (host, Some pnum)
           | None \<Rightarrow> Inr (hp, None)))"

definition join_target_parse :: "string \<Rightarrow> ('e join_error, join_target) result" where
  "join_target_parse url =
     res_bind (ok_or MissingScheme (split_once_str ''://'' url)) (\<lambda>(scheme, rest).
     res_bind (join_scheme scheme) (\<lambda>(secure, default_port).
       let authority = takeWhile (\<lambda>c. \<not> url_delimiter c) rest;
           host_and_port = rsplit_next CHR ''@'' authority in
       res_bind (host_and_port_of host_and_port) (\<lambda>(host, port_text).
       if host = [] then Inl MissingHost
       else
         res_bind (case port_text of
             Some text \<Rightarrow> ok_or InvalidJoinPort (parse_u16 text)
           | None \<Rightarrow> Inr default_port) (\<lambda>pnum.
         Inr \<lparr>jt_secure = secure, jt_host = host, jt_port = pnum, jt_authority = host_and_port\<rparr>))))"

section \<open>Lemmas\<close>

lemma rsplit_once_append [simp]: "c \<notin> set b \<Longrightarrow> rsplit_once c (a @ c # b) = Some (a, b)"
  by (simp add: rsplit_once_def)

lemma rsplit_once_Some: "rsplit_once c s = Some (a, b) \<Longrightarrow> s = a @ c # b \<and> c \<notin> set b"
  using split_once_Some [of c "rev s"] by (auto simp: rsplit_once_def rev_eq_append_conv)

lemma rsplit_once_None: "rsplit_once c s = None \<longleftrightarrow> c \<notin> set s"
  by (simp add: rsplit_once_def split_once_def)

lemma rsplit_next_no: "c \<notin> set (rsplit_next c s)"
  by (auto simp: rsplit_next_def rsplit_once_None dest: rsplit_once_Some split: option.splits)

lemma rsplit_next_suffix: "\<exists>a. s = a @ rsplit_next c s"
  by (force simp: rsplit_next_def dest: rsplit_once_Some split: option.splits)

lemma split_once_str_scheme: "CHR '':'' \<notin> set a \<Longrightarrow> split_once_str ''://'' (a @ ''://'' @ b) = Some (a, b)"
  by (induction a) (auto simp: starts_with_def)

lemma scheme_no_colon:
  assumes "to_ascii_lowercase scheme = name" "CHR '':'' \<notin> set name"
  shows "CHR '':'' \<notin> set scheme"
proof
  have lower: "ascii_lower CHR '':'' = CHR '':''" by (simp add: ascii_lower_def)
  assume "CHR '':'' \<in> set scheme"
  with lower have "CHR '':'' \<in> set (map ascii_lower scheme)" by force
  with assms show False by (simp add: to_ascii_lowercase_def)
qed

lemma takeWhile_tail:
  assumes "\<forall>c \<in> set a. P c" "b = [] \<or> \<not> P (hd b)"
  shows "takeWhile P (a @ b) = a"
  using assms by (cases b) (auto simp: takeWhile_append)

lemma port_digits:
  assumes "c \<in> set (u16_to_string p)"
  shows "is_digit c"
  using assms dec_digits [of "unat p"] by (auto simp: u16_to_string_def list_all_iff)

lemma port_no_colon [simp]: "CHR '':'' \<notin> set (u16_to_string p)"
  using port_digits by (force simp: is_digit_def)

text \<open>How a URL names a host and perhaps a port.\<close>

definition authority_text :: "string \<Rightarrow> u16 option \<Rightarrow> string" where
  "authority_text host pnum =
     (if CHR '':'' \<in> set host then ''['' @ host @ '']'' else host) @
     (case pnum of Some p \<Rightarrow> '':'' @ u16_to_string p | None \<Rightarrow> [])"

lemma authority_read:
  assumes "host \<noteq> []" "CHR ''['' \<notin> set host" "CHR '']'' \<notin> set host"
  shows "host_and_port_of (authority_text host pnum) = Inr (host, map_option u16_to_string pnum)"
proof (cases "CHR '':'' \<in> set host")
  case True
  with assms show ?thesis
    by (cases pnum) (simp_all add: host_and_port_of_def authority_text_def strip_prefix_def)
next
  case False
  have "rsplit_once CHR '':'' host = None" using False by (simp add: rsplit_once_None)
  moreover have "strip_prefix ''['' (host @ s) = None" for s
    using assms by (cases host) (auto simp: strip_prefix_def)
  from this [of "[]"] this [of "'':'' @ u16_to_string (the pnum)"]
  have "strip_prefix ''['' host = None" "strip_prefix ''['' (host @ '':'' @ u16_to_string (the pnum)) = None" by simp_all
  ultimately show ?thesis
    using False by (cases pnum) (simp_all add: host_and_port_of_def authority_text_def)
qed

lemma host_in_authority:
  assumes "host_and_port_of hp = Inr (host, port_text)"
  shows "\<exists>a b. hp = a @ host @ b"
proof (cases "strip_prefix ''['' hp")
  case None
  show ?thesis
  proof (cases "rsplit_once CHR '':'' hp")
    case None
    with assms \<open>strip_prefix ''['' hp = None\<close> have "hp = [] @ host @ []" by (simp add: host_and_port_of_def)
    then show ?thesis by blast
  next
    case (Some hpp)
    with assms \<open>strip_prefix ''['' hp = None\<close> have "hp = [] @ host @ CHR '':'' # snd hpp"
      by (cases hpp) (auto simp: host_and_port_of_def dest: rsplit_once_Some)
    then show ?thesis by blast
  qed
next
  case (Some inside)
  obtain after where "split_once CHR '']'' inside = Some (host, after)"
    using assms Some by (cases "split_once CHR '']'' inside") (auto simp: host_and_port_of_def)
  then have "inside = host @ CHR '']'' # after" by (simp add: split_once_Some)
  moreover have "take 1 hp = ''[''" "inside = drop 1 hp"
    using Some by (simp_all add: strip_prefix_def split: if_splits)
  then have "hp = ''['' @ inside" by (metis append_take_drop_id)
  ultimately have "hp = ''['' @ host @ CHR '']'' # after" by simp
  then show ?thesis by blast
qed

lemma join_target_Inr:
  assumes "join_target_parse url = (Inr t :: ('e join_error, join_target) result)"
  obtains rest host port_text where "host_and_port_of (jt_authority t) = (Inr (host, port_text) :: ('e join_error, _) result)"
    "jt_authority t = rsplit_next CHR ''@'' (takeWhile (\<lambda>c. \<not> url_delimiter c) rest)" "host \<noteq> []" "jt_host t = host"
proof -
  obtain parts where parts: "ok_or MissingScheme (split_once_str ''://'' url) = (Inr parts :: ('e join_error, _) result)"
    using assms unfolding join_target_parse_def res_bind_eq_Inr by blast
  obtain scheme rest where sr: "parts = (scheme, rest)" by (cases parts)
  obtain kind where kind: "join_scheme scheme = (Inr kind :: ('e join_error, _) result)"
    using assms unfolding join_target_parse_def parts sr res_bind.simps prod.case res_bind_eq_Inr by blast
  obtain secure default_port where sd: "kind = (secure, default_port)" by (cases kind)
  let ?hp = "rsplit_next CHR ''@'' (takeWhile (\<lambda>c. \<not> url_delimiter c) rest)"
  obtain found where found: "host_and_port_of ?hp = (Inr found :: ('e join_error, _) result)"
    using assms unfolding join_target_parse_def parts sr kind sd res_bind.simps prod.case res_bind_eq_Inr Let_def by blast
  obtain host port_text where hp: "found = (host, port_text)" by (cases found)
  have "host \<noteq> [] \<and> jt_host t = host \<and> jt_authority t = ?hp"
    using assms unfolding join_target_parse_def parts sr kind sd res_bind.simps prod.case Let_def found hp
    by (auto simp: res_bind_eq_Inr split: if_splits)
  with found hp that show thesis by simp
qed

section \<open>Property\<close>

text \<open>C38: The server URL is read as it was meant.  For either scheme in any case, an optional user before an at sign, a host
  (an IPv6 address in brackets), an optional port and any path, query or fragment, the target has exactly that host and
  port, 80 and 443 being the defaults.  And whatever URL is accepted, its host is not empty and stands in the authority
  that becomes the \<open>Host\<close> header, which has no user, path, query or fragment in it.\<close>

theorem join_target_read:
  assumes "to_ascii_lowercase scheme = (if secure then ''https'' else ''http'')"
    and "user = [] \<or> (\<exists>name. user = name @ ''@'' \<and> (\<forall>c \<in> set name. \<not> url_delimiter c))"
    and "host \<noteq> []" "\<forall>c \<in> set host. \<not> url_delimiter c \<and> c \<notin> {CHR ''@'', CHR ''['', CHR '']''}"
    and "tail = [] \<or> url_delimiter (hd tail)"
  shows "join_target_parse (scheme @ ''://'' @ user @ authority_text host pnum @ tail) =
      (Inr \<lparr>jt_secure = secure, jt_host = host,
        jt_port = (case pnum of Some p \<Rightarrow> p | None \<Rightarrow> if secure then 443 else 80), jt_authority = authority_text host pnum\<rparr>
        :: ('e join_error, join_target) result) \<and>
    (join_target_parse url = (Inr t :: ('e join_error, join_target) result) \<longrightarrow> jt_host t \<noteq> [] \<and> (\<exists>a b. jt_authority t = a @ jt_host t @ b) \<and>
      (\<forall>c \<in> set (jt_authority t). \<not> url_delimiter c \<and> c \<noteq> CHR ''@''))"
proof (intro conjI impI)
  let ?a = "authority_text host pnum"
  have digits: "\<forall>c \<in> set (u16_to_string p). \<not> url_delimiter c \<and> c \<noteq> CHR ''@''" for p
  proof -
    have "is_digit c \<Longrightarrow> \<not> url_delimiter c \<and> c \<noteq> CHR ''@''" for c by (auto simp: url_delimiter_def is_digit_def)
    then show ?thesis using port_digits by blast
  qed
  have chars: "\<forall>c \<in> set ?a. \<not> url_delimiter c \<and> c \<noteq> CHR ''@''"
    using assms(4) digits by (auto simp: authority_text_def url_delimiter_def split: option.splits)
  have at: "\<not> url_delimiter CHR ''@''" by (simp add: url_delimiter_def)
  have "\<not> url_delimiter c" if "c \<in> set user" for c
    using assms(2) that at by (elim disjE exE conjE) (simp, metis empty_iff empty_set insert_iff list.simps(15) set_append Un_iff)
  with chars have "\<forall>c \<in> set (user @ ?a). \<not> url_delimiter c" by auto
  with assms(5) have cut: "takeWhile (\<lambda>c. \<not> url_delimiter c) (user @ ?a @ tail) = user @ ?a"
    using takeWhile_tail [of "user @ ?a" "\<lambda>c. \<not> url_delimiter c" tail] by simp
  have next_part: "rsplit_next CHR ''@'' (user @ ?a) = ?a"
  proof (cases "user = []")
    case True
    have "rsplit_once CHR ''@'' ?a = None" using chars by (auto simp: rsplit_once_None)
    with True show ?thesis by (simp add: rsplit_next_def)
  next
    case False
    then obtain name where "user = name @ ''@''" using assms(2) by blast
    moreover have "CHR ''@'' \<notin> set ?a" using chars by auto
    ultimately show ?thesis by (simp add: rsplit_next_def)
  qed
  have "CHR '':'' \<notin> set scheme"
    by (rule scheme_no_colon [OF assms(1)]) simp
  then have url: "split_once_str ''://'' (scheme @ ''://'' @ user @ ?a @ tail) = Some (scheme, user @ ?a @ tail)"
    by (rule split_once_str_scheme)
  have read: "host_and_port_of ?a = (Inr (host, map_option u16_to_string pnum) :: ('e join_error, _) result)"
    by (rule authority_read) (use assms(3,4) in auto)
  have kind: "join_scheme scheme = (Inr (secure, if secure then 443 else 80) :: ('e join_error, _) result)"
    using assms(1) by (simp add: join_scheme_def)
  show "join_target_parse (scheme @ ''://'' @ user @ ?a @ tail) =
      (Inr \<lparr>jt_secure = secure, jt_host = host,
        jt_port = (case pnum of Some p \<Rightarrow> p | None \<Rightarrow> if secure then 443 else 80), jt_authority = ?a\<rparr>
        :: ('e join_error, join_target) result)"
    unfolding join_target_parse_def Let_def url ok_or.simps res_bind.simps prod.case kind cut next_part read if_not_P [OF assms(3)]
    by (cases pnum) (simp_all only: option.case option.map parse_u16_to_string ok_or.simps res_bind.simps)
next
  assume "join_target_parse url = (Inr t :: ('e join_error, join_target) result)"
  then obtain rest host port_text where host: "host_and_port_of (jt_authority t) = (Inr (host, port_text) :: ('e join_error, _) result)"
    and hp: "jt_authority t = rsplit_next CHR ''@'' (takeWhile (\<lambda>c. \<not> url_delimiter c) rest)" "host \<noteq> []" "jt_host t = host"
    by (rule join_target_Inr)
  show "jt_host t \<noteq> []" using hp by simp
  show "\<exists>a b. jt_authority t = a @ jt_host t @ b" using host_in_authority [OF host] hp(3) by simp
  obtain a where "takeWhile (\<lambda>c. \<not> url_delimiter c) rest = a @ jt_authority t" using rsplit_next_suffix hp(1) by metis
  then have "\<forall>c \<in> set (jt_authority t). \<not> url_delimiter c" by (metis Un_iff set_append set_takeWhileD)
  moreover have "CHR ''@'' \<notin> set (jt_authority t)" unfolding hp(1) by (rule rsplit_next_no)
  ultimately show "\<forall>c \<in> set (jt_authority t). \<not> url_delimiter c \<and> c \<noteq> CHR ''@''" by auto
qed

theorem join_target_read_witness:
  "join_target_parse ''HTTPS://me@[fe80::1]:8443/v1/join'' =
     (Inr \<lparr>jt_secure = True, jt_host = ''fe80::1'', jt_port = 8443, jt_authority = ''[fe80::1]:8443''\<rparr>
       :: (unit join_error, join_target) result)"
proof -
  have shown: "authority_text ''fe80::1'' (Some 8443) = ''[fe80::1]:8443''"
    by (simp add: authority_text_def u16_to_string_def dec.simps digit_char_def char_of_def bit_0)
  show ?thesis
    using join_target_read [of "''HTTPS''" True "''me@''" "''fe80::1''" "''/v1/join''" "Some 8443" "[]" undefined, where 'e = unit] unfolding shown
    by (simp add: to_ascii_lowercase_def ascii_lower_def url_delimiter_def char_of_def bit_0)
qed

end
